(* ===== verification/Prelude.thy ===== *)
theory Prelude
  imports Main "HOL-Library.Char_ord" "HOL-Library.List_Lexorder" "HOL-Library.Sublist"
begin

text \<open>
  Shared material of the development: the proof collections, Go's 64-bit arithmetic, time and
  durations, the strings package (the functions the sources use), error values, and the
  computations themselves. A Go function with effects is a function from a state to an outcome
  and a state: it returns a value, or it halts the process (a panic, \<open>os.Exit\<close>), or its loop
  budget is used up. The state is a parameter here; theory World fixes it.
\<close>

named_theorems wp_intros "rules that decompose a triple along the shape of a computation"
named_theorems go_defs "definitions that evaluate on concrete input"

section \<open>Integers, time and durations\<close>

text \<open>
  Go's \<open>int64\<close> is an \<open>int\<close> whose arithmetic is reduced by \<open>i64\<close>, the two's complement
  wrap-around at 64 bits.
\<close>

definition max_int64 :: int where "max_int64 = 9223372036854775807"
definition min_int64 :: int where "min_int64 = - 9223372036854775808"

definition i64 :: "int \<Rightarrow> int" where
  "i64 x = (x + 9223372036854775808) mod 18446744073709551616 - 9223372036854775808"

definition in_int64 :: "int \<Rightarrow> bool" where
  "in_int64 x \<longleftrightarrow> min_int64 \<le> x \<and> x \<le> max_int64"

lemma i64_range: "in_int64 (i64 x)"
  by (simp add: in_int64_def i64_def min_int64_def max_int64_def)

lemma i64_id [simp]: "in_int64 x \<Longrightarrow> i64 x = x"
  by (simp add: in_int64_def i64_def min_int64_def max_int64_def)

text \<open>
  A \<open>time.Time\<close> is a count of nanoseconds since year 1, so that Go's zero time is 0 and
  \<open>IsZero\<close> is equality with 0. \<open>time.Duration\<close> is an \<open>int64\<close> of nanoseconds, and
  \<open>Sub\<close> (hence \<open>Since\<close>) saturates.
\<close>

type_synonym time = int
type_synonym duration = int

definition is_zero :: "time \<Rightarrow> bool" where "is_zero t \<longleftrightarrow> t = 0"

definition saturate :: "int \<Rightarrow> duration" where
  "saturate d = max min_int64 (min max_int64 d)"

definition since :: "time \<Rightarrow> time \<Rightarrow> duration" where
  "since now t = saturate (now - t)"

definition second :: duration where "second = 1000000000"
definition millisecond :: duration where "millisecond = 1000000"

lemma is_zero_0 [simp]: "is_zero 0"
  by (simp add: is_zero_def)

lemma since_small: "in_int64 (now - t) \<Longrightarrow> since now t = now - t"
  by (auto simp: since_def saturate_def in_int64_def)

section \<open>Strings\<close>

text \<open>
  Go strings are byte sequences; they are lists of characters here, ordered lexicographically
  as \<open>sort.Strings\<close> orders them.
\<close>

text \<open>\<open>strings.HasPrefix s p\<close>.\<close>
definition HasPrefix :: "string \<Rightarrow> string \<Rightarrow> bool" where
  "HasPrefix s p \<longleftrightarrow> take (length p) s = p"

text \<open>\<open>strings.Index s sep\<close>: the position of the first occurrence, None for Go's -1.\<close>
fun str_index :: "string \<Rightarrow> string \<Rightarrow> nat option" where
  "str_index [] sep = (if sep = [] then Some 0 else None)"
| "str_index (c # cs) sep =
     (if HasPrefix (c # cs) sep then Some 0 else map_option Suc (str_index cs sep))"

definition str_contains :: "string \<Rightarrow> string \<Rightarrow> bool" where
  "str_contains s sub \<longleftrightarrow> str_index s sub \<noteq> None"

text \<open>\<open>strings.Cut s sep\<close>: None when the separator is absent.\<close>
definition str_cut :: "string \<Rightarrow> string \<Rightarrow> (string \<times> string) option" where
  "str_cut s sep = (case str_index s sep of None \<Rightarrow> None
     | Some i \<Rightarrow> Some (take i s, drop (i + length sep) s))"

text \<open>\<open>strings.Split s sep\<close> for a separator of one byte.\<close>
fun str_split :: "char \<Rightarrow> string \<Rightarrow> string list" where
  "str_split c [] = [[]]"
| "str_split c (x # xs) =
     (if x = c then [] # str_split c xs
      else (case str_split c xs of [] \<Rightarrow> [[x]] | w # ws \<Rightarrow> (x # w) # ws))"

text \<open>\<open>strings.Join parts sep\<close>.\<close>
fun str_join :: "string \<Rightarrow> string list \<Rightarrow> string" where
  "str_join sep [] = []"
| "str_join sep [x] = x"
| "str_join sep (x # y # ys) = x @ sep @ str_join sep (y # ys)"

definition is_space :: "char \<Rightarrow> bool" where
  "is_space c \<longleftrightarrow> c \<in> set [CHR '' '', CHR 0x09, CHR 0x0A, CHR 0x0B, CHR 0x0C, CHR 0x0D]"

definition str_trim :: "string \<Rightarrow> string" where
  "str_trim s = rev (dropWhile is_space (rev (dropWhile is_space s)))"

text \<open>\<open>strings.Fields s\<close>: the maximal runs of non-space characters.\<close>
fun fields_acc :: "string \<Rightarrow> string \<Rightarrow> string list" where
  "fields_acc w [] = (if w = [] then [] else [rev w])"
| "fields_acc w (c # cs) =
     (if is_space c then (if w = [] then fields_acc [] cs else rev w # fields_acc [] cs)
      else fields_acc (c # w) cs)"

definition str_fields :: "string \<Rightarrow> string list" where
  "str_fields s = fields_acc [] s"

text \<open>\<open>strconv.Itoa\<close>.\<close>
fun nat_digits :: "nat \<Rightarrow> string" where
  "nat_digits n = (if n < 10 then [char_of (48 + n)]
                   else nat_digits (n div 10) @ [char_of (48 + n mod 10)])"

declare nat_digits.simps [simp del]

definition itoa :: "int \<Rightarrow> string" where
  "itoa i = (if i < 0 then CHR ''-'' # nat_digits (nat (- i)) else nat_digits (nat i))"

text \<open>\<open>%s\<close> of a list of strings, \<open>%d\<close> of a number of elements.\<close>
definition list_text :: "string list \<Rightarrow> string" where
  "list_text xs = ''['' @ str_join '' '' xs @ '']''"

definition count_text :: "'a list \<Rightarrow> string" where
  "count_text xs = itoa (int (length xs))"

text \<open>
  \<open>strconv.ParseInt(s, 10, bits)\<close>: the value together with whether it failed. A syntax error
  gives 0, a range error the nearest value of the range, as the Go function does.
\<close>

definition digit_val :: "char \<Rightarrow> nat option" where
  "digit_val c = (let k = of_char c :: nat in if 48 \<le> k \<and> k \<le> 57 then Some (k - 48) else None)"

datatype num_error = ErrSyntax | ErrRange

text \<open>\<open>strconv.Quote\<close> of ASCII text; other bytes stay as they are.\<close>
definition quote_char :: "char \<Rightarrow> string" where
  "quote_char c =
     (if c = CHR 0x22 \<or> c = CHR 0x5C then [CHR 0x5C, c]
      else if c = CHR 0x07 then [CHR 0x5C, CHR ''a''] else if c = CHR 0x08 then [CHR 0x5C, CHR ''b'']
      else if c = CHR 0x09 then [CHR 0x5C, CHR ''t''] else if c = CHR 0x0A then [CHR 0x5C, CHR ''n'']
      else if c = CHR 0x0B then [CHR 0x5C, CHR ''v''] else if c = CHR 0x0C then [CHR 0x5C, CHR ''f'']
      else if c = CHR 0x0D then [CHR 0x5C, CHR ''r'']
      else if of_char c < (32 :: nat) \<or> c = CHR 0x7F
      then [CHR 0x5C, CHR ''x'', ''0123456789abcdef'' ! (of_char c div 16), ''0123456789abcdef'' ! (of_char c mod 16)]
      else [c])"

text \<open>The text of a \<open>strconv.NumError\<close> of the function \<open>fn\<close>.\<close>
definition num_error_text :: "string \<Rightarrow> string \<Rightarrow> num_error \<Rightarrow> string" where
  "num_error_text fn v e = ''strconv.'' @ fn @ '': parsing '' @ [CHR 0x22] @ concat (map quote_char v) @ [CHR 0x22] @
     (case e of ErrSyntax \<Rightarrow> '': invalid syntax'' | ErrRange \<Rightarrow> '': value out of range'')"

fun parse_digits :: "nat \<Rightarrow> nat \<Rightarrow> string \<Rightarrow> num_error + nat" where
  "parse_digits limit acc [] = Inr acc"
| "parse_digits limit acc (c # cs) =
     (case digit_val c of None \<Rightarrow> Inl ErrSyntax
      | Some d \<Rightarrow> (let n = 10 * acc + d in
          if n \<ge> limit then Inl ErrRange else parse_digits limit n cs))"

text \<open>\<open>strconv.ParseUint(s, 10, bits)\<close>, digit by digit, so that the first error wins.\<close>
definition ParseUint :: "nat \<Rightarrow> string \<Rightarrow> nat \<times> num_error option" where
  "ParseUint bits s = (if s = [] then (0, Some ErrSyntax)
     else case parse_digits (2 ^ bits) 0 s of
            Inr n \<Rightarrow> (n, None)
          | Inl ErrSyntax \<Rightarrow> (0, Some ErrSyntax)
          | Inl ErrRange \<Rightarrow> (2 ^ bits - 1, Some ErrRange))"

definition ParseInt :: "nat \<Rightarrow> string \<Rightarrow> int \<times> num_error option" where
  "ParseInt bits s =
     (let (neg, t) = (case s of [] \<Rightarrow> (False, [])
             | c # cs \<Rightarrow> if c = CHR ''-'' then (True, cs)
                         else if c = CHR ''+'' then (False, cs) else (False, c # cs));
          (un, err) = ParseUint bits t;
          cutoff = 2 ^ (bits - 1) :: int
      in if err = Some ErrSyntax then (0, err)
         else if \<not> neg \<and> int un \<ge> cutoff then (cutoff - 1, Some ErrRange)
         else if neg \<and> int un > cutoff then (- cutoff, Some ErrRange)
         else (if neg then - int un else int un, None))"

lemma HasPrefix_Nil [simp]: "HasPrefix s []"
  by (simp add: HasPrefix_def)

lemma HasPrefix_prefix: "HasPrefix s p \<longleftrightarrow> prefix p s"
  by (auto simp: HasPrefix_def prefix_def) (metis append_take_drop_id)

lemma HasPrefix_length: "HasPrefix s p \<Longrightarrow> length p \<le> length s"
  by (simp add: HasPrefix_prefix prefix_length_le)

lemma str_index_bound: "str_index s p = Some i \<Longrightarrow> i + length p \<le> length s"
proof (induction s arbitrary: i)
  case (Cons c cs)
  then show ?case
    by (cases "HasPrefix (c # cs) p") (auto dest: HasPrefix_length)
qed (simp split: if_splits)

lemma str_split_ne [simp]: "str_split c xs \<noteq> []"
  by (induction xs) (auto split: list.splits)

lemma str_join_split: "str_join [c] (str_split c xs) = xs"
proof (induction xs)
  case (Cons x xs)
  obtain w ws where "str_split c xs = w # ws"
    by (cases "str_split c xs") auto
  with Cons show ?case by (cases ws) auto
qed simp

lemma str_split_one: "c \<notin> set w \<Longrightarrow> str_split c w = [w]"
  by (induction w) auto

lemma str_split_app: "c \<notin> set w \<Longrightarrow> str_split c (w @ c # rest) = w # str_split c rest"
  by (induction w) auto

lemma str_join_Cons: "str_join sep (x # xs) = x @ (if xs = [] then [] else sep @ str_join sep xs)"
  by (cases xs) auto

lemma str_split_join:
  "\<forall>w \<in> set ws. c \<notin> set w \<Longrightarrow> ws \<noteq> [] \<Longrightarrow> str_split c (str_join [c] ws) = ws"
  by (induction ws) (auto simp: str_join_Cons str_split_one str_split_app)

lemma str_split_parts: "w \<in> set (str_split c xs) \<Longrightarrow> c \<notin> set w"
  by (induction xs arbitrary: w) (auto split: list.splits if_splits)

lemma ParseInt_range:
  "- (2 ^ (bits - 1)) \<le> fst (ParseInt bits s) \<and> fst (ParseInt bits s) < 2 ^ (bits - 1)"
proof -
  have "(0::int) < 2 ^ (bits - Suc 0)" by simp
  moreover have "- int n < 2 ^ (bits - Suc 0)" "- (2 ^ (bits - Suc 0)) \<le> int n" for n
    using calculation by linarith+
  ultimately show ?thesis
    by (auto simp: ParseInt_def Let_def split: prod.splits if_splits)
qed

lemma ParseInt_in_int64: "in_int64 (fst (ParseInt 64 s))"
  using ParseInt_range [of 64 s] by (simp add: in_int64_def min_int64_def max_int64_def)

text \<open>Decimal printing and parsing are inverse on \<open>int64\<close>.\<close>

lemma digit_val_char_of: "d < 10 \<Longrightarrow> digit_val (char_of (48 + d)) = Some d"
  by (simp add: digit_val_def Let_def of_char_of)

lemma parse_digits_append:
  "parse_digits l a (xs @ ys) = (case parse_digits l a xs of Inl e \<Rightarrow> Inl e | Inr b \<Rightarrow> parse_digits l b ys)"
  by (induction xs arbitrary: a) (auto simp: Let_def split: option.splits)

lemma nat_digits_ne [simp]: "nat_digits n \<noteq> []"
  by (subst nat_digits.simps) simp

lemma parse_nat_digits: "n < l \<Longrightarrow> parse_digits l 0 (nat_digits n) = Inr n"
proof (induction n rule: less_induct)
  case (less n)
  show ?case
  proof (cases "n < 10")
    case True
    with less.prems show ?thesis
      by (subst nat_digits.simps) (simp add: digit_val_char_of)
  next
    case False
    with less have "parse_digits l 0 (nat_digits (n div 10)) = Inr (n div 10)"
      by simp
    with False less.prems show ?thesis
      by (subst nat_digits.simps) (simp add: parse_digits_append digit_val_char_of Let_def)
  qed
qed

lemma nat_digits_hd: "\<exists>d < (10::nat). hd (nat_digits n) = char_of (48 + d)"
proof (induction n rule: less_induct)
  case (less n)
  show ?case
  proof (cases "n < 10")
    case True
    then show ?thesis by (subst nat_digits.simps) auto
  next
    case False
    then have "hd (nat_digits n) = hd (nat_digits (n div 10))"
      by (subst nat_digits.simps) (simp add: hd_append)
    with less [of "n div 10"] False show ?thesis by simp
  qed
qed

lemma digit_not_sign:
  assumes "d < 10"
  shows "char_of (48 + d :: nat) \<noteq> CHR ''-''" "char_of (48 + d :: nat) \<noteq> CHR ''+''"
proof -
  have "of_char (char_of (48 + d :: nat)) = 48 + d"
    using assms by (simp add: of_char_of)
  then have "of_char (char_of (48 + d :: nat)) \<noteq> (of_char CHR ''-'' :: nat)"
      "of_char (char_of (48 + d :: nat)) \<noteq> (of_char CHR ''+'' :: nat)"
    by simp_all
  then show "char_of (48 + d :: nat) \<noteq> CHR ''-''" "char_of (48 + d :: nat) \<noteq> CHR ''+''"
    by metis+
qed

lemma ParseUint_nat_digits: "n < 2 ^ b \<Longrightarrow> ParseUint b (nat_digits n) = (n, None)"
  by (simp add: ParseUint_def parse_nat_digits)

lemma ParseInt_itoa:
  assumes "in_int64 i"
  shows "ParseInt 64 (itoa i) = (i, None)"
proof (cases "i < 0")
  case True
  with assms have "nat (- i) < 2 ^ 64"
    by (simp add: in_int64_def min_int64_def nat_less_iff)
  from ParseUint_nat_digits [OF this] True assms show ?thesis
    by (simp add: itoa_def ParseInt_def Let_def in_int64_def min_int64_def)
next
  case False
  with assms have "nat i < 2 ^ 64" by (simp add: in_int64_def max_int64_def nat_less_iff)
  note un = ParseUint_nat_digits [OF this]
  obtain d ds where ds: "nat_digits (nat i) = d # ds"
    by (cases "nat_digits (nat i)") auto
  with nat_digits_hd [of "nat i"] have "d \<noteq> CHR ''-''" "d \<noteq> CHR ''+''"
    using digit_not_sign by auto
  with False assms un ds show ?thesis
    by (simp add: itoa_def ParseInt_def Let_def in_int64_def max_int64_def)
qed

end
