(* ===== verification/GoMonad.thy ===== *)
theory GoMonad
  imports Prelude
begin

text \<open>
  Go computations. Errors are values: an \<open>error\<close> result is a \<open>goerr option\<close> (None for nil) and a
  pair \<open>(T, error)\<close> is a sum. A computation maps a state to an outcome and a state. \<open>perform\<close> runs
  one computation and passes its value on, \<open>attempt\<close> and \<open>checked\<close> are the
  \<open>if err != nil { return err }\<close> idiom, \<open>iterate\<close> is a loop with a budget. A halted process
  (panic, exit, budget used up) performs nothing more.
\<close>

section \<open>Error values\<close>

text \<open>
  The sentinel errors of dcs.go, the errors of the ZooKeeper client the sources compare with, an
  error of a library with its text, and the two ways \<open>fmt.Errorf\<close> embeds an error: \<open>Wrap\<close> (\<open>%w\<close>,
  seen by \<open>errors.Is\<close>) and \<open>Text\<close> (\<open>%s\<close>, only its text).
\<close>

datatype goerr =
    ErrNotFound | ErrExists | ErrMalformed
  | ZkNoNode | ZkNodeExists | ZkConnectionClosed
  | Raw string
  | Errorf string
  | Wrap string goerr
  | Text string goerr

fun err_is :: "goerr \<Rightarrow> goerr \<Rightarrow> bool" where
  "err_is (Wrap m e) t = (Wrap m e = t \<or> err_is e t)"
| "err_is e t = (e = t)"

fun err_msg :: "goerr \<Rightarrow> string" where
  "err_msg ErrNotFound = ''key was not found in DCS''"
| "err_msg ErrExists = ''key already exists''"
| "err_msg ErrMalformed = ''failed to parse DCS value, possibly data format changed''"
| "err_msg ZkNoNode = ''zk: node does not exist''"
| "err_msg ZkNodeExists = ''zk: node already exists''"
| "err_msg ZkConnectionClosed = ''zk: connection closed''"
| "err_msg (Raw m) = m"
| "err_msg (Errorf m) = m"
| "err_msg (Wrap m e) = m @ '': '' @ err_msg e"
| "err_msg (Text m e) = m @ '': '' @ err_msg e"

definition is_err :: "goerr option \<Rightarrow> goerr \<Rightarrow> bool" where
  "is_err e t = (case e of None \<Rightarrow> False | Some x \<Rightarrow> err_is x t)"

lemma is_err_simps [simp]:
  "is_err None t = False" "is_err (Some e) t = err_is e t"
  by (simp_all add: is_err_def)

lemma err_is_refl [simp]: "err_is e e"
  by (cases e) auto

section \<open>Computations\<close>

datatype halt = Panic string | ProcExit int | OutOfFuel

datatype 'a outcome = Ok 'a | Halt halt

type_synonym ('s, 'a) comp = "'s \<Rightarrow> 'a outcome \<times> 's"

definition ret :: "'a \<Rightarrow> ('s, 'a) comp" where
  "ret x = (\<lambda>s. (Ok x, s))"

definition halt :: "halt \<Rightarrow> ('s, 'a) comp" where
  "halt h = (\<lambda>s. (Halt h, s))"

definition perform :: "('s, 'a) comp \<Rightarrow> ('a \<Rightarrow> ('s, 'b) comp) \<Rightarrow> ('s, 'b) comp" where
  "perform m k = (\<lambda>s. case m s of (Ok x, s') \<Rightarrow> k x s' | (Halt h, s') \<Rightarrow> (Halt h, s'))"

definition andThen :: "('s, 'a) comp \<Rightarrow> ('s, 'b) comp \<Rightarrow> ('s, 'b) comp" where
  "andThen m k = perform m (\<lambda>_. k)"

definition gets :: "('s \<Rightarrow> 'a) \<Rightarrow> ('s, 'a) comp" where
  "gets f = (\<lambda>s. (Ok (f s), s))"

definition modify :: "('s \<Rightarrow> 's) \<Rightarrow> ('s, unit) comp" where
  "modify f = (\<lambda>s. (Ok (), f s))"

definition attempt ::
  "('s, 'e + 'a) comp \<Rightarrow> ('a \<Rightarrow> ('s, 'e + 'b) comp) \<Rightarrow> ('s, 'e + 'b) comp" where
  "attempt m k = perform m (\<lambda>r. case r of Inl e \<Rightarrow> ret (Inl e) | Inr x \<Rightarrow> k x)"

definition checked :: "('s, 'e option) comp \<Rightarrow> ('s, 'e option) comp \<Rightarrow> ('s, 'e option) comp" where
  "checked m k = perform m (\<lambda>e. case e of Some x \<Rightarrow> ret (Some x) | None \<Rightarrow> k)"

definition attempt_err ::
  "('s, 'e + 'a) comp \<Rightarrow> ('a \<Rightarrow> ('s, 'e option) comp) \<Rightarrow> ('s, 'e option) comp" where
  "attempt_err m k = perform m (\<lambda>r. case r of Inl e \<Rightarrow> ret (Some e) | Inr x \<Rightarrow> k x)"

definition checked_or :: "('s, 'e option) comp \<Rightarrow> ('s, 'e + 'b) comp \<Rightarrow> ('s, 'e + 'b) comp" where
  "checked_or m k = perform m (\<lambda>e. case e of Some x \<Rightarrow> ret (Inl x) | None \<Rightarrow> k)"

text \<open>\<open>map_err f m\<close> rewrites the error of a computation: the \<open>return fmt.Errorf(..., err)\<close> idiom.\<close>
definition map_err :: "('e \<Rightarrow> 'e) \<Rightarrow> ('s, 'e option) comp \<Rightarrow> ('s, 'e option) comp" where
  "map_err f m = perform m (\<lambda>e. ret (map_option f e))"

definition doWhen :: "bool \<Rightarrow> ('s, unit) comp \<Rightarrow> ('s, unit) comp" where
  "doWhen b m = (if b then m else ret ())"

text \<open>Reading through a nil pointer panics.\<close>
definition deref :: "'a option \<Rightarrow> ('s, 'a) comp" where
  "deref p = (case p of None \<Rightarrow> halt (Panic ''nil pointer dereference'') | Some x \<Rightarrow> ret x)"

primrec each :: "('a \<Rightarrow> ('s, unit) comp) \<Rightarrow> 'a list \<Rightarrow> ('s, unit) comp" where
  "each f [] = ret ()"
| "each f (x # xs) = andThen (f x) (each f xs)"

primrec collect :: "('a \<Rightarrow> ('s, 'b) comp) \<Rightarrow> 'a list \<Rightarrow> ('s, 'b list) comp" where
  "collect f [] = ret []"
| "collect f (x # xs) = perform (f x) (\<lambda>y. perform (collect f xs) (\<lambda>ys. ret (y # ys)))"

primrec foldM :: "('a \<Rightarrow> 'b \<Rightarrow> ('s, 'b) comp) \<Rightarrow> 'a list \<Rightarrow> 'b \<Rightarrow> ('s, 'b) comp" where
  "foldM f [] a = ret a"
| "foldM f (x # xs) a = perform (f x a) (foldM f xs)"

text \<open>Loops that return at the first error.\<close>
primrec checked_each :: "('a \<Rightarrow> ('s, 'e option) comp) \<Rightarrow> 'a list \<Rightarrow> ('s, 'e option) comp" where
  "checked_each f [] = ret None"
| "checked_each f (x # xs) = checked (f x) (checked_each f xs)"

primrec attempt_each :: "('a \<Rightarrow> ('s, 'e + 'b) comp) \<Rightarrow> 'a list \<Rightarrow> ('s, 'e + 'b list) comp" where
  "attempt_each f [] = ret (Inr [])"
| "attempt_each f (x # xs) =
     attempt (f x) (\<lambda>y. attempt (attempt_each f xs) (\<lambda>ys. ret (Inr (y # ys))))"

text \<open>
  A loop: the body returns \<open>Inl\<close> the next loop state or \<open>Inr\<close> the loop's result. The first
  argument bounds the number of rounds.
\<close>
primrec iterate :: "nat \<Rightarrow> ('x \<Rightarrow> ('s, 'x + 'r) comp) \<Rightarrow> 'x \<Rightarrow> ('s, 'r) comp" where
  "iterate 0 body x = halt OutOfFuel"
| "iterate (Suc n) body x =
     perform (body x) (\<lambda>r. case r of Inl y \<Rightarrow> iterate n body y | Inr z \<Rightarrow> ret z)"

lemmas comp_defs = ret_def halt_def perform_def andThen_def gets_def modify_def attempt_def
  checked_def attempt_err_def checked_or_def map_err_def doWhen_def deref_def

section \<open>Laws of computations\<close>

lemma perform_ret [simp]: "perform (ret x) k = k x"
  by (simp add: comp_defs)

lemma perform_halt [simp]: "perform (halt h) k = halt h"
  by (simp add: comp_defs)

lemma perform_ret_right [simp]: "perform m ret = m"
  by (auto simp: comp_defs fun_eq_iff split: prod.splits outcome.splits)

lemma perform_assoc: "perform (perform m k) l = perform m (\<lambda>x. perform (k x) l)"
  by (auto simp: comp_defs fun_eq_iff split: prod.splits outcome.splits)

lemma each_append: "each f (xs @ ys) = andThen (each f xs) (each f ys)"
  by (induction xs) (simp_all add: andThen_def perform_assoc)

text \<open>A loop that gives a result gives the same result with a larger budget.\<close>

lemma iterate_mono:
  assumes "iterate n body x s = (r, s')" and "r \<noteq> Halt OutOfFuel"
  shows "iterate (n + k) body x s = (r, s')"
  using assms
proof (induction n arbitrary: x s)
  case (Suc n)
  then show ?case
    by (auto simp: perform_def split: prod.splits outcome.splits sum.splits)
qed (simp add: halt_def)

section \<open>Triples\<close>

text \<open>
  \<open>triple P m Q R\<close>: from a state with \<open>P\<close>, \<open>m\<close> either returns \<open>x\<close> in a state with \<open>Q x\<close> or halts in
  a state with \<open>R\<close>. The last component lets a property of the recorded history be proved for runs
  that end in the middle.
\<close>

definition triple ::
  "('s \<Rightarrow> bool) \<Rightarrow> ('s, 'a) comp \<Rightarrow> ('a \<Rightarrow> 's \<Rightarrow> bool) \<Rightarrow> ('s \<Rightarrow> bool) \<Rightarrow> bool" where
  "triple P m Q R \<longleftrightarrow> (\<forall>s. P s \<longrightarrow>
     (case m s of (Ok x, s') \<Rightarrow> Q x s' | (Halt h, s') \<Rightarrow> R s'))"

lemma tripleI:
  assumes "\<And>s x s'. P s \<Longrightarrow> m s = (Ok x, s') \<Longrightarrow> Q x s'"
    and "\<And>s h s'. P s \<Longrightarrow> m s = (Halt h, s') \<Longrightarrow> R s'"
  shows "triple P m Q R"
  using assms by (auto simp: triple_def split: prod.splits outcome.splits)

lemma triple_Ok: "triple P m Q R \<Longrightarrow> P s \<Longrightarrow> m s = (Ok x, s') \<Longrightarrow> Q x s'"
  by (auto simp: triple_def split: prod.splits outcome.splits)

lemma triple_Halt: "triple P m Q R \<Longrightarrow> P s \<Longrightarrow> m s = (Halt h, s') \<Longrightarrow> R s'"
  by (auto simp: triple_def split: prod.splits outcome.splits)

lemma triple_weaken:
  assumes "triple P' m Q' R'" and "\<And>s. P s \<Longrightarrow> P' s"
    and "\<And>x s. Q' x s \<Longrightarrow> Q x s" and "\<And>s. R' s \<Longrightarrow> R s"
  shows "triple P m Q R"
  using assms by (fastforce simp: triple_def split: prod.splits outcome.splits)

lemma triple_perform [wp_intros]:
  assumes "triple P m Q' R" and "\<And>x. triple (Q' x) (k x) Q R"
  shows "triple P (perform m k) Q R"
  using assms by (fastforce simp: triple_def perform_def split: prod.splits outcome.splits)

lemma triple_ret: "(\<And>s. P s \<Longrightarrow> Q x s) \<Longrightarrow> triple P (ret x) Q R"
  by (simp add: triple_def ret_def)

lemma triple_halt: "(\<And>s. P s \<Longrightarrow> R s) \<Longrightarrow> triple P (halt h) Q R"
  by (simp add: triple_def halt_def)

lemma triple_if [wp_intros]:
  "(b \<Longrightarrow> triple P m Q R) \<Longrightarrow> (\<not> b \<Longrightarrow> triple P m' Q R) \<Longrightarrow> triple P (if b then m else m') Q R"
  by simp

lemma triple_pre: "(\<And>s. P s \<Longrightarrow> triple (\<lambda>s'. s' = s) m Q R) \<Longrightarrow> triple P m Q R"
  by (simp add: triple_def)

section \<open>Taking runs apart\<close>

lemma attempt_each_run:
  "attempt_each f xs s = (Ok (Inr ys), s') \<Longrightarrow>
   list_all2 (\<lambda>x y. \<exists>t t'. f x t = (Ok (Inr y), t')) xs ys"
proof (induction xs arbitrary: s ys)
  case (Cons x xs)
  then show ?case
    by (fastforce simp: attempt_def perform_def ret_def split: prod.splits outcome.splits sum.splits)
qed (simp add: ret_def)

lemma attempt_Inr:
  assumes "attempt m k s = (Ok (Inr y), s')"
  obtains x t where "m s = (Ok (Inr x), t)" and "k x t = (Ok (Inr y), s')"
  using assms by (auto simp: attempt_def perform_def ret_def split: prod.splits outcome.splits sum.splits)

lemma perform_Ok:
  assumes "perform m k s = (Ok y, s')"
  obtains x t where "m s = (Ok x, t)" and "k x t = (Ok y, s')"
  using assms by (auto simp: perform_def split: prod.splits outcome.splits)

lemma checked_None:
  assumes "checked m k s = (Ok None, s')"
  obtains t where "m s = (Ok None, t)" and "k t = (Ok None, s')"
  using assms by (auto simp: checked_def perform_def ret_def split: prod.splits outcome.splits option.splits)

lemma collect_run:
  "collect f xs s = (Ok ys, s') \<Longrightarrow> list_all2 (\<lambda>x y. \<exists>t t'. f x t = (Ok y, t')) xs ys"
proof (induction xs arbitrary: s ys)
  case (Cons x xs)
  then show ?case by (fastforce simp: perform_def ret_def split: prod.splits outcome.splits)
qed (simp add: ret_def)

section \<open>Postconditions on results\<close>

text \<open>\<open>yields Q m\<close>: every value \<open>m\<close> can return has \<open>Q\<close>.\<close>

definition yields :: "('a \<Rightarrow> bool) \<Rightarrow> ('s, 'a) comp \<Rightarrow> bool" where
  "yields Q m \<longleftrightarrow> (\<forall>s x s'. m s = (Ok x, s') \<longrightarrow> Q x)"

lemma yieldsD: "yields Q m \<Longrightarrow> m s = (Ok x, s') \<Longrightarrow> Q x"
  by (auto simp: yields_def)

lemma yields_perform [wp_intros]: "(\<And>x. yields Q (k x)) \<Longrightarrow> yields Q (perform m k)"
  by (auto simp: yields_def elim!: perform_Ok)

lemma yields_through: "yields P m \<Longrightarrow> (\<And>x. P x \<Longrightarrow> yields Q (k x)) \<Longrightarrow> yields Q (perform m k)"
  by (auto simp: yields_def elim!: perform_Ok) blast

lemma yields_ret: "Q x \<Longrightarrow> yields Q (ret x)"
  by (simp add: yields_def ret_def)

lemma yields_halt [wp_intros]: "yields Q (halt h)"
  by (simp add: yields_def halt_def)

lemma yields_if [wp_intros]:
  "(b \<Longrightarrow> yields Q m) \<Longrightarrow> (\<not> b \<Longrightarrow> yields Q m') \<Longrightarrow> yields Q (if b then m else m')"
  by simp

lemma yields_option [wp_intros]:
  "(p = None \<Longrightarrow> yields Q m) \<Longrightarrow> (\<And>x. p = Some x \<Longrightarrow> yields Q (k x)) \<Longrightarrow>
   yields Q (case p of None \<Rightarrow> m | Some x \<Rightarrow> k x)"
  by (cases p) auto

lemma yields_sum [wp_intros]:
  "(\<And>e. r = Inl e \<Longrightarrow> yields Q (l e)) \<Longrightarrow> (\<And>x. r = Inr x \<Longrightarrow> yields Q (k x)) \<Longrightarrow>
   yields Q (case r of Inl e \<Rightarrow> l e | Inr x \<Rightarrow> k x)"
  by (cases r) auto

lemma yields_prod [wp_intros]:
  "(\<And>x y. p = (x, y) \<Longrightarrow> yields Q (k x y)) \<Longrightarrow> yields Q (case p of (x, y) \<Rightarrow> k x y)"
  by (cases p) auto

lemma yields_let [wp_intros]: "yields Q (k v) \<Longrightarrow> yields Q (let x = v in k x)"
  by simp

end
