(* ===== verification/Config.thy ===== *)
theory Config
  imports GoMonad
begin

text \<open>
  The configuration (internal/config/config.go and internal/dcs/config.go): one record per Go
  struct, and the default values; reading the file. Durations are nanoseconds. The intervals and
  factors of the back-off, whose defaults are constants of the backoff package, have no field: how long
  a retry waits and whether it gives up early is the environment's \<open>e_backoff\<close>.
\<close>

section \<open>Records\<close>

record RandomHostProviderConfig =
  rc_LookupTimeout :: duration
  rc_LookupTTL :: duration
  rc_LookupTickInterval :: duration
  rc_ConnectivityCheckTimeout :: duration
  rc_RetryJitter :: duration

record ZookeeperConfig =
  zc_CACert :: string
  zc_Namespace :: string
  zc_Hostname :: string
  zc_CertFile :: string
  zc_KeyFile :: string
  zc_Password :: string
  zc_Username :: string
  zc_Hosts :: "string list"
  zc_RandomHostProvider :: RandomHostProviderConfig
  zc_BackoffMaxRetries :: nat
  zc_SessionTimeout :: duration
  zc_LockHeldTTL :: duration
  zc_Auth :: bool
  zc_UseSSL :: bool
  zc_VerifyCerts :: bool

record ValkeyConfig =
  vc_AuthPassword :: string
  vc_AofPath :: string
  vc_RestartCommand :: string
  vc_TLSCAPath :: string
  vc_AuthUser :: string
  vc_DestructiveReplicationRepairCommand :: string
  vc_RestartTimeout :: duration
  vc_WaitPoisonPillTimeout :: duration
  vc_DNSTTL :: duration
  vc_FailoverTimeout :: duration
  vc_BusyTimeout :: duration
  vc_Port :: int
  vc_WaitPromoteTimeout :: duration
  vc_WaitReplicationTimeout :: duration
  vc_WaitCatchupTimeout :: duration
  vc_DialTimeout :: duration
  vc_WaitPromoteForceTimeout :: duration
  vc_WriteTimeout :: duration
  vc_StaleReplicaLagClose :: duration
  vc_StaleReplicaLagOpen :: duration
  vc_DestructiveReplicationRepairTimeout :: duration
  vc_FailoverCooldown :: duration
  vc_SwitchoverTimeout :: duration
  vc_MaxParallelSyncs :: int
  vc_ClusterBusPort :: int
  vc_ReservedConnections :: int
  vc_TurnBeforeSwitchover :: bool
  vc_AllowDataLoss :: bool
  vc_UseTLS :: bool

record SentinelModeConfig =
  sc_Name :: string
  sc_RunID :: string
  sc_ClusterName :: string
  sc_CacheAuthUser :: string
  sc_CacheAuthPassword :: string
  sc_CacheRestartCommand :: string
  sc_CacheUpdateSecret :: string
  sc_TLSCAPath :: string
  sc_CachePort :: int
  sc_AnnounceHostname :: bool
  sc_UseTLS :: bool

text \<open>\<open>appMode\<close> and \<open>aofMode\<close> of types.go, which \<open>NewApp\<close> parses from the configuration.\<close>

datatype appMode = modeSentinel | modeCluster

datatype aofMode = modeUnspecified | modeOn | modeOff | modeOnReplicas

record Config =
  c_InfoFile :: string
  c_Hostname :: string
  c_LogLevel :: string
  c_AofMode :: string
  c_MaintenanceFile :: string
  c_DaemonLockFile :: string
  c_PprofAddr :: string
  c_EventTimingLogFile :: string
  c_Mode :: string
  c_SentinelMode :: SentinelModeConfig
  c_Zookeeper :: ZookeeperConfig
  c_Valkey :: ValkeyConfig
  c_LogPollInterval :: duration
  c_LogBufferSize :: int
  c_HealthCheckInterval :: duration
  c_InfoFileHandlerInterval :: duration
  c_InactivationDelay :: duration
  c_DcsWaitTimeout :: duration
  c_DcsReconnectTimeout :: duration
  c_TickInterval :: duration
  c_PingStable :: int

section \<open>Defaults\<close>

definition minute :: duration where "minute = 60 * second"

definition DefaultRandomHostProviderConfig :: RandomHostProviderConfig where
  "DefaultRandomHostProviderConfig =
     \<lparr> rc_LookupTimeout = 3 * second, rc_LookupTTL = 300 * second,
       rc_LookupTickInterval = 60 * second, rc_ConnectivityCheckTimeout = 3 * second,
       rc_RetryJitter = 30 * second \<rparr>"

text \<open>The host name is \<open>os.Hostname\<close>; the sum is its error.\<close>
definition DefaultZookeeperConfig :: "goerr + string \<Rightarrow> goerr + ZookeeperConfig" where
  "DefaultZookeeperConfig osHostname =
     (case osHostname of Inl e \<Rightarrow> Inl e
      | Inr hostname \<Rightarrow> Inr
        \<lparr> zc_CACert = [], zc_Namespace = [], zc_Hostname = hostname, zc_CertFile = [],
       zc_KeyFile = [], zc_Password = [], zc_Username = [], zc_Hosts = [],
       zc_RandomHostProvider = DefaultRandomHostProviderConfig, zc_BackoffMaxRetries = 10,
       zc_SessionTimeout = 2 * second, zc_LockHeldTTL = 30 * second, zc_Auth = False,
       zc_UseSSL = False, zc_VerifyCerts = False \<rparr>)"

definition DefaultValkeyConfig :: ValkeyConfig where
  "DefaultValkeyConfig =
     \<lparr> vc_AuthPassword = [], vc_AofPath = [],
       vc_RestartCommand = ''systemctl restart valkey-server'', vc_TLSCAPath = [],
       vc_AuthUser = [], vc_DestructiveReplicationRepairCommand = [],
       vc_RestartTimeout = 5 * minute, vc_WaitPoisonPillTimeout = 30 * second,
       vc_DNSTTL = 5 * minute, vc_FailoverTimeout = 30 * second, vc_BusyTimeout = 5 * second,
       vc_Port = 6379, vc_WaitPromoteTimeout = 5 * minute, vc_WaitReplicationTimeout = 15 * minute,
       vc_WaitCatchupTimeout = 10 * minute, vc_DialTimeout = 5 * second,
       vc_WaitPromoteForceTimeout = 10 * second, vc_WriteTimeout = 5 * second,
       vc_StaleReplicaLagClose = 90 * second, vc_StaleReplicaLagOpen = 10 * second,
       vc_DestructiveReplicationRepairTimeout = 30 * minute, vc_FailoverCooldown = 30 * minute,
       vc_SwitchoverTimeout = 10 * minute, vc_MaxParallelSyncs = 1, vc_ClusterBusPort = 16379,
       vc_ReservedConnections = 10, vc_TurnBeforeSwitchover = False, vc_AllowDataLoss = False,
       vc_UseTLS = False \<rparr>"

text \<open>
  The run id is the SHA-384 digest of the host name in hex, cut to 40 characters; the digest's hex
  text is the argument \<open>sha384hex\<close>.
\<close>
definition makeFakeRunID :: "(string \<Rightarrow> string) \<Rightarrow> string \<Rightarrow> string" where
  "makeFakeRunID sha384hex hostname = take 40 (sha384hex hostname)"

definition DefaultSentinelModeConfig :: "(string \<Rightarrow> string) \<Rightarrow> string \<Rightarrow> SentinelModeConfig" where
  "DefaultSentinelModeConfig sha384hex hostname =
     \<lparr> sc_Name = hostname, sc_RunID = makeFakeRunID sha384hex hostname,
       sc_ClusterName = ''test-cluster'', sc_CacheAuthUser = [], sc_CacheAuthPassword = [],
       sc_CacheRestartCommand = ''systemctl restart valkey-senticache'', sc_CacheUpdateSecret = [],
       sc_TLSCAPath = [], sc_CachePort = 26379, sc_AnnounceHostname = False, sc_UseTLS = False \<rparr>"

definition DefaultConfig :: "(string \<Rightarrow> string) \<Rightarrow> goerr + string \<Rightarrow> goerr + Config" where
  "DefaultConfig sha384hex osHostname =
     (case DefaultZookeeperConfig osHostname of Inl e \<Rightarrow> Inl e
      | Inr zkConfig \<Rightarrow> (case osHostname of Inl e \<Rightarrow> Inl e
      | Inr hostname \<Rightarrow> Inr
        \<lparr> c_InfoFile = ''/var/run/rdsync/rdsync.info'', c_Hostname = hostname, c_LogLevel = ''Info'',
       c_AofMode = ''Unspecified'', c_MaintenanceFile = ''/var/run/rdsync/rdsync.maintenance'',
       c_DaemonLockFile = ''/var/run/rdsync/rdsync.lock'', c_PprofAddr = [],
       c_EventTimingLogFile = [], c_Mode = ''Sentinel'',
       c_SentinelMode = DefaultSentinelModeConfig sha384hex hostname, c_Zookeeper = zkConfig,
       c_Valkey = DefaultValkeyConfig, c_LogPollInterval = 50 * millisecond,
       c_LogBufferSize = 10000, c_HealthCheckInterval = 5 * second,
       c_InfoFileHandlerInterval = 30 * second, c_InactivationDelay = 30 * second,
       c_DcsWaitTimeout = 10 * second, c_DcsReconnectTimeout = 2 * minute,
       c_TickInterval = 5 * second, c_PingStable = 3 \<rparr>))"

text \<open>
  \<open>ReadFromFile\<close>: the loader (confita) sets the fields the file has over the defaults; it is the argument \<open>load\<close>.
\<close>
definition ReadFromFile ::
  "(string \<Rightarrow> string) \<Rightarrow> goerr + string \<Rightarrow> (string \<Rightarrow> Config \<Rightarrow> goerr + Config) \<Rightarrow> string \<Rightarrow> goerr + Config" where
  "ReadFromFile sha384hex osHostname load configFile =
     (case DefaultConfig sha384hex osHostname of Inl e \<Rightarrow> Inl e
      | Inr conf \<Rightarrow> (case load configFile conf of
          Inl e \<Rightarrow> Inl (Text (''failed to load config from '' @ configFile) e)
        | Inr conf' \<Rightarrow> Inr conf'))"

end
