(* ===== verification/Types.thy ===== *)
theory Types
  imports Config
begin

text \<open>
  The data of internal/app/types.go, of internal/valkey/shard.go (the configuration of a node in
  the DCS) and of internal/dcs/dcs.go (the lock owner): enumerations with their parsers and
  printers, and the documents rdsync keeps in the DCS.
\<close>

section \<open>Enumerations\<close>

datatype appState = stateInit | stateManager | stateCandidate | stateLost | stateMaintenance

fun appState_String :: "appState \<Rightarrow> string" where
  "appState_String stateInit = ''Init''"
| "appState_String stateManager = ''Manager''"
| "appState_String stateCandidate = ''Candidate''"
| "appState_String stateLost = ''Lost''"
| "appState_String stateMaintenance = ''Maintenance''"

fun appMode_String :: "appMode \<Rightarrow> string" where
  "appMode_String modeSentinel = ''Sentinel''"
| "appMode_String modeCluster = ''Cluster''"

definition parseMode :: "string \<Rightarrow> goerr + appMode" where
  "parseMode mode =
     (if mode = ''Sentinel'' then Inr modeSentinel
      else if mode = ''Cluster'' then Inr modeCluster
      else Inl (Errorf (''unknown mode: '' @ mode)))"

fun aofMode_String :: "aofMode \<Rightarrow> string" where
  "aofMode_String modeUnspecified = ''Unspecified''"
| "aofMode_String modeOn = ''On''"
| "aofMode_String modeOff = ''Off''"
| "aofMode_String modeOnReplicas = ''OnReplicas''"

definition parseAofMode :: "string \<Rightarrow> goerr + aofMode" where
  "parseAofMode mode =
     (if mode = ''Unspecified'' then Inr modeUnspecified
      else if mode = ''On'' then Inr modeOn
      else if mode = ''Off'' then Inr modeOff
      else if mode = ''OnReplicas'' then Inr modeOnReplicas
      else Inl (Errorf (''unknown aof mode: '' @ mode)))"

lemma parseMode_String: "parseMode (appMode_String m) = Inr m"
  by (cases m) (simp_all add: parseMode_def)

lemma parseAofMode_String: "parseAofMode (aofMode_String m) = Inr m"
  by (cases m) (simp_all add: parseAofMode_def)

section \<open>DCS paths\<close>

definition pathManagerLock :: string where "pathManagerLock = ''manager''"
definition pathMasterNode :: string where "pathMasterNode = ''master''"
definition pathActiveNodes :: string where "pathActiveNodes = ''active_nodes''"
definition pathHealthPrefix :: string where "pathHealthPrefix = ''health''"
definition pathCurrentSwitch :: string where "pathCurrentSwitch = ''current_switch''"
definition pathLastSwitch :: string where "pathLastSwitch = ''last_switch''"
definition pathLastRejectedSwitch :: string where
  "pathLastRejectedSwitch = ''last_rejected_switch''"
definition pathMaintenance :: string where "pathMaintenance = ''maintenance''"
definition pathHANodes :: string where "pathHANodes = ''ha_nodes''"
definition pathPoisonPill :: string where "pathPoisonPill = ''poison_pill''"

lemmas path_defs = pathManagerLock_def pathMasterNode_def pathActiveNodes_def pathHealthPrefix_def
  pathCurrentSwitch_def pathLastSwitch_def pathLastRejectedSwitch_def pathMaintenance_def
  pathHANodes_def pathPoisonPill_def

section \<open>Host state\<close>

record ReplicaState =
  rs_MasterHost :: string
  rs_MasterLinkDownTime :: int
  rs_ReplicationOffset :: int
  rs_MasterLastIOSeconds :: int
  rs_MasterLinkState :: bool
  rs_MasterSyncInProgress :: bool

record SentiCacheState =
  ss_Name :: string
  ss_RunID :: string

record HostState =
  hs_CheckAt :: time
  hs_ReplicaState :: "ReplicaState option"
  hs_SentiCacheState :: "SentiCacheState option"
  hs_ReplicationID :: string
  hs_IP :: string
  hs_RunID :: string
  hs_Error :: string
  hs_ReplicationID2 :: string
  hs_CheckBy :: string
  hs_ConnectedReplicas :: "string list"
  hs_ReplicationBacklogStart :: int
  hs_SecondReplicationOffset :: int
  hs_MasterReplicationOffset :: int
  hs_ReplicationBacklogSize :: int
  hs_MinReplicasToWrite :: int
  hs_IsReplPaused :: bool
  hs_IsReadOnly :: bool
  hs_IsOffline :: bool
  hs_IsMaster :: bool
  hs_PingStable :: bool
  hs_PingOk :: bool

text \<open>The zero values of the Go structs.\<close>

definition zero_ReplicaState :: ReplicaState where
  "zero_ReplicaState = \<lparr> rs_MasterHost = [], rs_MasterLinkDownTime = 0, rs_ReplicationOffset = 0,
     rs_MasterLastIOSeconds = 0, rs_MasterLinkState = False, rs_MasterSyncInProgress = False \<rparr>"

definition zero_HostState :: HostState where
  "zero_HostState = \<lparr> hs_CheckAt = 0, hs_ReplicaState = None, hs_SentiCacheState = None,
     hs_ReplicationID = [], hs_IP = [], hs_RunID = [], hs_Error = [], hs_ReplicationID2 = [],
     hs_CheckBy = [], hs_ConnectedReplicas = [], hs_ReplicationBacklogStart = 0,
     hs_SecondReplicationOffset = 0, hs_MasterReplicationOffset = 0,
     hs_ReplicationBacklogSize = 0, hs_MinReplicasToWrite = 0, hs_IsReplPaused = False,
     hs_IsReadOnly = False, hs_IsOffline = False, hs_IsMaster = False, hs_PingStable = False,
     hs_PingOk = False \<rparr>"

definition ReplicaState_String :: "ReplicaState \<Rightarrow> string" where
  "ReplicaState_String rs = ''<'' @ rs_MasterHost rs @ '' ''
     @ (if rs_MasterLinkState rs then ''true'' else ''false'') @ '': ''
     @ itoa (rs_ReplicationOffset rs) @ ''>''"

definition SentiCacheState_String :: "SentiCacheState \<Rightarrow> string" where
  "SentiCacheState_String ss = ''<'' @ ss_Name ss @ '' '' @ ss_RunID ss @ ''>''"

definition HostState_String :: "HostState \<Rightarrow> string" where
  "HostState_String hs =
     (let ping = (if hs_PingOk hs then ''ok'' else ''err'');
          (repl, offset) =
            (if hs_IsMaster hs then (''master'', hs_MasterReplicationOffset hs)
             else case hs_ReplicaState hs of
                    Some rs \<Rightarrow> (if rs_MasterLinkState rs then ''ok'' else ''err'',
                                rs_ReplicationOffset rs)
                  | None \<Rightarrow> (''???'', 0))
      in ''<ping='' @ ping @ '' repl='' @ repl @ '' offset='' @ itoa offset @ ''>'')"

section \<open>Switchover, maintenance, poison pill\<close>

definition CauseManual :: string where "CauseManual = ''manual''"
definition CauseWorker :: string where "CauseWorker = ''worker''"
definition CauseAuto :: string where "CauseAuto = ''auto''"

record SwitchoverResult =
  sr_FinishedAt :: time
  sr_Error :: string
  sr_Ok :: bool

record SwitchoverProgress =
  sp_NewMaster :: string
  sp_MostRecent :: string
  sp_Version :: int
  sp_Phase :: int

record Switchover =
  sw_InitiatedAt :: time
  sw_StartedAt :: time
  sw_Result :: "SwitchoverResult option"
  sw_Progress :: "SwitchoverProgress option"
  sw_From :: string
  sw_To :: string
  sw_Cause :: string
  sw_InitiatedBy :: string
  sw_StartedBy :: string
  sw_RunCount :: int

definition zero_Switchover :: Switchover where
  "zero_Switchover = \<lparr> sw_InitiatedAt = 0, sw_StartedAt = 0, sw_Result = None,
     sw_Progress = None, sw_From = [], sw_To = [], sw_Cause = [], sw_InitiatedBy = [],
     sw_StartedBy = [], sw_RunCount = 0 \<rparr>"

record Maintenance =
  mt_InitiatedAt :: time
  mt_InitiatedBy :: string
  mt_RdSyncPaused :: bool
  mt_ShouldLeave :: bool

definition zero_Maintenance :: Maintenance where
  "zero_Maintenance = \<lparr> mt_InitiatedAt = 0, mt_InitiatedBy = [], mt_RdSyncPaused = False,
     mt_ShouldLeave = False \<rparr>"

record PoisonPill =
  pp_InitiatedAt :: time
  pp_InitiatedBy :: string
  pp_TargetHost :: string
  pp_Cause :: string
  pp_Applied :: bool

definition zero_PoisonPill :: PoisonPill where
  "zero_PoisonPill = \<lparr> pp_InitiatedAt = 0, pp_InitiatedBy = [], pp_TargetHost = [],
     pp_Cause = [], pp_Applied = False \<rparr>"

text \<open>The text of a time (Go's default layout) is the argument \<open>ftime\<close>.\<close>

definition Switchover_String :: "(time \<Rightarrow> string) \<Rightarrow> Switchover \<Rightarrow> string" where
  "Switchover_String ftime sw =
     (let state = (case sw_Result sw of
              Some r \<Rightarrow> if sr_Ok r then ''done'' else ''error''
            | None \<Rightarrow> if \<not> is_zero (sw_StartedAt sw) then ''running'' else ''scheduled'');
          swFrom = (if sw_From sw \<noteq> [] then sw_From sw else ''*'');
          swTo = (if sw_To sw \<noteq> [] then sw_To sw else ''*'')
      in ''<'' @ state @ '' '' @ swFrom @ ''=>'' @ swTo @ '' '' @ sw_Cause sw @ '' by ''
         @ sw_InitiatedBy sw @ '' at '' @ ftime (sw_InitiatedAt sw) @ ''>'')"

definition Maintenance_String :: "(time \<Rightarrow> string) \<Rightarrow> Maintenance \<Rightarrow> string" where
  "Maintenance_String ftime m =
     (let ms = (if mt_ShouldLeave m then ''leaving''
                else if mt_RdSyncPaused m then ''on'' else ''entering'')
      in ''<'' @ ms @ '' by '' @ mt_InitiatedBy m @ '' at '' @ ftime (mt_InitiatedAt m) @ ''>'')"

definition PoisonPill_String :: "(time \<Rightarrow> string) \<Rightarrow> PoisonPill \<Rightarrow> string" where
  "PoisonPill_String ftime pp =
     (let ms = (if pp_Applied pp then ''on'' else ''entering'')
      in ''<'' @ ms @ '' by '' @ pp_InitiatedBy pp @ '' for '' @ pp_TargetHost pp @ '' at ''
         @ ftime (pp_InitiatedAt pp) @ '': '' @ pp_Cause pp @ ''>'')"

section \<open>Documents of the DCS\<close>

record LockOwner =
  lo_Hostname :: string
  lo_Pid :: int

record NodeConfiguration =
  nc_Priority :: int

definition DefaultNodeConfiguration :: NodeConfiguration where
  "DefaultNodeConfiguration = \<lparr> nc_Priority = 100 \<rparr>"

text \<open>
  The content of a DCS node. The JSON text (encoding/json/v2) is not spelt out: a node holds a
  document of one of the kinds rdsync writes, JSON's null (which unmarshals into the zero value of
  any Go type), or bytes that do not parse (\<open>JBytes []\<close> is the empty node \<open>makePath\<close> creates). A
  document of another kind than the reader expects is unreadable to it.
\<close>

datatype doc =
    JNull
  | JBytes string
  | JString string
  | JStrings "string list"
  | JHost HostState
  | JSwitch Switchover
  | JMaint Maintenance
  | JPill PoisonPill
  | JOwner LockOwner
  | JNode NodeConfiguration

fun as_string :: "doc \<Rightarrow> string option" where
  "as_string JNull = Some []"
| "as_string (JString x) = Some x"
| "as_string _ = None"

fun as_strings :: "doc \<Rightarrow> string list option" where
  "as_strings JNull = Some []"
| "as_strings (JStrings x) = Some x"
| "as_strings _ = None"

fun as_host :: "doc \<Rightarrow> HostState option" where
  "as_host JNull = Some zero_HostState"
| "as_host (JHost x) = Some x"
| "as_host _ = None"

fun as_switch :: "doc \<Rightarrow> Switchover option" where
  "as_switch JNull = Some zero_Switchover"
| "as_switch (JSwitch x) = Some x"
| "as_switch _ = None"

fun as_maint :: "doc \<Rightarrow> Maintenance option" where
  "as_maint JNull = Some zero_Maintenance"
| "as_maint (JMaint x) = Some x"
| "as_maint _ = None"

fun as_pill :: "doc \<Rightarrow> PoisonPill option" where
  "as_pill JNull = Some zero_PoisonPill"
| "as_pill (JPill x) = Some x"
| "as_pill _ = None"

fun as_owner :: "doc \<Rightarrow> LockOwner option" where
  "as_owner JNull = Some \<lparr> lo_Hostname = [], lo_Pid = 0 \<rparr>"
| "as_owner (JOwner x) = Some x"
| "as_owner _ = None"

fun as_node :: "doc \<Rightarrow> NodeConfiguration option" where
  "as_node JNull = Some \<lparr> nc_Priority = 0 \<rparr>"
| "as_node (JNode x) = Some x"
| "as_node _ = None"

end
