(* ===== verification/World.thy ===== *)
theory World
  imports Types
begin

text \<open>
  The process and its surroundings. \<open>st\<close> is the memory of one rdsync process together with the
  history of its external actions, newest first. Everything outside the process (the clock, the
  valkey servers, ZooKeeper, DNS, files, sub-processes, the order in which Go visits a map or runs
  goroutines) is the argument \<open>env\<close>: each of its functions answers a request from the history so
  far, so a theorem for every \<open>env\<close> holds for every behaviour of the surroundings.

  The second half has the footprints: \<open>foot A m\<close> says what \<open>m\<close> can do at most: the actions outside the
  process are those the permit \<open>A\<close> allows, the state machine's own fields stay as they are, and \<open>m\<close>
  does not run out of fuel unless \<open>A\<close> allows waiting loops.
\<close>

section \<open>Requests, answers, history\<close>

text \<open>The valkey commands the sources send; one constructor per command.\<close>

datatype vcmd =
    Ping | Info
  | ConfigGet string
  | ConfigSet string string
  | ConfigRewrite
  | ClientKillType string
  | Replicaof string int
  | ReplicaofNoOne
  | ClusterMyid
  | ClusterNodes
  | ClusterReplicate string
  | ClusterFailoverForce
  | ClusterFailoverTakeover
  | ClusterMeet string int int
  | ScriptKill
  | SentinelMasters | SentinelSentinels | SentinelReplicas
  | SentinelCacheUpdate "string list"

text \<open>A \<open>ValkeyResult\<close>: an error, or a message of one of the shapes its accessors ask for.\<close>

datatype reply =
    RErr goerr
  | RStr string
  | RMap "(string \<times> string) list"
  | RArr "reply list"
  | ROther

datatype zkwrite =
    ZCreate string doc bool      \<comment> \<open>path, data, ephemeral\<close>
  | ZSet string doc int          \<comment> \<open>path, data, version\<close>
  | ZDelete string int           \<comment> \<open>path, version\<close>

text \<open>Events of the ZooKeeper session, and the expiry of the close timer.\<close>
datatype session_event = HasSession | NoSession | TimerFired

datatype file_op =
    WriteFile string | RemoveFile string | RemoveAll string
  | OpenLog string | CloseLog string | LockFile string | UnlockFile string

text \<open>
  \<open>tls.Config\<close>: the server name to verify, the pool of trusted certificates (the texts they were read from;
  None stands for nil, the pool of the system) and the certificates to present.
\<close>
record tls_config =
  tl_ServerName :: string
  tl_RootCAs :: "string list option"
  tl_Certificates :: "string list"

text \<open>The fields of \<open>client.ClientOption\<close> the sources compute; the others are constants.\<close>
record client_opts =
  co_InitAddress :: string
  co_Username :: string
  co_Password :: string
  co_DialTimeout :: duration
  co_ConnWriteTimeout :: duration
  co_TLSConfig :: "tls_config option"

text \<open>How \<open>zk.Connect\<close> dials: the library's way, or \<open>tls.DialWithDialer\<close> with a pointer to a configuration.\<close>
datatype zk_dialer = PlainDialer | TLSDialer "tls_config option"

datatype event =
    EvNow time
  | EvSleep duration
  | EvOrder "string list"
  | EvDial client_opts "goerr option"
  | EvCmd string vcmd reply
  | EvSentiDial client_opts "goerr option"
  | EvSenti string vcmd reply
  | EvReadFile string
  | EvLookup string
  | EvSession "session_event list"
  | EvZkConnect zk_dialer "goerr option"
  | EvTcp string "goerr option"
  | EvRand nat
  | EvZkRead string
  | EvZkWrite zkwrite "goerr option"
  | EvZkClose
  | EvExec "string list" "goerr option"
  | EvFile file_op "goerr option"
  | EvStat string
  | EvTiming string duration
  | EvPrint string
  | EvInput

type_synonym history = "event list"

record env =
  e_now :: "history \<Rightarrow> time"
  e_order :: "history \<Rightarrow> string list \<Rightarrow> string list"
  e_dial :: "history \<Rightarrow> client_opts \<Rightarrow> goerr option"
  e_cmd :: "history \<Rightarrow> string \<Rightarrow> vcmd \<Rightarrow> reply"
  e_senti_dial :: "history \<Rightarrow> client_opts \<Rightarrow> goerr option"
  e_senti :: "history \<Rightarrow> string \<Rightarrow> vcmd \<Rightarrow> reply"
  e_readfile :: "history \<Rightarrow> string \<Rightarrow> goerr + string"
  e_pem :: "string \<Rightarrow> bool"   \<comment> \<open>\<open>AppendCertsFromPEM\<close> finds a certificate in the text\<close>
  e_keypair :: "history \<Rightarrow> string \<Rightarrow> string \<Rightarrow> goerr + string"   \<comment> \<open>\<open>tls.LoadX509KeyPair\<close>\<close>
  e_lookup :: "history \<Rightarrow> string \<Rightarrow> goerr + string list"
  e_parse_ip :: "string \<Rightarrow> string option"
  e_session :: "history \<Rightarrow> session_event list"
  e_backoff :: "history \<Rightarrow> bool"
  e_done :: "history \<Rightarrow> time \<Rightarrow> bool"
  e_rand :: "history \<Rightarrow> nat \<Rightarrow> nat"
  e_tcp :: "history \<Rightarrow> string \<Rightarrow> goerr option"
  e_zk_connect :: "history \<Rightarrow> zk_dialer \<Rightarrow> goerr option"
  e_zk_auth :: "history \<Rightarrow> goerr option"
  e_zk_get :: "history \<Rightarrow> string \<Rightarrow> goerr + (doc \<times> int \<times> bool)"
  e_zk_children :: "history \<Rightarrow> string \<Rightarrow> goerr + string list"
  e_zk_write :: "history \<Rightarrow> zkwrite \<Rightarrow> goerr option"
  e_exec :: "history \<Rightarrow> string list \<Rightarrow> goerr option"
  e_file :: "history \<Rightarrow> file_op \<Rightarrow> goerr option"
  e_stat :: "history \<Rightarrow> string \<Rightarrow> bool"
  e_input :: "history \<Rightarrow> goerr + string"
  e_pid :: int
  e_fuel :: nat

section \<open>The state of the process\<close>

text \<open>
  \<open>Node\<close> of internal/valkey/node.go. Nodes are shared by pointer (\<open>shard.nodes\<close> and \<open>shard.local\<close>
  may name the same node, and stop doing so when the local host leaves and joins the shard), so
  they live in a store. A pointer is the node's fqdn, which never changes, and an allocation number.
\<close>

record node =
  n_conn :: bool
  n_ipsTime :: time
  n_ips :: "string list"
  n_cachedInfo :: "(string \<times> string) list"
  n_clusterID :: string
  n_infoResults :: "bool list"
  n_opts :: client_opts

type_synonym node_ptr = "string \<times> nat"

text \<open>\<open>SentiCacheNode\<close> of internal/valkey/senticache.go.\<close>
record senti_node =
  scn_conn :: bool
  scn_broken :: bool
  scn_opts :: client_opts

datatype timer = NoTimer | Armed | Fired

text \<open>The fields of \<open>zkDCS\<close> that change.\<close>
record zk_state =
  z_isConnected :: bool
  z_closeTimer :: timer
  z_lockHeld :: "string \<rightharpoonup> time"
  z_callback :: bool   \<comment> \<open>\<open>SetDisconnectCallback\<close> installed \<open>handleCritical\<close>\<close>

record st =
  dcsDivergeTime :: time
  replFailTime :: time
  lostSince :: time
  critical :: bool
  splitTime :: "string \<rightharpoonup> time"
  nodeFailTime :: "string \<rightharpoonup> time"
  app_state :: appState
  shard_nodes :: "(string \<times> nat) list"
  shard_local :: "nat option"
  heap :: "node_ptr \<rightharpoonup> node"
  next_ptr :: nat
  zk :: zk_state
  cache :: senti_node
  timings :: "bool option"   \<comment> \<open>nil, or whether the reporter writes to its file\<close>
  hist :: history

type_synonym 'a M = "(st, 'a) comp"

text \<open>Reading a Go map of times gives the zero time for a missing key.\<close>
definition time_of :: "(string \<rightharpoonup> time) \<Rightarrow> string \<Rightarrow> time" where
  "time_of m h = (case m h of None \<Rightarrow> 0 | Some t \<Rightarrow> t)"

section \<open>External actions\<close>

definition record_event :: "event \<Rightarrow> unit M" where
  "record_event e = modify (\<lambda>s. s\<lparr>hist := e # hist s\<rparr>)"

text \<open>\<open>time.Now()\<close>\<close>
definition now :: "env \<Rightarrow> time M" where
  "now E = perform (gets (\<lambda>s. e_now E (hist s))) (\<lambda>t. andThen (record_event (EvNow t)) (ret t))"

text \<open>\<open>time.Since(t)\<close>\<close>
definition time_since :: "env \<Rightarrow> time \<Rightarrow> duration M" where
  "time_since E t = perform (now E) (\<lambda>n. ret (since n t))"

definition sleep :: "duration \<Rightarrow> unit M" where
  "sleep d = record_event (EvSleep d)"

text \<open>
  The order in which Go visits the keys of a map, or the goroutines of a parallel call take
  effect: any arrangement of the keys.
\<close>
definition any_order :: "env \<Rightarrow> string list \<Rightarrow> string list M" where
  "any_order E ks =
     perform (gets (\<lambda>s. e_order E (hist s) ks)) (\<lambda>p.
       let q = (if distinct p \<and> set p = set ks \<and> distinct ks then p else ks)
       in andThen (record_event (EvOrder q)) (ret q))"

text \<open>\<open>client.NewClient\<close> connects.\<close>
definition dial :: "env \<Rightarrow> client_opts \<Rightarrow> goerr option M" where
  "dial E opts = perform (gets (\<lambda>s. e_dial E (hist s) opts)) (\<lambda>r.
     andThen (record_event (EvDial opts r)) (ret r))"

definition do_cmd :: "env \<Rightarrow> string \<Rightarrow> vcmd \<Rightarrow> reply M" where
  "do_cmd E h c = perform (gets (\<lambda>s. e_cmd E (hist s) h c)) (\<lambda>r.
     andThen (record_event (EvCmd h c r)) (ret r))"

definition senti_dial :: "env \<Rightarrow> client_opts \<Rightarrow> goerr option M" where
  "senti_dial E opts = perform (gets (\<lambda>s. e_senti_dial E (hist s) opts)) (\<lambda>r.
     andThen (record_event (EvSentiDial opts r)) (ret r))"

definition senti_cmd :: "env \<Rightarrow> string \<Rightarrow> vcmd \<Rightarrow> reply M" where
  "senti_cmd E h c = perform (gets (\<lambda>s. e_senti E (hist s) h c)) (\<lambda>r.
     andThen (record_event (EvSenti h c r)) (ret r))"

text \<open>\<open>os.ReadFile\<close>, and \<open>tls.LoadX509KeyPair\<close> with the certificate that the two files hold.\<close>
definition read_file :: "env \<Rightarrow> string \<Rightarrow> (goerr + string) M" where
  "read_file E p = perform (gets (\<lambda>s. e_readfile E (hist s) p)) (\<lambda>r.
     andThen (record_event (EvReadFile p)) (ret r))"

definition load_key_pair :: "env \<Rightarrow> string \<Rightarrow> string \<Rightarrow> (goerr + string) M" where
  "load_key_pair E certFile keyFile = perform (gets (\<lambda>s. e_keypair E (hist s) certFile keyFile)) (\<lambda>r.
     andThen (record_event (EvReadFile certFile)) (andThen (record_event (EvReadFile keyFile)) (ret r)))"

definition lookup_ip :: "env \<Rightarrow> string \<Rightarrow> (goerr + string list) M" where
  "lookup_ip E h = perform (gets (\<lambda>s. e_lookup E (hist s) h)) (\<lambda>r.
     andThen (record_event (EvLookup h)) (ret r))"

definition zk_read_node :: "env \<Rightarrow> string \<Rightarrow> (goerr + (doc \<times> int \<times> bool)) M" where
  "zk_read_node E p = perform (gets (\<lambda>s. e_zk_get E (hist s) p)) (\<lambda>r.
     andThen (record_event (EvZkRead p)) (ret r))"

definition zk_read_children :: "env \<Rightarrow> string \<Rightarrow> (goerr + string list) M" where
  "zk_read_children E p = perform (gets (\<lambda>s. e_zk_children E (hist s) p)) (\<lambda>r.
     andThen (record_event (EvZkRead p)) (ret r))"

definition zk_write :: "env \<Rightarrow> zkwrite \<Rightarrow> (goerr + unit) M" where
  "zk_write E w = perform (gets (\<lambda>s. e_zk_write E (hist s) w)) (\<lambda>r.
     andThen (record_event (EvZkWrite w r))
       (ret (case r of None \<Rightarrow> Inr () | Some e \<Rightarrow> Inl e)))"

definition exec_command :: "env \<Rightarrow> string list \<Rightarrow> goerr option M" where
  "exec_command E argv = perform (gets (\<lambda>s. e_exec E (hist s) argv)) (\<lambda>r.
     andThen (record_event (EvExec argv r)) (ret r))"

definition file_action :: "env \<Rightarrow> file_op \<Rightarrow> goerr option M" where
  "file_action E f = perform (gets (\<lambda>s. e_file E (hist s) f)) (\<lambda>r.
     andThen (record_event (EvFile f r)) (ret r))"

definition file_exists :: "env \<Rightarrow> string \<Rightarrow> bool M" where
  "file_exists E p = perform (gets (\<lambda>s. e_stat E (hist s) p)) (\<lambda>r.
     andThen (record_event (EvStat p)) (ret r))"

text \<open>One connection to a ZooKeeper server, tried and closed (\<open>net.DialTimeout\<close>).\<close>
definition tcp_check :: "env \<Rightarrow> string \<Rightarrow> goerr option M" where
  "tcp_check E h = perform (gets (\<lambda>s. e_tcp E (hist s) h)) (\<lambda>r.
     andThen (record_event (EvTcp h r)) (ret r))"

text \<open>\<open>zk.Connect\<close>\<close>
definition zk_connect :: "env \<Rightarrow> zk_dialer \<Rightarrow> goerr option M" where
  "zk_connect E d = perform (gets (\<lambda>s. e_zk_connect E (hist s) d)) (\<lambda>r.
     andThen (record_event (EvZkConnect d r)) (ret r))"

text \<open>\<open>rand.Intn(n)\<close>, which panics for \<open>n <= 0\<close>.\<close>
definition rand_intn :: "env \<Rightarrow> nat \<Rightarrow> nat M" where
  "rand_intn E n = (if n = 0 then halt (Panic ''invalid argument to Intn'')
     else perform (gets (\<lambda>s. e_rand E (hist s) n mod n)) (\<lambda>k.
       andThen (record_event (EvRand k)) (ret k)))"

text \<open>Printing to standard output.\<close>
definition print :: "string \<Rightarrow> unit M" where
  "print t = record_event (EvPrint t)"

text \<open>
  A loop \<open>for { select { case <-ticker.C: ... case <-ctx.Done(): ... } }\<close>. Each round waits for the
  ticker; the context is done when its deadline has passed or the process is asked to stop, and
  when both are ready Go takes either, so which case is taken is the environment's choice. The
  body ends the loop with \<open>Inr\<close>; the context ends it with \<open>timeout\<close> of the loop's state.
\<close>
definition tick_loop ::
  "env \<Rightarrow> duration \<Rightarrow> time \<Rightarrow> ('x \<Rightarrow> ('x + 'r) M) \<Rightarrow> ('x \<Rightarrow> 'r) \<Rightarrow> 'x \<Rightarrow> 'r M" where
  "tick_loop E period deadline body timeout x =
     iterate (e_fuel E) (\<lambda>y. andThen (sleep period)
       (perform (gets (\<lambda>s. e_done E (hist s) deadline)) (\<lambda>done.
         if done then ret (Inr (timeout y)) else body y))) x"

text \<open>
  \<open>exec.CommandContext(ctx, split[0], split[1:]...)\<close> of the fields of a command line; an empty
  command line panics with an index out of range.
\<close>
definition run_command_line :: "env \<Rightarrow> string \<Rightarrow> goerr option M" where
  "run_command_line E line = (case str_fields line of
      [] \<Rightarrow> halt (Panic ''index out of range'')
    | argv \<Rightarrow> exec_command E argv)"

lemmas action_defs = now_def time_since_def sleep_def any_order_def dial_def
  do_cmd_def senti_dial_def senti_cmd_def read_file_def load_key_pair_def lookup_ip_def zk_read_node_def zk_read_children_def
  zk_write_def exec_command_def file_action_def file_exists_def run_command_line_def
  tcp_check_def zk_connect_def rand_intn_def print_def

section \<open>Footprints\<close>

fun read_only_cmd :: "vcmd \<Rightarrow> bool" where
  "read_only_cmd Ping = True"
| "read_only_cmd Info = True"
| "read_only_cmd (ConfigGet k) = True"
| "read_only_cmd ClusterMyid = True"
| "read_only_cmd ClusterNodes = True"
| "read_only_cmd SentinelMasters = True"
| "read_only_cmd SentinelSentinels = True"
| "read_only_cmd SentinelReplicas = True"
| "read_only_cmd _ = False"

text \<open>Events that change nothing outside the process.\<close>
fun quiet :: "event \<Rightarrow> bool" where
  "quiet (EvCmd h c r) = read_only_cmd c"
| "quiet (EvSenti h c r) = read_only_cmd c"
| "quiet (EvZkWrite w r) = False"
| "quiet (EvExec a r) = False"
| "quiet (EvFile f r) = False"
| "quiet _ = True"

definition extends_by :: "(event \<Rightarrow> bool) \<Rightarrow> history \<Rightarrow> history \<Rightarrow> bool" where
  "extends_by A h h' \<longleftrightarrow> (\<exists>new. h' = new @ h \<and> (\<forall>e \<in> set new. quiet e \<or> A e))"

text \<open>
  What a computation may do: the actions that change something outside, whether it may change the
  critical flag, whether it may run out of fuel, whether it may replace the client of the store, and for
  which own host names it may change the set of hosts.
\<close>
record permit =
  p_ev :: "event \<Rightarrow> bool"
  p_crit :: bool
  p_spin :: bool
  p_link :: bool
  p_hosts :: "string \<Rightarrow> bool"

definition nothing :: permit where
  "nothing = \<lparr> p_ev = (\<lambda>e. False), p_crit = False, p_spin = False, p_link = False, p_hosts = (\<lambda>h. False) \<rparr>"

text \<open>
  \<open>linked\<close>: the process is in its critical section, with a session and the callback that ends the
  process when the session is lost. A computation that returns from such a state is still in one.
\<close>
definition linked :: "st \<Rightarrow> bool" where
  "linked s \<longleftrightarrow> critical s \<and> z_callback (zk s) \<and> z_isConnected (zk s)"

definition returns :: "'a outcome \<Rightarrow> bool" where
  "returns r = (case r of Ok x \<Rightarrow> True | Halt h \<Rightarrow> False)"

text \<open>Nothing but a session that is established happened to the session.\<close>
fun undisturbed :: "event \<Rightarrow> bool" where
  "undisturbed (EvSession evs) = list_all (\<lambda>e. e = HasSession) evs"
| "undisturbed e = True"

definition in_session :: "history \<Rightarrow> bool" where
  "in_session h \<longleftrightarrow> list_all undisturbed h"

lemma in_session_append [simp]: "in_session (h @ h') \<longleftrightarrow> in_session h \<and> in_session h'"
  by (simp add: in_session_def)

lemma in_sessionD: "in_session h \<Longrightarrow> EvSession evs \<in> set h \<Longrightarrow> set evs \<subseteq> {HasSession}"
  by (force simp: in_session_def list_all_iff)

text \<open>A process with a session keeps it while nothing else happens to it.\<close>
definition keeps_session :: "st \<Rightarrow> st \<Rightarrow> bool" where
  "keeps_session s s' \<longleftrightarrow> (\<forall>new. hist s' = new @ hist s \<longrightarrow> in_session new \<longrightarrow>
     z_isConnected (zk s) \<longrightarrow> z_isConnected (zk s'))"

text \<open>
  The table of hosts of a process on the host \<open>h\<close>: one node for each host, every pointer (also that of the local node) to an
  allocated node, no two hosts with the same node, and the next pointer is free.
\<close>
definition shard_ok :: "string \<Rightarrow> st \<Rightarrow> bool" where
  "shard_ok h s \<longleftrightarrow> distinct (map fst (shard_nodes s)) \<and> set (shard_nodes s) \<subseteq> dom (heap s) \<and>
     (\<forall>n. shard_local s = Some n \<longrightarrow> (h, n) \<in> dom (heap s)) \<and>
     (\<forall>q \<in> dom (heap s). snd q < next_ptr s) \<and> inj_on snd (dom (heap s))"

definition keeps_hosts :: "permit \<Rightarrow> st \<Rightarrow> st \<Rightarrow> bool" where
  "keeps_hosts A s s' \<longleftrightarrow>
     (\<forall>h. (\<forall>h'. p_hosts A h' \<longrightarrow> h' = h) \<longrightarrow> shard_ok h s \<longrightarrow> shard_ok h s') \<and>
     ((\<forall>h. \<not> p_hosts A h) \<longrightarrow> shard_nodes s' = shard_nodes s \<and> shard_local s' = shard_local s)"

text \<open>The two states have the same hosts and the same allocated nodes.\<close>
definition same_hosts :: "st \<Rightarrow> st \<Rightarrow> bool" where
  "same_hosts s s' \<longleftrightarrow> shard_nodes s' = shard_nodes s \<and> shard_local s' = shard_local s \<and>
     dom (heap s') = dom (heap s) \<and> next_ptr s' = next_ptr s"

lemma same_hosts_keeps: "same_hosts s s' \<Longrightarrow> keeps_hosts A s s'"
  by (simp add: same_hosts_def keeps_hosts_def shard_ok_def)

lemma keeps_hosts_link [simp]: "keeps_hosts (A\<lparr>p_link := b\<rparr>) = keeps_hosts A"
  by (simp add: keeps_hosts_def fun_eq_iff)

lemma same_hosts_refl [simp]: "same_hosts s s"
  by (simp add: same_hosts_def)

definition frame :: "permit \<Rightarrow> st \<Rightarrow> 'a outcome \<Rightarrow> st \<Rightarrow> bool" where
  "frame A s r s' \<longleftrightarrow> extends_by (p_ev A) (hist s) (hist s') \<and>
     lostSince s' = lostSince s \<and> app_state s' = app_state s \<and>
     (p_crit A \<or> critical s' = critical s \<and> (linked s \<longrightarrow> returns r \<longrightarrow> linked s')) \<and>
     (p_spin A \<or> r \<noteq> Halt OutOfFuel) \<and> (p_link A \<or> keeps_session s s') \<and> keeps_hosts A s s'"

definition foot :: "permit \<Rightarrow> 'a M \<Rightarrow> bool" where
  "foot A m \<longleftrightarrow> (\<forall>s. frame A s (fst (m s)) (snd (m s)))"

named_theorems foot_intros "footprint rules"
named_theorems foot_first "footprint rules to be tried first"

lemma extends_by_refl [simp]: "extends_by A h h"
  by (simp add: extends_by_def)

lemma extends_by_trans: "extends_by A h h' \<Longrightarrow> extends_by A h' h'' \<Longrightarrow> extends_by A h h''"
  by (force simp: extends_by_def)

lemma extends_by_mono: "extends_by A h h' \<Longrightarrow> (\<And>e. A e \<Longrightarrow> B e) \<Longrightarrow> extends_by B h h'"
  by (force simp: extends_by_def)

lemma footD: "foot A m \<Longrightarrow> m s = (r, s') \<Longrightarrow> frame A s r s'"
  unfolding foot_def by (metis fst_conv snd_conv)

lemma footI: "(\<And>s r s'. m s = (r, s') \<Longrightarrow> frame A s r s') \<Longrightarrow> foot A m"
  unfolding foot_def by (metis prod.collapse)

lemma frame_mono:
  assumes "frame A s r s'" and "\<And>e. p_ev A e \<Longrightarrow> p_ev B e" and "p_crit A \<Longrightarrow> p_crit B"
    and "p_spin A \<Longrightarrow> p_spin B" and "p_link A \<Longrightarrow> p_link B" and "\<And>h. p_hosts A h \<Longrightarrow> p_hosts B h"
  shows "frame B s r s'"
proof -
  have "keeps_hosts A s s' \<Longrightarrow> keeps_hosts B s s'"
    unfolding keeps_hosts_def using assms(6) by blast
  with assms show ?thesis unfolding frame_def by (metis extends_by_mono)
qed

lemma foot_mono:
  assumes "foot A m" and "\<And>e. p_ev A e \<Longrightarrow> p_ev B e" and "p_crit A \<Longrightarrow> p_crit B" and "p_spin A \<Longrightarrow> p_spin B"
    and "p_link A \<Longrightarrow> p_link B" and "\<And>h. p_hosts A h \<Longrightarrow> p_hosts B h"
  shows "foot B m"
  using assms frame_mono unfolding foot_def by metis

lemma foot_nothing: "foot nothing m \<Longrightarrow> foot A m"
  by (erule foot_mono) (simp_all add: nothing_def)

lemma foot_hist: "foot A m \<Longrightarrow> m s = (r, s') \<Longrightarrow> extends_by (p_ev A) (hist s) (hist s')"
  by (drule (1) footD) (simp add: frame_def)

lemma foot_frame:
  assumes "foot A m" and "m s = (r, s')"
  shows "lostSince s' = lostSince s" and "app_state s' = app_state s"
    and "\<not> p_crit A \<Longrightarrow> critical s' = critical s" and "\<not> p_spin A \<Longrightarrow> r \<noteq> Halt OutOfFuel"
  using footD [OF assms] by (simp_all add: frame_def)

lemma keeps_session_refl [simp]: "hist s' = hist s \<Longrightarrow> zk s' = zk s \<Longrightarrow> keeps_session s s'"
  by (simp add: keeps_session_def)

lemma keeps_session_trans:
  assumes "extends_by P (hist s) (hist t)" "extends_by P (hist t) (hist s')"
    and "keeps_session s t" "keeps_session t s'"
  shows "keeps_session s s'"
proof -
  obtain new1 new2 where new: "hist t = new1 @ hist s" "hist s' = new2 @ new1 @ hist s"
    using assms(1,2) by (auto simp: extends_by_def)
  with assms(3,4) show ?thesis by (simp add: keeps_session_def)
qed

lemma keeps_hosts_trans: "keeps_hosts A s t \<Longrightarrow> keeps_hosts A t s' \<Longrightarrow> keeps_hosts A s s'"
  unfolding keeps_hosts_def by auto

lemma keeps_hosts_refl [simp]: "keeps_hosts A s s"
  by (simp add: keeps_hosts_def)

lemma frame_trans:
  "frame A s (Ok x) t \<Longrightarrow> frame A t r s' \<Longrightarrow> frame A s r s'"
  by (auto simp: frame_def returns_def intro: extends_by_trans keeps_session_trans keeps_hosts_trans)

lemma frame_halt: "frame A s (Halt h) t \<Longrightarrow> frame A s (Halt h) t"
  by (simp add: frame_def returns_def)

lemma foot_perform [foot_intros]:
  assumes "foot A m" and "\<And>x. foot A (k x)"
  shows "foot A (perform m k)"
proof (rule footI)
  fix s r s'
  assume run: "perform m k s = (r, s')"
  obtain r0 t where ms: "m s = (r0, t)" by (cases "m s")
  note f = footD [OF assms(1) ms]
  show "frame A s r s'"
  proof (cases r0)
    case (Ok x)
    with run ms have "k x t = (r, s')" by (simp add: perform_def)
    from frame_trans [OF f [unfolded Ok] footD [OF assms(2) this]] show ?thesis .
  next
    case (Halt h)
    with run ms have "r = Halt h" "s' = t" by (simp_all add: perform_def)
    with f Halt show ?thesis by (simp add: frame_def returns_def)
  qed
qed

lemma frame_refl [simp]: "frame A s (Ok x) s"
  by (simp add: frame_def)

lemma foot_ret [foot_intros]: "foot A (ret x)"
  by (simp add: foot_def ret_def)

lemma foot_halt [foot_intros]: "h \<noteq> OutOfFuel \<or> p_spin A \<Longrightarrow> foot A (halt h)"
  by (auto simp: foot_def halt_def frame_def)

lemma foot_gets [foot_intros]: "foot A (gets f)"
  by (simp add: foot_def gets_def)

lemma foot_modify [foot_intros]:
  "(\<And>s. hist (f s) = hist s \<and> lostSince (f s) = lostSince s \<and> app_state (f s) = app_state s \<and>
     (p_crit A \<or> critical (f s) = critical s \<and> zk (f s) = zk s) \<and> (p_link A \<or> zk (f s) = zk s) \<and>
     same_hosts s (f s)) \<Longrightarrow> foot A (modify f)"
  by (auto simp: foot_def frame_def modify_def linked_def intro: same_hosts_keeps) (metis keeps_session_refl)

lemma foot_record: "quiet e \<or> p_ev A e \<Longrightarrow> foot A (record_event e)"
  by (auto simp: foot_def frame_def linked_def keeps_session_def record_event_def modify_def extends_by_def
      same_hosts_def intro: same_hosts_keeps)

lemma same_hosts_simps [simp]:
  "same_hosts s (s\<lparr>critical := b\<rparr>)" "same_hosts s (s\<lparr>zk := z\<rparr>)" "same_hosts s (s\<lparr>cache := c\<rparr>)"
  "same_hosts s (s\<lparr>timings := u\<rparr>)" "same_hosts s (s\<lparr>splitTime := m\<rparr>)" "same_hosts s (s\<lparr>nodeFailTime := m\<rparr>)"
  "same_hosts s (s\<lparr>dcsDivergeTime := t\<rparr>)" "same_hosts s (s\<lparr>replFailTime := t\<rparr>)" "same_hosts s (s\<lparr>hist := h\<rparr>)"
  "same_hosts s (s\<lparr>heap := (heap s)(r := map_option g (heap s r))\<rparr>)"
  by (auto simp: same_hosts_def dom_def)

lemma foot_andThen [foot_intros]: "foot A m \<Longrightarrow> foot A k \<Longrightarrow> foot A (andThen m k)"
  by (simp add: andThen_def foot_perform)

lemma foot_if [foot_intros]:
  "(b \<Longrightarrow> foot A m) \<Longrightarrow> (\<not> b \<Longrightarrow> foot A m') \<Longrightarrow> foot A (if b then m else m')"
  by simp

lemma foot_option [foot_intros]:
  "(p = None \<Longrightarrow> foot A m) \<Longrightarrow> (\<And>x. p = Some x \<Longrightarrow> foot A (k x)) \<Longrightarrow>
   foot A (case p of None \<Rightarrow> m | Some x \<Rightarrow> k x)"
  by (cases p) auto

lemma foot_sum [foot_intros]:
  "(\<And>e. r = Inl e \<Longrightarrow> foot A (l e)) \<Longrightarrow> (\<And>x. r = Inr x \<Longrightarrow> foot A (k x)) \<Longrightarrow>
   foot A (case r of Inl e \<Rightarrow> l e | Inr x \<Rightarrow> k x)"
  by (cases r) auto

lemma foot_prod [foot_intros]:
  "(\<And>x y. p = (x, y) \<Longrightarrow> foot A (k x y)) \<Longrightarrow> foot A (case p of (x, y) \<Rightarrow> k x y)"
  by (cases p) auto

lemma foot_list [foot_intros]:
  "foot A m \<Longrightarrow> (\<And>x xs. l = x # xs \<Longrightarrow> foot A (k x xs)) \<Longrightarrow>
   foot A (case l of [] \<Rightarrow> m | x # xs \<Rightarrow> k x xs)"
  by (cases l) auto

lemma foot_let [foot_intros]: "foot A (k v) \<Longrightarrow> foot A (let x = v in k x)"
  by simp

lemma foot_attempt [foot_intros]:
  "foot A m \<Longrightarrow> (\<And>x. foot A (k x)) \<Longrightarrow> foot A (attempt m k)"
  unfolding attempt_def by (intro foot_perform foot_sum foot_ret)

lemma foot_checked [foot_intros]: "foot A m \<Longrightarrow> foot A k \<Longrightarrow> foot A (checked m k)"
  unfolding checked_def by (intro foot_perform foot_option foot_ret)

lemma foot_attempt_err [foot_intros]:
  "foot A m \<Longrightarrow> (\<And>x. foot A (k x)) \<Longrightarrow> foot A (attempt_err m k)"
  unfolding attempt_err_def by (intro foot_perform foot_sum foot_ret)

lemma foot_checked_or [foot_intros]: "foot A m \<Longrightarrow> foot A k \<Longrightarrow> foot A (checked_or m k)"
  unfolding checked_or_def by (intro foot_perform foot_option foot_ret)

lemma foot_map_err [foot_intros]: "foot A m \<Longrightarrow> foot A (map_err f m)"
  unfolding map_err_def by (intro foot_perform foot_ret)

lemma foot_doWhen [foot_intros]: "(b \<Longrightarrow> foot A m) \<Longrightarrow> foot A (doWhen b m)"
  by (simp add: doWhen_def foot_ret)

lemma foot_deref [foot_intros]: "foot A (deref p)"
  unfolding deref_def by (intro foot_option foot_ret foot_halt) simp

lemma foot_each: "(\<And>x. x \<in> set xs \<Longrightarrow> foot A (f x)) \<Longrightarrow> foot A (each f xs)"
  by (induction xs) (auto intro!: foot_andThen foot_ret)

lemma foot_collect: "(\<And>x. x \<in> set xs \<Longrightarrow> foot A (f x)) \<Longrightarrow> foot A (collect f xs)"
  by (induction xs) (auto intro!: foot_perform foot_ret)

lemma foot_foldM: "(\<And>x a. x \<in> set xs \<Longrightarrow> foot A (f x a)) \<Longrightarrow> foot A (foldM f xs a)"
  by (induction xs arbitrary: a) (auto intro!: foot_perform foot_ret)

lemma foot_iterate: "p_spin A \<Longrightarrow> (\<And>x. foot A (body x)) \<Longrightarrow> foot A (iterate n body x)"
  by (induction n arbitrary: x) (auto intro!: foot_perform foot_sum foot_ret foot_halt)

lemma foot_checked_each: "(\<And>x. x \<in> set xs \<Longrightarrow> foot A (f x)) \<Longrightarrow> foot A (checked_each f xs)"
  by (induction xs) (auto intro!: foot_checked foot_ret)

lemma foot_attempt_each: "(\<And>x. x \<in> set xs \<Longrightarrow> foot A (f x)) \<Longrightarrow> foot A (attempt_each f xs)"
  by (induction xs) (auto intro!: foot_attempt foot_ret)

lemmas foot_loops [foot_intros] =
  foot_checked_each foot_attempt_each foot_each foot_collect foot_foldM foot_iterate

lemma foot_actions [foot_intros]:
  "foot A (now E)" "foot A (time_since E t)" "foot A (sleep d)" "foot A (any_order E ks)"
  "foot A (dial E o1)" "foot A (senti_dial E o1)" "foot A (read_file E q)" "foot A (load_key_pair E q q')" "foot A (lookup_ip E h)"
  "foot A (zk_read_node E p)" "foot A (zk_read_children E p)" "foot A (file_exists E q)"
  "foot A (tcp_check E h)" "foot A (zk_connect E dl)" "foot A (rand_intn E n)" "foot A (print q)"
  by (auto simp: action_defs Let_def intro!: foot_intros foot_record)

lemma foot_tick_loop [foot_intros]:
  "p_spin A \<Longrightarrow> (\<And>y. foot A (body y)) \<Longrightarrow> foot A (tick_loop E period deadline body timeout x)"
  unfolding tick_loop_def by (intro foot_intros)

lemma foot_do_cmd:
  "(\<And>r. read_only_cmd c \<or> p_ev A (EvCmd h c r)) \<Longrightarrow> foot A (do_cmd E h c)"
  unfolding do_cmd_def by (intro foot_intros foot_record) simp

lemma foot_senti_cmd [foot_intros]:
  "(\<And>r. read_only_cmd c \<or> p_ev A (EvSenti h c r)) \<Longrightarrow> foot A (senti_cmd E h c)"
  unfolding senti_cmd_def by (intro foot_intros foot_record) simp

lemma foot_zk_write [foot_intros]:
  "(\<And>r. p_ev A (EvZkWrite w r)) \<Longrightarrow> foot A (zk_write E w)"
  by (auto simp: zk_write_def intro!: foot_intros foot_record)

lemma foot_exec_command [foot_intros]:
  "(\<And>r. p_ev A (EvExec a r)) \<Longrightarrow> foot A (exec_command E a)"
  by (auto simp: exec_command_def intro!: foot_intros foot_record)

lemma foot_run_command_line [foot_intros]:
  "(\<And>r. p_ev A (EvExec (str_fields l) r)) \<Longrightarrow> foot A (run_command_line E l)"
  by (auto simp: run_command_line_def intro!: foot_intros split: list.splits)

lemma foot_file_action [foot_intros]:
  "(\<And>r. p_ev A (EvFile f r)) \<Longrightarrow> foot A (file_action E f)"
  by (auto simp: file_action_def intro!: foot_intros foot_record)

end
