(* ===== verification/Tls.thy ===== *)
theory Tls
  imports World
begin

text \<open>
  What a connection to a server is made with: the TLS configurations of internal/dcs/zk_tls.go and
  internal/valkey/tls.go. Reading files, parsing certificates and dialling are the environment's.
\<close>

section \<open>Addresses\<close>

text \<open>\<open>net.JoinHostPort\<close>\<close>
definition JoinHostPort :: "string \<Rightarrow> string \<Rightarrow> string" where
  "JoinHostPort host port =
     (if CHR '':'' \<in> set host then ''['' @ host @ '']:'' @ port else host @ '':'' @ port)"

definition localhost :: string where
  "localhost = ''127.0.0.1''"

definition zero_opts :: client_opts where
  "zero_opts = \<lparr> co_InitAddress = [], co_Username = [], co_Password = [], co_DialTimeout = 0,
     co_ConnWriteTimeout = 0, co_TLSConfig = None \<rparr>"

section \<open>TLS for ZooKeeper\<close>

text \<open>
  \<open>CreateTLSConfig\<close>: a pointer to a configuration. When the CA file holds no certificate the code
  returns the \<open>err\<close> of the reading before, which is nil, with a nil pointer.
\<close>
definition CreateTLSConfig :: "env \<Rightarrow> string \<Rightarrow> string \<Rightarrow> string \<Rightarrow> (goerr + tls_config option) M" where
  "CreateTLSConfig E rootCAFile certFile keyFile =
     attempt (read_file E rootCAFile) (\<lambda>rootCABytes.
       if \<not> e_pem E rootCABytes then ret (Inr None)
       else attempt (load_key_pair E certFile keyFile) (\<lambda>cert.
         ret (Inr (Some \<lparr> tl_ServerName = [], tl_RootCAs = Some [rootCABytes], tl_Certificates = [cert] \<rparr>))))"

definition GetTLSDialer :: "tls_config option \<Rightarrow> zk_dialer" where
  "GetTLSDialer tlsConfig = TLSDialer tlsConfig"

section \<open>TLS for valkey and the sentinel cache\<close>

definition getTLSConfig :: "env \<Rightarrow> Config \<Rightarrow> string \<Rightarrow> string \<Rightarrow> (goerr + tls_config) M" where
  "getTLSConfig E C CAPath host =
     (let c = \<lparr> tl_ServerName = (if host = localhost then c_Hostname C else []),
                tl_RootCAs = None, tl_Certificates = [] \<rparr> in
      if CAPath \<noteq> []
      then attempt (read_file E CAPath) (\<lambda>cert.
        if \<not> e_pem E cert
        then ret (Inl (Errorf (''unable to build cert pool from pem at '' @ CAPath)))
        else ret (Inr (c\<lparr>tl_RootCAs := Some [cert]\<rparr>)))
      else ret (Inr c))"

text \<open>The lines of both constructors that put the TLS configuration into the options.\<close>
definition with_tls :: "env \<Rightarrow> Config \<Rightarrow> bool \<Rightarrow> string \<Rightarrow> string \<Rightarrow> client_opts \<Rightarrow> (goerr + client_opts) M" where
  "with_tls E C use CAPath host opts =
     (if use then attempt (getTLSConfig E C CAPath host) (\<lambda>tlsConf. ret (Inr (opts\<lparr>co_TLSConfig := Some tlsConf\<rparr>)))
      else ret (Inr opts))"

lemma foot_tls [foot_intros]:
  "foot A (CreateTLSConfig E a b c)" "foot A (getTLSConfig E C p h)" "foot A (with_tls E C u p h opts)"
  unfolding CreateTLSConfig_def getTLSConfig_def with_tls_def Let_def by (intro foot_intros)+

end
