(* ===== verification/Zk.thy ===== *)
theory Zk
  imports Tls
begin

text \<open>
  The ZooKeeper-backed store: internal/dcs/dcs.go and internal/dcs/zk.go. Paths, retries, the
  session state machine with its close timer, the lock with its cache, and the operations of the
  \<open>DCS\<close> interface. The client library (connection, requests, events, the back-off policy) is the
  environment.
\<close>

section \<open>Paths\<close>

definition sep :: char where "sep = CHR ''/''"

text \<open>\<open>JoinPath\<close>\<close>
definition JoinPath :: "string list \<Rightarrow> string" where
  "JoinPath parts = str_join [sep] parts"

text \<open>
  \<open>buildFullPath\<close>: the loop over the byte slice, which moves every byte but a repeated separator to
  position \<open>j\<close> of the same slice, then the cut of one trailing separator.
\<close>
definition squeeze_step :: "string \<times> nat \<Rightarrow> nat \<Rightarrow> string \<times> nat" where
  "squeeze_step rj i = (let (res, j) = rj in
     if 0 < i \<and> res ! i = sep \<and> res ! (i - 1) = sep then (res, j)
     else (res[j := res ! i], Suc j))"

definition buildFullPath :: "string \<Rightarrow> string \<Rightarrow> string" where
  "buildFullPath ns path =
     (let res0 = JoinPath [ns, path];
          (res, j) = foldl squeeze_step (res0, 0) [0..<length res0];
          res = take j res
      in if res ! (j - 1) = sep then take (j - 1) res else take j res)"

text \<open>The prefixes of a path, shortest first: the loop of \<open>makePath\<close> over \<open>strings.Split\<close>.\<close>
fun path_prefixes :: "string \<Rightarrow> string list \<Rightarrow> string list" where
  "path_prefixes base [] = []"
| "path_prefixes base (part # parts) =
     (if part = [] then path_prefixes base parts
      else (let p = JoinPath [base, part] in p # path_prefixes p parts))"

section \<open>Session events\<close>

definition upd_zk :: "(zk_state \<Rightarrow> zk_state) \<Rightarrow> unit M" where
  "upd_zk f = modify (\<lambda>s. s\<lparr>zk := f (zk s)\<rparr>)"

text \<open>\<open>handleCritical\<close> of internal/app/critical.go, the disconnect callback of the application.\<close>
definition handleCritical :: "unit M" where
  "handleCritical = perform (gets critical) (\<lambda>c. if c then halt (ProcExit 1) else ret ())"

definition enterCritical :: "unit M" where
  "enterCritical = modify (\<lambda>s. s\<lparr>critical := True\<rparr>)"

definition exitCritical :: "unit M" where
  "exitCritical = modify (\<lambda>s. s\<lparr>critical := False\<rparr>)"

text \<open>
  \<open>handleSessionEvent\<close>, and the function of the close timer. The timer field stays set after the
  timer has fired, until a session is established again.
\<close>
fun handleSessionEvent :: "session_event \<Rightarrow> unit M" where
  "handleSessionEvent HasSession =
     upd_zk (\<lambda>z. z\<lparr>z_closeTimer := NoTimer, z_isConnected := True\<rparr>)"
| "handleSessionEvent NoSession =
     upd_zk (\<lambda>z. z\<lparr>z_lockHeld := Map.empty,
       z_closeTimer := (if z_closeTimer z = NoTimer then Armed else z_closeTimer z)\<rparr>)"
| "handleSessionEvent TimerFired =
     perform (gets zk) (\<lambda>z.
       if z_closeTimer z \<noteq> Armed then ret ()
       else if z_isConnected z
       then andThen (upd_zk (\<lambda>z. z\<lparr>z_closeTimer := Fired, z_isConnected := False\<rparr>))
              (doWhen (z_callback z) handleCritical)
       else upd_zk (\<lambda>z. z\<lparr>z_closeTimer := Fired\<rparr>))"

text \<open>
  \<open>handleEvents\<close> runs in its own goroutine; the events that have arrived are handled when the
  process next looks at the session, that is before every request and every look at
  \<open>isConnected\<close>.
\<close>
definition handleEvents :: "env \<Rightarrow> session_event list M" where
  "handleEvents E = perform (gets (\<lambda>s. e_session E (hist s))) (\<lambda>evs.
     andThen (record_event (EvSession evs)) (andThen (each handleSessionEvent evs) (ret evs)))"

definition IsConnected :: "env \<Rightarrow> bool M" where
  "IsConnected E = andThen (handleEvents E) (gets (\<lambda>s. z_isConnected (zk s)))"

text \<open>
  \<open>WaitConnected\<close>: the channel is closed by the first established session, even if the session is
  lost again before the waiting goroutine runs.
\<close>
definition WaitConnected :: "env \<Rightarrow> duration \<Rightarrow> bool M" where
  "WaitConnected E timeout = perform (IsConnected E) (\<lambda>c.
     if c then ret True
     else andThen (sleep timeout) (perform (handleEvents E) (\<lambda>evs. ret (HasSession \<in> set evs))))"

section \<open>Retries\<close>

text \<open>
  \<open>retryRequestInternal\<close>: the result of one attempt and whether it may be repeated (an error is
  made permanent unless it is a closed connection of a live session).
\<close>
definition retryRequestInternal :: "env \<Rightarrow> (goerr + 'r) M \<Rightarrow> ((goerr + 'r) \<times> bool) M" where
  "retryRequestInternal E code = perform code (\<lambda>r. case r of
       Inr x \<Rightarrow> ret (Inr x, False)
     | Inl e \<Rightarrow> if \<not> err_is e ZkConnectionClosed then ret (Inl e, False)
              else perform (IsConnected E) (\<lambda>c. ret (Inl e, c)))"

text \<open>
  \<open>retry\<close>: backoff.Retry repeats the operation while it fails with an error that is not
  permanent and the policy grants another attempt, at most \<open>BackoffMaxRetries\<close> times; whether the
  elapsed-time limit stops it earlier is the environment's choice.
\<close>
primrec retry :: "env \<Rightarrow> nat \<Rightarrow> ((goerr + 'r) \<times> bool) M \<Rightarrow> (goerr + 'r) M" where
  "retry E 0 operation = perform operation (\<lambda>(r, again). ret r)"
| "retry E (Suc n) operation = perform operation (\<lambda>(r, again).
     if again then perform (gets (\<lambda>s. e_backoff E (hist s))) (\<lambda>more.
       if more then retry E n operation else ret r)
     else ret r)"

definition retryRequest :: "env \<Rightarrow> Config \<Rightarrow> (goerr + 'r) M \<Rightarrow> (goerr + 'r) M" where
  "retryRequest E C code =
     retry E (zc_BackoffMaxRetries (c_Zookeeper C)) (retryRequestInternal E (andThen (handleEvents E) code))"

definition retryChildren :: "env \<Rightarrow> Config \<Rightarrow> string \<Rightarrow> (goerr + string list) M" where
  "retryChildren E C path = retryRequest E C (zk_read_children E path)"

definition retryGet :: "env \<Rightarrow> Config \<Rightarrow> string \<Rightarrow> (goerr + (doc \<times> int \<times> bool)) M" where
  "retryGet E C path = retryRequest E C (zk_read_node E path)"

definition retrySet :: "env \<Rightarrow> Config \<Rightarrow> string \<Rightarrow> doc \<Rightarrow> int \<Rightarrow> (goerr + unit) M" where
  "retrySet E C path data version = retryRequest E C (zk_write E (ZSet path data version))"

definition retryCreate :: "env \<Rightarrow> Config \<Rightarrow> string \<Rightarrow> doc \<Rightarrow> bool \<Rightarrow> (goerr + unit) M" where
  "retryCreate E C path data ephemeral = retryRequest E C (zk_write E (ZCreate path data ephemeral))"

definition retryDelete :: "env \<Rightarrow> Config \<Rightarrow> string \<Rightarrow> int \<Rightarrow> (goerr + unit) M" where
  "retryDelete E C path version = retryRequest E C (zk_write E (ZDelete path version))"

section \<open>Connecting\<close>

definition connect_once :: "env \<Rightarrow> zk_dialer \<Rightarrow> ((goerr + unit) \<times> bool) M" where
  "connect_once E dialer = perform (zk_connect E dialer) (\<lambda>r. ret (case r of
     None \<Rightarrow> (Inr (), False) | Some e \<Rightarrow> (Inl e, True)))"

definition fresh_zk :: zk_state where
  "fresh_zk = \<lparr> z_isConnected = False, z_closeTimer = NoTimer, z_lockHeld = Map.empty,
     z_callback = False \<rparr>"

text \<open>
  \<open>NewZookeeper\<close>: the checks of the configuration, the connection with its retries, the
  credentials. It builds a new client, which the caller makes the current one.
\<close>
definition NewZookeeper :: "env \<Rightarrow> Config \<Rightarrow> (goerr + zk_state) M" where
  "NewZookeeper E C = (let Z = c_Zookeeper C in
     if zc_Hosts Z = []
     then ret (Inl (Errorf ''zookeeper not configured, fill zookeeper/hosts in config''))
     else if zc_Namespace Z = []
     then ret (Inl (Errorf ''zookeeper not configured, fill zookeeper/namespace in config''))
     else if \<not> HasPrefix (zc_Namespace Z) [sep]
     then ret (Inl (Errorf ''zookeeper namespace should start with /''))
     else if zc_SessionTimeout Z = 0
     then ret (Inl (Errorf ''namespace session timeout not configured''))
     else if zc_UseSSL Z \<and> (zc_CACert Z = [] \<or> zc_KeyFile Z = [] \<or> zc_CertFile Z = [])
     then ret (Inl (Errorf ''zookeeper ssl not configured, fill ca_cert/key_file/cert_file in config or disable use_ssl flag''))
     else attempt (if \<not> zc_UseSSL Z then ret (Inr PlainDialer)
         else attempt (CreateTLSConfig E (zc_CACert Z) (zc_CertFile Z) (zc_KeyFile Z)) (\<lambda>tlsConfig.
           ret (Inr (GetTLSDialer tlsConfig))))
       (\<lambda>dialer. attempt (retry E (zc_BackoffMaxRetries Z) (connect_once E dialer)) (\<lambda>u.
          if \<not> zc_Auth Z then ret (Inr fresh_zk)
          else if zc_Username Z = [] \<or> zc_Password Z = []
          then ret (Inl (Errorf ''zookeeper auth not configured, fill username/password in config or disable auth flag''))
          else perform (gets (\<lambda>s. e_zk_auth E (hist s))) (\<lambda>a. case a of
                 Some e \<Rightarrow> ret (Inl e) | None \<Rightarrow> ret (Inr fresh_zk)))))"

definition SetDisconnectCallback :: "unit M" where
  "SetDisconnectCallback = upd_zk (\<lambda>z. z\<lparr>z_callback := True\<rparr>)"

section \<open>Building the path to a node\<close>

text \<open>The first loop of \<open>makePath\<close>: the missing prefixes, walking up from the longest.\<close>
primrec missing_paths :: "env \<Rightarrow> Config \<Rightarrow> string list \<Rightarrow> (goerr + string list) M" where
  "missing_paths E C [] = ret (Inr [])"
| "missing_paths E C (p # ps) = perform (retryGet E C p) (\<lambda>r. case r of
       Inr x \<Rightarrow> ret (Inr [])
     | Inl e \<Rightarrow> if err_is e ZkNoNode then attempt (missing_paths E C ps) (\<lambda>qs. ret (Inr (p # qs)))
              else ret (Inl e))"

definition create_missing :: "env \<Rightarrow> Config \<Rightarrow> string \<Rightarrow> goerr option M" where
  "create_missing E C p = perform (retryCreate E C p (JBytes []) False) (\<lambda>r. case r of
       Inr x \<Rightarrow> ret None
     | Inl e \<Rightarrow> if err_is e ZkNodeExists then ret None else ret (Some e))"

definition makePath :: "env \<Rightarrow> Config \<Rightarrow> string \<Rightarrow> goerr option M" where
  "makePath E C path =
     attempt_err (missing_paths E C (rev (path_prefixes [] (str_split sep path)))) (\<lambda>createPaths.
       checked_each (create_missing E C) (rev createPaths))"

definition Initialize :: "env \<Rightarrow> Config \<Rightarrow> unit M" where
  "Initialize E C = andThen (makePath E C (zc_Namespace (c_Zookeeper C))) (ret ())"

section \<open>Operations of the DCS interface\<close>

definition fullPath :: "Config \<Rightarrow> string \<Rightarrow> string" where
  "fullPath C path = buildFullPath (zc_Namespace (c_Zookeeper C)) path"

definition getSelfLockOwner :: "env \<Rightarrow> Config \<Rightarrow> LockOwner" where
  "getSelfLockOwner E C = \<lparr> lo_Hostname = zc_Hostname (c_Zookeeper C), lo_Pid = e_pid E \<rparr>"

definition store_lock :: "env \<Rightarrow> string \<Rightarrow> bool M" where
  "store_lock E fp = perform (now E) (\<lambda>t.
     andThen (upd_zk (\<lambda>z. z\<lparr>z_lockHeld := (z_lockHeld z)(fp \<mapsto> t)\<rparr>)) (ret True))"

definition drop_lock :: "string \<Rightarrow> unit M" where
  "drop_lock fp = upd_zk (\<lambda>z. z\<lparr>z_lockHeld := (z_lockHeld z)(fp := None)\<rparr>)"

text \<open>\<open>AcquireLock\<close> after the cache: read the lock node, create it if it is missing.\<close>
definition AcquireLock_server :: "env \<Rightarrow> Config \<Rightarrow> string \<Rightarrow> bool M" where
  "AcquireLock_server E C fp =
     (let self = getSelfLockOwner E C in
      perform (retryGet E C fp) (\<lambda>r. case r of
        Inl e \<Rightarrow>
          if err_is e ZkNoNode
          then perform (retryCreate E C fp (JOwner self) True) (\<lambda>c. case c of
                 Inl e' \<Rightarrow> ret False
               | Inr x \<Rightarrow> store_lock E fp)
          else ret False
      | Inr (data, ver, eph) \<Rightarrow> (case as_owner data of
          None \<Rightarrow> ret False
        | Some owner \<Rightarrow> if owner = self then store_lock E fp else ret False)))"

definition AcquireLock :: "env \<Rightarrow> Config \<Rightarrow> string \<Rightarrow> bool M" where
  "AcquireLock E C path =
     (let fp = fullPath C path in
      andThen (handleEvents E) (perform (gets (\<lambda>s. z_lockHeld (zk s) fp)) (\<lambda>cached. case cached of
        None \<Rightarrow> AcquireLock_server E C fp
      | Some t \<Rightarrow> perform (time_since E t) (\<lambda>age.
          if age < zc_LockHeldTTL (c_Zookeeper C) then ret True
          else andThen (drop_lock fp) (AcquireLock_server E C fp)))))"

text \<open>
  A missing lock node leaves no data, which does not unmarshal: releasing it is an error as well.
\<close>
definition ReleaseLockOrError :: "env \<Rightarrow> Config \<Rightarrow> string \<Rightarrow> goerr option M" where
  "ReleaseLockOrError E C path =
     (let fp = fullPath C path in
      andThen (drop_lock fp) (perform (retryGet E C fp) (\<lambda>r. case r of
        Inl e \<Rightarrow> if err_is e ZkNoNode then ret (Some (Errorf (''unexpected lock data '' @ fp)))
               else ret (Some (Wrap (''failed to get lock info '' @ fp) e))
      | Inr (data, ver, eph) \<Rightarrow> (case as_owner data of
          None \<Rightarrow> ret (Some (Errorf (''unexpected lock data '' @ fp)))
        | Some owner \<Rightarrow>
          if owner \<noteq> getSelfLockOwner E C
          then ret (Some (Errorf (''failed to release lock '' @ fp @ '': process is not an owner'')))
          else perform (retryDelete E C fp ver) (\<lambda>d. case d of
                 Inl e \<Rightarrow> ret (Some (Wrap (''failed to delete lock node '' @ fp) e))
               | Inr x \<Rightarrow> ret None)))))"

definition ReleaseLock :: "env \<Rightarrow> Config \<Rightarrow> string \<Rightarrow> unit M" where
  "ReleaseLock E C path = andThen (ReleaseLockOrError E C path) (ret ())"

definition dcs_create :: "env \<Rightarrow> Config \<Rightarrow> string \<Rightarrow> doc \<Rightarrow> bool \<Rightarrow> goerr option M" where
  "dcs_create E C path val ephemeral =
     perform (retryCreate E C (fullPath C path) val ephemeral) (\<lambda>r. case r of
       Inr x \<Rightarrow> ret None
     | Inl e \<Rightarrow> if err_is e ZkNodeExists then ret (Some ErrExists) else ret (Some e))"

definition dcs_Create :: "env \<Rightarrow> Config \<Rightarrow> string \<Rightarrow> doc \<Rightarrow> goerr option M" where
  "dcs_Create E C path val = dcs_create E C path val False"

definition dcs_CreateEphemeral :: "env \<Rightarrow> Config \<Rightarrow> string \<Rightarrow> doc \<Rightarrow> goerr option M" where
  "dcs_CreateEphemeral E C path val = dcs_create E C path val True"

text \<open>An error option of a request.\<close>
definition err_of :: "(goerr + 'a) M \<Rightarrow> goerr option M" where
  "err_of m = perform m (\<lambda>r. case r of Inl e \<Rightarrow> ret (Some e) | Inr x \<Rightarrow> ret None)"

definition dcs_set :: "env \<Rightarrow> Config \<Rightarrow> string \<Rightarrow> doc \<Rightarrow> bool \<Rightarrow> goerr option M" where
  "dcs_set E C path val ephemeral =
     (let fp = fullPath C path in
      perform (retryGet E C fp) (\<lambda>r. case r of
        Inl e \<Rightarrow>
          if err_is e ZkNoNode
          then checked (makePath E C (str_join [sep] (butlast (str_split sep fp))))
                 (err_of (retryCreate E C fp val ephemeral))
          else ret (Some e)
      | Inr (data, ver, owned) \<Rightarrow>
          if ephemeral \<and> \<not> owned
          then ret (Some (Errorf (''node '' @ path @ '' exists, but not ephemeral, can't make it ephemeral'')))
          else err_of (retrySet E C fp val ver)))"

definition dcs_Set :: "env \<Rightarrow> Config \<Rightarrow> string \<Rightarrow> doc \<Rightarrow> goerr option M" where
  "dcs_Set E C path val = dcs_set E C path val False"

definition dcs_SetEphemeral :: "env \<Rightarrow> Config \<Rightarrow> string \<Rightarrow> doc \<Rightarrow> goerr option M" where
  "dcs_SetEphemeral E C path val = dcs_set E C path val True"

definition dcs_Delete :: "env \<Rightarrow> Config \<Rightarrow> string \<Rightarrow> goerr option M" where
  "dcs_Delete E C path =
     (let fp = fullPath C path in
      perform (retryGet E C fp) (\<lambda>r. case r of
        Inl e \<Rightarrow> if err_is e ZkNoNode then ret None else ret (Some e)
      | Inr (data, ver, eph) \<Rightarrow> err_of (retryDelete E C fp ver)))"

text \<open>\<open>Get\<close> unmarshals into the type its caller passes; \<open>dec\<close> is that type's reader.\<close>
definition dcs_Get :: "env \<Rightarrow> Config \<Rightarrow> (doc \<Rightarrow> 'a option) \<Rightarrow> string \<Rightarrow> (goerr + 'a) M" where
  "dcs_Get E C dec path =
     perform (retryGet E C (fullPath C path)) (\<lambda>r. case r of
       Inl e \<Rightarrow> if err_is e ZkNoNode then ret (Inl ErrNotFound) else ret (Inl e)
     | Inr (data, ver, eph) \<Rightarrow> (case dec data of
         None \<Rightarrow> ret (Inl ErrMalformed)
       | Some v \<Rightarrow> ret (Inr v)))"

datatype tree = Leaf "doc option" | Dir "(string \<times> tree) list"

text \<open>\<open>GetTree\<close>; the first argument bounds the depth of the tree.\<close>
primrec dcs_GetTree :: "nat \<Rightarrow> env \<Rightarrow> Config \<Rightarrow> string \<Rightarrow> (goerr + tree) M" where
  "dcs_GetTree 0 E C path = halt OutOfFuel"
| "dcs_GetTree (Suc n) E C path =
     attempt (retryChildren E C (fullPath C path)) (\<lambda>children.
       if children = []
       then attempt (retryGet E C (fullPath C path)) (\<lambda>(data, ver, eph).
              case data of
                JBytes b \<Rightarrow> if b = [] then ret (Inr (Leaf None)) else ret (Inl (Errorf ''malformed''))
              | JNull \<Rightarrow> ret (Inr (Leaf None))
              | d \<Rightarrow> ret (Inr (Leaf (Some d))))
       else attempt (attempt_each (\<lambda>name.
              attempt (dcs_GetTree n E C (JoinPath [path, name])) (\<lambda>t. ret (Inr (name, t)))) children)
              (\<lambda>ts. ret (Inr (Dir ts))))"

definition dcs_GetChildren :: "env \<Rightarrow> Config \<Rightarrow> string \<Rightarrow> (goerr + string list) M" where
  "dcs_GetChildren E C path =
     perform (retryChildren E C (fullPath C path)) (\<lambda>r. case r of
       Inl e \<Rightarrow> if err_is e ZkNoNode then ret (Inl ErrNotFound) else ret (Inl e)
     | Inr children \<Rightarrow> ret (Inr children))"

definition dcs_Close :: "unit M" where
  "dcs_Close = record_event EvZkClose"

section \<open>Footprints\<close>

text \<open>
  What the operations write. Reading, looking at the session and connecting change nothing; an
  operation at a path writes that node, and creates empty directories at most. None of them waits
  in an unbounded loop but \<open>GetTree\<close>: the retries are bounded.
\<close>

fun writes_at :: "Config \<Rightarrow> string \<Rightarrow> zkwrite \<Rightarrow> bool" where
  "writes_at C path (ZCreate p d eph) = (p = fullPath C path \<or> d = JBytes [] \<and> \<not> eph)"
| "writes_at C path (ZSet p d v) = (p = fullPath C path)"
| "writes_at C path (ZDelete p v) = (p = fullPath C path)"

definition may_write :: "permit \<Rightarrow> Config \<Rightarrow> string \<Rightarrow> bool" where
  "may_write A C path \<longleftrightarrow> (\<forall>w r. writes_at C path w \<longrightarrow> p_ev A (EvZkWrite w r))"

lemma may_writeD: "may_write A C path \<Longrightarrow> writes_at C path w \<Longrightarrow> p_ev A (EvZkWrite w r)"
  by (simp add: may_write_def)

lemma foot_upd_zk [foot_intros]:
  "(\<And>z. (p_crit A \<or> (z_isConnected z \<and> z_callback z \<longrightarrow> z_isConnected (f z) \<and> z_callback (f z))) \<and>
     (p_link A \<or> (z_isConnected z \<longrightarrow> z_isConnected (f z)))) \<Longrightarrow>
   foot A (upd_zk f)"
  by (auto simp: foot_def frame_def upd_zk_def modify_def linked_def keeps_session_def intro: same_hosts_keeps)

text \<open>In a critical section the end of the session is the end of the process.\<close>
lemma foot_session: "p_link A \<Longrightarrow> foot A (handleSessionEvent e)"
proof (cases e)
  case TimerFired
  assume "p_link A"
  then show ?thesis unfolding TimerFired
    by - (rule footI, auto simp: frame_def linked_def returns_def upd_zk_def handleCritical_def comp_defs
        split: if_splits intro!: same_hosts_keeps)
qed (auto intro!: foot_intros)

lemma stays_connected:
  "set evs \<subseteq> {HasSession} \<Longrightarrow> z_isConnected (zk s) \<Longrightarrow> z_isConnected (zk (snd (each handleSessionEvent evs s)))"
  by (induction evs arbitrary: s) (auto simp: upd_zk_def comp_defs)

lemma foot_handleEvents [foot_intros]: "foot A (handleEvents E)"
proof (rule footI)
  fix s r s' assume run: "handleEvents E s = (r, s')"
  let ?evs = "e_session E (hist s)" and ?s1 = "s\<lparr>hist := EvSession (e_session E (hist s)) # hist s\<rparr>"
  obtain r1 where each: "each handleSessionEvent ?evs ?s1 = (r1, s')"
    using run by (auto simp: handleEvents_def record_event_def comp_defs split: prod.splits outcome.splits)
  have "foot (A\<lparr>p_link := True\<rparr>) (each handleSessionEvent ?evs)"
    by (intro foot_each foot_session) simp
  from foot_hist [OF this each] have "EvSession ?evs \<in> set new" if "hist s' = new @ hist s" for new
    using that by (auto simp: extends_by_def)
  with stays_connected [of ?evs ?s1] each have "keeps_session s s'"
    by (auto simp: keeps_session_def dest: in_sessionD)
  moreover have "foot (A\<lparr>p_link := True\<rparr>) (handleEvents E)"
    unfolding handleEvents_def by (intro foot_intros foot_record foot_session) simp_all
  ultimately show "frame A s r s'" using footD [of _ "handleEvents E", OF _ run] by (fastforce simp: frame_def)
qed

lemma foot_IsConnected [foot_intros]: "foot A (IsConnected E)"
  unfolding IsConnected_def by (intro foot_intros)

lemma foot_WaitConnected [foot_intros]: "foot A (WaitConnected E t)"
  unfolding WaitConnected_def by (intro foot_intros)

lemma foot_retry [foot_intros]: "foot A operation \<Longrightarrow> foot A (retry E n operation)"
  by (induction n) (auto intro!: foot_intros)

lemma foot_retryRequest [foot_intros]: "foot A code \<Longrightarrow> foot A (retryRequest E C code)"
  unfolding retryRequest_def retryRequestInternal_def by (intro foot_intros)

lemma foot_requests [foot_intros]:
  "foot A (retryGet E C q)" "foot A (retryChildren E C q)"
  "(\<And>r. p_ev A (EvZkWrite (ZSet q d v) r)) \<Longrightarrow> foot A (retrySet E C q d v)"
  "(\<And>r. p_ev A (EvZkWrite (ZCreate q d eph) r)) \<Longrightarrow> foot A (retryCreate E C q d eph)"
  "(\<And>r. p_ev A (EvZkWrite (ZDelete q v) r)) \<Longrightarrow> foot A (retryDelete E C q v)"
  unfolding retryGet_def retryChildren_def retrySet_def retryCreate_def retryDelete_def
  by (intro foot_intros; simp)+

lemma foot_NewZookeeper [foot_intros]: "foot A (NewZookeeper E C)"
  unfolding NewZookeeper_def connect_once_def Let_def by (intro foot_intros)

lemma foot_missing [foot_intros]: "foot A (missing_paths E C ps)"
  by (induction ps) (auto intro!: foot_intros)

lemma foot_makePath [foot_intros]:
  assumes "may_write A C path"
  shows "foot A (makePath E C q)"
  unfolding makePath_def create_missing_def
  by (intro foot_intros may_writeD [OF assms]) simp

lemma foot_Initialize [foot_intros]: "may_write A C [] \<Longrightarrow> foot A (Initialize E C)"
  unfolding Initialize_def by (intro foot_intros)

lemma foot_AcquireLock [foot_intros]: "may_write A C path \<Longrightarrow> foot A (AcquireLock E C path)"
  unfolding AcquireLock_def AcquireLock_server_def store_lock_def drop_lock_def Let_def
  by (rule foot_intros may_writeD | assumption | simp)+

lemma foot_ReleaseLock [foot_intros]: "may_write A C path \<Longrightarrow> foot A (ReleaseLock E C path)"
  unfolding ReleaseLock_def ReleaseLockOrError_def drop_lock_def Let_def
  by (rule foot_intros may_writeD | assumption | simp)+

lemma foot_dcs_create [foot_intros]: "may_write A C path \<Longrightarrow> foot A (dcs_create E C path d eph)"
  unfolding dcs_create_def by (rule foot_intros may_writeD | assumption | simp)+

lemma foot_dcs_Create [foot_intros]:
  "may_write A C path \<Longrightarrow> foot A (dcs_Create E C path d)"
  "may_write A C path \<Longrightarrow> foot A (dcs_CreateEphemeral E C path d)"
  unfolding dcs_Create_def dcs_CreateEphemeral_def by (intro foot_intros; simp)+

lemma foot_err_of [foot_intros]: "foot A m \<Longrightarrow> foot A (err_of m)"
  unfolding err_of_def by (intro foot_intros)

lemma foot_dcs_set [foot_intros]: "may_write A C path \<Longrightarrow> foot A (dcs_set E C path d eph)"
  unfolding dcs_set_def Let_def by (rule foot_intros may_writeD | assumption | simp)+

lemma foot_dcs_Set [foot_intros]:
  "may_write A C path \<Longrightarrow> foot A (dcs_Set E C path d)"
  "may_write A C path \<Longrightarrow> foot A (dcs_SetEphemeral E C path d)"
  unfolding dcs_Set_def dcs_SetEphemeral_def by (intro foot_intros; simp)+

lemma foot_dcs_Delete [foot_intros]: "may_write A C path \<Longrightarrow> foot A (dcs_Delete E C path)"
  unfolding dcs_Delete_def Let_def by (rule foot_intros may_writeD | assumption | simp)+

lemma foot_dcs_reads [foot_intros]:
  "foot A (dcs_Get E C dec path)" "foot A (dcs_GetChildren E C path)"
  unfolding dcs_Get_def dcs_GetChildren_def by (intro foot_intros)+

lemma foot_dcs_GetTree [foot_intros]: "p_spin A \<Longrightarrow> foot A (dcs_GetTree n E C path)"
proof (induction n arbitrary: path)
  case (Suc n)
  show ?case unfolding dcs_GetTree.simps
    by (rule foot_intros Suc.IH Suc.prems | auto split: doc.split intro!: foot_intros)+
qed (auto intro!: foot_intros)

lemma foot_Close [foot_intros]: "foot A dcs_Close"
  unfolding dcs_Close_def by (intro foot_record) simp

end
