(* ===== verification/Sample.thy ===== *)
theory Sample
  imports Tls
begin

text \<open>
  A small deployment for the concrete instances of the theorems: the default configuration with a
  namespace (and a port of one digit), three hosts \<open>h1\<close>, \<open>h2\<close> and \<open>h3\<close>, servers that answer every command, a clock that advances with every
  external action, and a process that has just started.
\<close>

definition sample_zookeeper :: ZookeeperConfig where
  "sample_zookeeper = \<lparr> zc_CACert = [], zc_Namespace = ''/rdsync'', zc_Hostname = ''h1'', zc_CertFile = [],
       zc_KeyFile = [], zc_Password = [], zc_Username = [], zc_Hosts = [''zk1'', ''zk2''],
       zc_RandomHostProvider = DefaultRandomHostProviderConfig, zc_BackoffMaxRetries = 10,
       zc_SessionTimeout = 2 * second, zc_LockHeldTTL = 30 * second, zc_Auth = False,
       zc_UseSSL = False, zc_VerifyCerts = False \<rparr>"

definition sample_config :: Config where
  "sample_config = \<lparr> c_InfoFile = ''/info'', c_Hostname = ''h1'', c_LogLevel = ''Info'',
       c_AofMode = ''Unspecified'', c_MaintenanceFile = ''/maint'', c_DaemonLockFile = ''/lock'',
       c_PprofAddr = [], c_EventTimingLogFile = [], c_Mode = ''Sentinel'',
       c_SentinelMode = DefaultSentinelModeConfig (\<lambda>h. h) ''h1'',
       c_Zookeeper = sample_zookeeper, c_Valkey = DefaultValkeyConfig\<lparr>vc_Port := 7\<rparr>,
       c_LogPollInterval = 50 * millisecond, c_LogBufferSize = 10000,
       c_HealthCheckInterval = 5 * second, c_InfoFileHandlerInterval = 30 * second,
       c_InactivationDelay = 30 * second, c_DcsWaitTimeout = 10 * second,
       c_DcsReconnectTimeout = 2 * minute, c_TickInterval = 5 * second, c_PingStable = 3 \<rparr>"

fun sample_reply :: "string \<Rightarrow> vcmd \<Rightarrow> reply" where
  "sample_reply h (ConfigGet k) = RMap [(k, ''0'')]"
| "sample_reply h Info = RStr (''role:master'' @ [CHR 0x0D, CHR 0x0A])"
| "sample_reply h c = RStr ''OK''"

definition sample_env :: env where
  "sample_env = \<lparr> e_now = (\<lambda>h. second * (1000 + int (length h))), e_order = (\<lambda>h ks. ks),
     e_dial = (\<lambda>h a. None), e_cmd = (\<lambda>h a c. sample_reply a c), e_senti_dial = (\<lambda>h a. None),
     e_senti = (\<lambda>h a c. RStr ''OK''), e_readfile = (\<lambda>h p. Inr ''pem''),
     e_pem = (\<lambda>t. True), e_keypair = (\<lambda>h c k. Inr ''pair''), e_lookup = (\<lambda>h a. Inr [''10.0.0.1'']),
     e_parse_ip = Some, e_session = (\<lambda>h. []), e_backoff = (\<lambda>h. True), e_done = (\<lambda>h t. False),
     e_rand = (\<lambda>h n. 0), e_tcp = (\<lambda>h a. None), e_zk_connect = (\<lambda>h d. None), e_zk_auth = (\<lambda>h. None),
     e_zk_get = (\<lambda>h p. Inl ZkNoNode), e_zk_children = (\<lambda>h p. Inl ZkNoNode),
     e_zk_write = (\<lambda>h w. None), e_exec = (\<lambda>h a. None), e_file = (\<lambda>h f. None), e_stat = (\<lambda>h p. False),
     e_input = (\<lambda>h. Inr ''yes''), e_pid = 1, e_fuel = 50 \<rparr>"

definition sample_node :: node where
  "sample_node = \<lparr> n_conn = True, n_ipsTime = 0, n_ips = [''10.0.0.1''], n_cachedInfo = [],
     n_clusterID = [], n_infoResults = [], n_opts = zero_opts \<rparr>"

definition sample_state :: st where
  "sample_state = \<lparr> dcsDivergeTime = 0, replFailTime = 0, lostSince = 0, critical = False,
     splitTime = Map.empty, nodeFailTime = Map.empty, app_state = stateInit,
     shard_nodes = [(''h1'', 0), (''h2'', 1), (''h3'', 2)], shard_local = Some 0,
     heap = [(''h1'', 0) \<mapsto> sample_node, (''h2'', 1) \<mapsto> sample_node, (''h3'', 2) \<mapsto> sample_node],
     next_ptr = 3,
     zk = \<lparr> z_isConnected = True, z_closeTimer = NoTimer, z_lockHeld = Map.empty, z_callback = False \<rparr>,
     cache = \<lparr> scn_conn = True, scn_broken = False, scn_opts = zero_opts \<rparr>, timings = None, hist = [] \<rparr>"

definition sample_replica :: HostState where
  "sample_replica = zero_HostState\<lparr>hs_PingOk := True, hs_PingStable := True, hs_ReplicationID := ''r1'',
     hs_ReplicationBacklogStart := 1, hs_ReplicationBacklogSize := 10, hs_ReplicaState :=
     Some (zero_ReplicaState\<lparr>rs_MasterHost := ''h1'', rs_ReplicationOffset := 5\<rparr>)\<rparr>"

text \<open>\<open>h1\<close>, the master, does not answer; \<open>h2\<close> and \<open>h3\<close> have lost it.\<close>
definition sample_states :: "(string \<times> HostState) list" where
  "sample_states = [(''h1'', zero_HostState), (''h2'', sample_replica), (''h3'', sample_replica)]"

lemmas sample_defs = sample_zookeeper_def sample_config_def sample_env_def sample_node_def sample_state_def
  sample_replica_def sample_states_def

end
