(* ===== verification/Node.thy ===== *)
theory Node
  imports Zk Sample
begin

text \<open>
  One valkey server as rdsync sees it: internal/valkey/node.go, method by method. A method takes
  the node pointer (None for nil, whose use panics) and sends commands over the node's connection;
  the replies are the environment's. \<open>GetState\<close> with the parser of the INFO text and the window of
  recent results is here, and the classification of what each method can change.
\<close>

type_synonym nodeP = "node_ptr option"

text \<open>\<open>(error, error)\<close> results: the command's error and that of the configuration rewrite.\<close>
type_synonym two_errs = "goerr option \<times> goerr option"

definition highMinReplicas :: int where "highMinReplicas = 65535"

section \<open>Replies\<close>

fun reply_err :: "reply \<Rightarrow> goerr option" where
  "reply_err (RErr e) = Some e"
| "reply_err _ = None"

fun reply_str :: "reply \<Rightarrow> goerr + string" where
  "reply_str (RErr e) = Inl e"
| "reply_str (RStr x) = Inr x"
| "reply_str _ = Inl (Raw ''valkey message type is not a string'')"

fun reply_map :: "reply \<Rightarrow> goerr + (string \<times> string) list" where
  "reply_map (RErr e) = Inl e"
| "reply_map (RMap m) = Inr m"
| "reply_map _ = Inl (Raw ''valkey message type is not a map'')"

fun reply_arr :: "reply \<Rightarrow> goerr + reply list" where
  "reply_arr (RErr e) = Inl e"
| "reply_arr (RArr rs) = Inr rs"
| "reply_arr _ = Inl (Raw ''valkey message type is not an array'')"

section \<open>Nodes and connections\<close>

definition get_node :: "nodeP \<Rightarrow> node M" where
  "get_node p = perform (deref p) (\<lambda>r. perform (gets (\<lambda>s. heap s r)) deref)"

definition upd_node :: "node_ptr \<Rightarrow> (node \<Rightarrow> node) \<Rightarrow> unit M" where
  "upd_node r f = modify (\<lambda>s. s\<lparr>heap := (heap s)(r := map_option f (heap s r))\<rparr>)"

text \<open>The first occurrence of each address: the loop of \<open>uniqLookup\<close>.\<close>
fun uniq :: "string list \<Rightarrow> string list \<Rightarrow> string list" where
  "uniq seen [] = []"
| "uniq seen (x # xs) = (if x \<in> set seen then uniq seen xs else x # uniq (x # seen) xs)"

definition uniqLookup :: "env \<Rightarrow> string \<Rightarrow> (goerr + string list) M" where
  "uniqLookup E host = attempt (lookup_ip E host) (\<lambda>res. ret (Inr (uniq [] res)))"

text \<open>\<open>NewNode\<close>: the pointer's number, or the error of the TLS set-up.\<close>
definition NewNode :: "env \<Rightarrow> Config \<Rightarrow> string \<Rightarrow> (goerr + nat) M" where
  "NewNode E C fqdn =
     (let V = c_Valkey C;
          host = (if fqdn = c_Hostname C then localhost else fqdn);
          opts = \<lparr> co_InitAddress = JoinHostPort host (itoa (vc_Port V)), co_Username = vc_AuthUser V,
                   co_Password = vc_AuthPassword V, co_DialTimeout = vc_DialTimeout V,
                   co_ConnWriteTimeout = vc_WriteTimeout V, co_TLSConfig = None \<rparr> in
     perform (now E) (\<lambda>t.
     perform (uniqLookup E fqdn) (\<lambda>r.
     let (ips, ipsTime) = (case r of Inl e \<Rightarrow> ([], 0) | Inr ips \<Rightarrow> (ips, t)) in
     attempt (with_tls E C (vc_UseTLS V) (vc_TLSCAPath V) host opts) (\<lambda>opts.
     perform (dial E opts) (\<lambda>d.
     perform (gets next_ptr) (\<lambda>n.
     andThen (modify (\<lambda>s. s\<lparr>
         heap := (heap s)((fqdn, n) \<mapsto> \<lparr> n_conn = (d = None), n_ipsTime = ipsTime, n_ips = ips,
           n_cachedInfo = [], n_clusterID = [], n_infoResults = [], n_opts = opts \<rparr>),
         next_ptr := Suc n\<rparr>))
       (ret (Inr n))))))))"

definition FQDN :: "nodeP \<Rightarrow> string M" where
  "FQDN p = perform (deref p) (\<lambda>r. ret (fst r))"

definition IsLocal :: "Config \<Rightarrow> nodeP \<Rightarrow> bool M" where
  "IsLocal C p = perform (deref p) (\<lambda>r. ret (fst r = c_Hostname C))"

definition ensureConn :: "env \<Rightarrow> nodeP \<Rightarrow> goerr option M" where
  "ensureConn E p = perform (get_node p) (\<lambda>n.
     if n_conn n then ret None
     else perform (deref p) (\<lambda>r. checked (dial E (n_opts n))
            (andThen (upd_node r (\<lambda>n. n\<lparr>n_conn := True\<rparr>)) (ret None))))"

text \<open>\<open>n.conn.Do\<close>; a node without connection panics.\<close>
definition conn_do :: "env \<Rightarrow> nodeP \<Rightarrow> vcmd \<Rightarrow> reply M" where
  "conn_do E p c = perform (get_node p) (\<lambda>n.
     if n_conn n then perform (deref p) (\<lambda>r. do_cmd E (fst r) c)
     else halt (Panic ''nil pointer dereference''))"

definition conn_err :: "env \<Rightarrow> nodeP \<Rightarrow> vcmd \<Rightarrow> goerr option M" where
  "conn_err E p c = perform (conn_do E p c) (\<lambda>r. ret (reply_err r))"

text \<open>The shape shared by most methods: ensure the connection, send one command.\<close>
definition send :: "env \<Rightarrow> nodeP \<Rightarrow> vcmd \<Rightarrow> goerr option M" where
  "send E p c = checked (ensureConn E p) (conn_err E p c)"

definition MatchHost :: "env \<Rightarrow> nodeP \<Rightarrow> string \<Rightarrow> bool M" where
  "MatchHost E p host = perform (deref p) (\<lambda>r. perform (get_node p) (\<lambda>n.
     ret (fst r = host \<or>
          (case e_parse_ip E host of None \<Rightarrow> False | Some ip \<Rightarrow> ip \<in> set (n_ips n)))))"

definition RefreshAddrs :: "env \<Rightarrow> Config \<Rightarrow> nodeP \<Rightarrow> goerr option M" where
  "RefreshAddrs E C p = perform (get_node p) (\<lambda>n. perform (time_since E (n_ipsTime n)) (\<lambda>age.
     if age < vc_DNSTTL (c_Valkey C) then ret None
     else perform (now E) (\<lambda>t. perform (deref p) (\<lambda>r.
       attempt_err (uniqLookup E (fst r)) (\<lambda>ips.
         andThen (upd_node r (\<lambda>n. n\<lparr>n_ips := ips, n_ipsTime := t\<rparr>)) (ret None))))))"

text \<open>The host of a node, in the texts of errors.\<close>
definition host_of :: "nodeP \<Rightarrow> string" where
  "host_of p = (case p of None \<Rightarrow> [] | Some q \<Rightarrow> fst q)"

definition GetIP :: "nodeP \<Rightarrow> (goerr + string) M" where
  "GetIP p = perform (get_node p) (\<lambda>n. ret (case n_ips n of
     [] \<Rightarrow> Inl (Errorf (''unable to find a usable ip for '' @ host_of p)) | ip # _ \<Rightarrow> Inr ip))"

definition GetIPs :: "nodeP \<Rightarrow> string list M" where
  "GetIPs p = perform (get_node p) (\<lambda>n. ret (n_ips n))"

section \<open>Configuration of the server\<close>

definition configRewrite :: "env \<Rightarrow> nodeP \<Rightarrow> goerr option M" where
  "configRewrite E p = send E p ConfigRewrite"

text \<open>\<open>%v\<close> of a map of strings.\<close>
definition map_text :: "(string \<times> string) list \<Rightarrow> string" where
  "map_text vals = ''map'' @ list_text (map (\<lambda>(k, v). k @ '':'' @ v) (sort_key fst vals))"

definition configParse :: "string \<Rightarrow> reply \<Rightarrow> goerr + string" where
  "configParse key cmd = (case reply_map cmd of
     Inl e \<Rightarrow> Inl e
   | Inr vals \<Rightarrow> (case map_of vals key of
       None \<Rightarrow> Inl (Errorf (''unexpected config get result for '' @ key @ '': '' @ map_text vals))
     | Some val \<Rightarrow> Inr val))"

definition configGet :: "env \<Rightarrow> nodeP \<Rightarrow> string \<Rightarrow> (goerr + string) M" where
  "configGet E p key = checked_or (ensureConn E p)
     (perform (conn_do E p (ConfigGet key)) (\<lambda>r. ret (configParse key r)))"

text \<open>Set a parameter and rewrite the configuration file; any error is returned.\<close>
definition set_and_rewrite :: "env \<Rightarrow> nodeP \<Rightarrow> string \<Rightarrow> string \<Rightarrow> goerr option M" where
  "set_and_rewrite E p key val = checked (send E p (ConfigSet key val)) (configRewrite E p)"

text \<open>The same with the two errors apart.\<close>
definition set_then_rewrite :: "env \<Rightarrow> nodeP \<Rightarrow> string \<Rightarrow> string \<Rightarrow> two_errs M" where
  "set_then_rewrite E p key val = perform (send E p (ConfigSet key val)) (\<lambda>e. case e of
     Some x \<Rightarrow> ret (Some x, None)
   | None \<Rightarrow> perform (configRewrite E p) (\<lambda>re. ret (None, re)))"

definition get_flag :: "env \<Rightarrow> nodeP \<Rightarrow> string \<Rightarrow> (goerr + bool) M" where
  "get_flag E p key = attempt (configGet E p key) (\<lambda>val. ret (Inr (val = ''yes'')))"

definition IsReplPaused :: "env \<Rightarrow> nodeP \<Rightarrow> (goerr + bool) M" where
  "IsReplPaused E p = get_flag E p ''repl-paused''"

definition PauseReplication :: "env \<Rightarrow> nodeP \<Rightarrow> goerr option M" where
  "PauseReplication E p = set_and_rewrite E p ''repl-paused'' ''yes''"

definition ResumeReplication :: "env \<Rightarrow> nodeP \<Rightarrow> goerr option M" where
  "ResumeReplication E p = set_and_rewrite E p ''repl-paused'' ''no''"

definition IsOffline :: "env \<Rightarrow> nodeP \<Rightarrow> (goerr + bool) M" where
  "IsOffline E p = get_flag E p ''offline''"

definition DisconnectClients :: "env \<Rightarrow> nodeP \<Rightarrow> string \<Rightarrow> goerr option M" where
  "DisconnectClients E p ctype = send E p (ClientKillType ctype)"

definition SetReadOnly :: "env \<Rightarrow> nodeP \<Rightarrow> bool \<Rightarrow> two_errs M" where
  "SetReadOnly E p disconnect =
     perform (send E p (ConfigSet ''min-replicas-to-write'' (itoa highMinReplicas))) (\<lambda>e. case e of
       Some x \<Rightarrow> ret (Some x, None)
     | None \<Rightarrow> perform (configRewrite E p) (\<lambda>rewriteErr.
         if disconnect
         then perform (DisconnectClients E p ''normal'') (\<lambda>e1. case e1 of
                Some x \<Rightarrow> ret (Some x, rewriteErr)
              | None \<Rightarrow> perform (DisconnectClients E p ''pubsub'') (\<lambda>e2. case e2 of
                  Some x \<Rightarrow> ret (Some x, rewriteErr)
                | None \<Rightarrow> ret (None, rewriteErr)))
         else ret (None, rewriteErr)))"

definition SetReadWrite :: "env \<Rightarrow> nodeP \<Rightarrow> two_errs M" where
  "SetReadWrite E p = set_then_rewrite E p ''min-replicas-to-write'' ''0''"

text \<open>The log of a failed rewrite is all \<open>SetOffline\<close> does with it.\<close>
definition SetOffline :: "env \<Rightarrow> Config \<Rightarrow> nodeP \<Rightarrow> goerr option M" where
  "SetOffline E C p = perform (IsLocal C p) (\<lambda>l.
     if \<not> l then ret (Some (Errorf (''making '' @ host_of p @ '' offline is not possible - not local'')))
     else checked (send E p (ConfigSet ''offline'' ''yes''))
            (perform (SetReadOnly E p True) (\<lambda>(err, rewriteErr). ret err)))"

definition SetOnline :: "env \<Rightarrow> Config \<Rightarrow> nodeP \<Rightarrow> goerr option M" where
  "SetOnline E C p = perform (IsLocal C p) (\<lambda>l.
     if \<not> l then ret (Some (Errorf (''making '' @ host_of p @ '' online is not possible - not local'')))
     else send E p (ConfigSet ''offline'' ''no''))"

definition GetNumQuorumReplicas :: "env \<Rightarrow> nodeP \<Rightarrow> (goerr + int) M" where
  "GetNumQuorumReplicas E p = attempt (configGet E p ''quorum-replicas-to-write'') (\<lambda>val.
     case ParseInt 32 val of
       (n, None) \<Rightarrow> ret (Inr n)
     | (n, Some e) \<Rightarrow> ret (Inl (Errorf (''unable to parse quorum-replicas-to-write value: ''
          @ num_error_text ''ParseInt'' val e))))"

definition SetNumQuorumReplicas :: "env \<Rightarrow> nodeP \<Rightarrow> int \<Rightarrow> two_errs M" where
  "SetNumQuorumReplicas E p value =
     set_then_rewrite E p ''quorum-replicas-to-write'' (itoa value)"

definition GetQuorumReplicas :: "env \<Rightarrow> nodeP \<Rightarrow> (goerr + string) M" where
  "GetQuorumReplicas E p = attempt (configGet E p ''quorum-replicas'') (\<lambda>val.
     ret (Inr (str_join '' '' (sort (str_split CHR '' '' val)))))"

definition SetQuorumReplicas :: "env \<Rightarrow> nodeP \<Rightarrow> string \<Rightarrow> two_errs M" where
  "SetQuorumReplicas E p value = set_then_rewrite E p ''quorum-replicas'' value"

definition EmptyQuorumReplicas :: "env \<Rightarrow> nodeP \<Rightarrow> goerr option M" where
  "EmptyQuorumReplicas E p = attempt_err (GetQuorumReplicas E p) (\<lambda>quorumReplicas.
     if quorumReplicas \<noteq> []
     then perform (SetQuorumReplicas E p []) (\<lambda>(err, rewriteErr). ret err)
     else ret None)"

definition GetAppendonly :: "env \<Rightarrow> nodeP \<Rightarrow> (goerr + bool) M" where
  "GetAppendonly E p = get_flag E p ''appendonly''"

definition SetAppendonly :: "env \<Rightarrow> nodeP \<Rightarrow> bool \<Rightarrow> goerr option M" where
  "SetAppendonly E p value = set_and_rewrite E p ''appendonly'' (if value then ''yes'' else ''no'')"

definition Restart :: "env \<Rightarrow> Config \<Rightarrow> nodeP \<Rightarrow> goerr option M" where
  "Restart E C p = perform (IsLocal C p) (\<lambda>l.
     if \<not> l then ret (Some (Errorf (''restarting '' @ host_of p @ '' is not possible - not local'')))
     else run_command_line E (vc_RestartCommand (c_Valkey C)))"

section \<open>State of the server\<close>

definition CRLF :: string where "CRLF = [CHR 0x0D, CHR 0x0A]"

text \<open>
  The loop of \<open>GetState\<close> over the INFO text: the key/value pairs of its complete lines. A key that
  occurs again replaces the earlier value: it comes first in the list.
\<close>
function parse_info :: "(string \<times> string) list \<Rightarrow> string \<Rightarrow> (string \<times> string) list" where
  "parse_info res inp = (case str_index inp CRLF of
      None \<Rightarrow> res
    | Some i \<Rightarrow> (case str_cut (take i inp) '':'' of
        None \<Rightarrow> parse_info res (drop (i + 2) inp)
      | Some (before, after) \<Rightarrow> parse_info ((before, after) # res) (drop (i + 2) inp)))"
  by pat_completeness auto
termination
  by (relation "measure (\<lambda>(res, inp). length inp)") (auto dest!: str_index_bound simp: CRLF_def)

declare parse_info.simps [simp del]

text \<open>Appending to the window of the last \<open>PingStable\<close> results.\<close>
definition push_result :: "Config \<Rightarrow> bool \<Rightarrow> bool list \<Rightarrow> bool list" where
  "push_result C b rs = (let rs' = rs @ [b] in
     if int (length rs') > c_PingStable C then tl rs' else rs')"

type_synonym info = "(string \<times> string) list"

text \<open>
  \<open>GetState\<close>: the raw info (empty for nil), min-replicas-to-write, read-only, offline, repl-paused
  and the error. \<open>DoMulti\<close> sends the five commands in order; the error of PING is that of the batch.
\<close>
type_synonym node_state = "info \<times> int \<times> bool \<times> bool \<times> bool \<times> goerr option"

definition GetState_failed :: "Config \<Rightarrow> node_ptr \<Rightarrow> goerr \<Rightarrow> node_state M" where
  "GetState_failed C r err =
     andThen (upd_node r (\<lambda>n.
         let rs = push_result C False (n_infoResults n) in
         n\<lparr>n_infoResults := rs,
           n_cachedInfo := (if True \<in> set rs then n_cachedInfo n else [])\<rparr>))
       (perform (get_node (Some r)) (\<lambda>n. ret (n_cachedInfo n, 0, False, False, False, Some err)))"

definition GetState_config ::
  "info \<Rightarrow> reply \<Rightarrow> reply \<Rightarrow> reply \<Rightarrow> node_state" where
  "GetState_config res rMin rOff rPaused =
     (case configParse ''min-replicas-to-write'' rMin of
        Inl e \<Rightarrow> (res, 0, False, False, False, Some e)
      | Inr minReplicasStr \<Rightarrow> (case ParseInt 64 minReplicasStr of
          (n, Some e) \<Rightarrow> (res, 0, False, False, False,
             Some (Errorf (''unable to parse min-replicas-to-write value: ''
               @ num_error_text ''ParseInt'' minReplicasStr e)))
        | (minReplicas, None) \<Rightarrow>
            let isReadOnly = (minReplicas = highMinReplicas) in
            (case configParse ''offline'' rOff of
               Inl e \<Rightarrow> (res, minReplicas, isReadOnly, False, False, Some e)
             | Inr offline \<Rightarrow>
                 let isOffline = (offline = ''yes'') in
                 (case configParse ''repl-paused'' rPaused of
                    Inl e \<Rightarrow> (res, minReplicas, isReadOnly, isOffline, False, Some e)
                  | Inr replPaused \<Rightarrow>
                      (res, minReplicas, isReadOnly, isOffline, replPaused = ''yes'', None)))))"

definition GetState :: "env \<Rightarrow> Config \<Rightarrow> nodeP \<Rightarrow> node_state M" where
  "GetState E C p = perform (deref p) (\<lambda>r. perform (ensureConn E p) (\<lambda>ce. case ce of
     Some e \<Rightarrow> GetState_failed C r e
   | None \<Rightarrow>
       perform (conn_do E p Ping) (\<lambda>r0.
       perform (conn_do E p Info) (\<lambda>r1.
       perform (conn_do E p (ConfigGet ''min-replicas-to-write'')) (\<lambda>r2.
       perform (conn_do E p (ConfigGet ''offline'')) (\<lambda>r3.
       perform (conn_do E p (ConfigGet ''repl-paused'')) (\<lambda>r4.
       case reply_err r0 of
         Some e \<Rightarrow> GetState_failed C r e
       | None \<Rightarrow> (case reply_str r1 of
           Inl e \<Rightarrow> ret ([], 0, False, False, False, Some e)
         | Inr inp \<Rightarrow>
             let res = parse_info [] inp in
             andThen (upd_node r (\<lambda>n. n\<lparr>
                 n_infoResults := push_result C True (n_infoResults n), n_cachedInfo := res\<rparr>))
               (ret (GetState_config res r2 r3 r4))))))))))"

text \<open>\<open>EvaluatePing\<close>: some recent result is good; none is bad.\<close>
definition EvaluatePing :: "nodeP \<Rightarrow> (bool \<times> bool) M" where
  "EvaluatePing p = perform (get_node p) (\<lambda>n.
     ret (foldl (\<lambda>(res, stable) result. if result then (True, stable) else (res, False))
            (False, True) (n_infoResults n)))"

section \<open>Replication, sentinel and cluster commands\<close>

definition SentinelMakeReplica :: "env \<Rightarrow> Config \<Rightarrow> nodeP \<Rightarrow> string \<Rightarrow> goerr option M" where
  "SentinelMakeReplica E C p target = perform (FQDN p) (\<lambda>fqdn.
     if fqdn = target then ret (Some (Errorf (''making '' @ fqdn @ '' replica of itself is not possible'')))
     else checked (EmptyQuorumReplicas E p)
         (checked (conn_err E p (Replicaof target (vc_Port (c_Valkey C)))) (configRewrite E p)))"

definition SentinelPromote :: "env \<Rightarrow> nodeP \<Rightarrow> goerr option M" where
  "SentinelPromote E p = checked (send E p ReplicaofNoOne) (configRewrite E p)"

definition ClusterGetID :: "env \<Rightarrow> nodeP \<Rightarrow> (goerr + string) M" where
  "ClusterGetID E p = perform (get_node p) (\<lambda>n.
     if n_clusterID n \<noteq> [] then ret (Inr (n_clusterID n))
     else checked_or (ensureConn E p)
       (perform (conn_do E p ClusterMyid) (\<lambda>r. case reply_err r of
          Some e \<Rightarrow> ret (Inl e)
        | None \<Rightarrow> perform (deref p) (\<lambda>q. (case reply_str r of
            Inl e \<Rightarrow> andThen (upd_node q (\<lambda>n. n\<lparr>n_clusterID := []\<rparr>)) (ret (Inl e))
          | Inr i \<Rightarrow> andThen (upd_node q (\<lambda>n. n\<lparr>n_clusterID := i\<rparr>)) (ret (Inr i)))))))"

definition ClusterMakeReplica :: "env \<Rightarrow> nodeP \<Rightarrow> string \<Rightarrow> goerr option M" where
  "ClusterMakeReplica E p targetID =
     checked (EmptyQuorumReplicas E p) (conn_err E p (ClusterReplicate targetID))"

text \<open>The text of CLUSTER NODES.\<close>
definition cluster_nodes :: "env \<Rightarrow> nodeP \<Rightarrow> (goerr + string) M" where
  "cluster_nodes E p = checked_or (ensureConn E p)
     (perform (conn_do E p ClusterNodes) (\<lambda>r. ret (reply_str r)))"

text \<open>The flags field of a line, None for a line with fewer than three fields.\<close>
definition line_flags :: "string \<Rightarrow> string option" where
  "line_flags line = (let split = str_split CHR '' '' line in
     if length split < 3 then None else Some (split ! 2))"

definition count_masters :: "string list \<Rightarrow> int \<times> int" where
  "count_masters lines = foldl (\<lambda>(total, failed) line. case line_flags line of
       None \<Rightarrow> (total, failed)
     | Some fl \<Rightarrow> if str_contains fl ''master''
                 then (total + 1, if str_contains fl ''fail'' then failed + 1 else failed)
                 else (total, failed)) (0, 0) lines"

definition majority_alive :: "string \<Rightarrow> bool" where
  "majority_alive strVal =
     (let (total, failed) = count_masters (str_split CHR 0x0A strVal)
      in failed < total div 2 + 1)"

definition IsClusterMajorityAlive :: "env \<Rightarrow> nodeP \<Rightarrow> (goerr + bool) M" where
  "IsClusterMajorityAlive E p = attempt (cluster_nodes E p) (\<lambda>strVal.
     ret (Inr (majority_alive strVal)))"

definition ClusterPromoteForce :: "env \<Rightarrow> nodeP \<Rightarrow> goerr option M" where
  "ClusterPromoteForce E p = send E p ClusterFailoverForce"

definition ClusterPromoteTakeover :: "env \<Rightarrow> nodeP \<Rightarrow> goerr option M" where
  "ClusterPromoteTakeover E p = send E p ClusterFailoverTakeover"

definition IsClusterNodeAlone :: "env \<Rightarrow> nodeP \<Rightarrow> (goerr + bool) M" where
  "IsClusterNodeAlone E p = attempt (cluster_nodes E p) (\<lambda>strVal.
     ret (Inr (length (filter (\<lambda>line. str_trim line \<noteq> []) (str_split CHR 0x0A strVal)) = 1)))"

definition ClusterMeetNode :: "env \<Rightarrow> nodeP \<Rightarrow> string \<Rightarrow> int \<Rightarrow> int \<Rightarrow> goerr option M" where
  "ClusterMeetNode E p addr port clusterBusPort = send E p (ClusterMeet addr port clusterBusPort)"

text \<open>The first line flagged \<open>myself\<close> decides; fields after the eighth are slots.\<close>
fun slots_in_lines :: "string list \<Rightarrow> bool" where
  "slots_in_lines [] = False"
| "slots_in_lines (line # lines) = (case line_flags line of
     None \<Rightarrow> slots_in_lines lines
   | Some fl \<Rightarrow> if str_contains fl ''myself'' then length (str_split CHR '' '' line) > 8
               else slots_in_lines lines)"

definition HasClusterSlots :: "env \<Rightarrow> nodeP \<Rightarrow> (goerr + bool) M" where
  "HasClusterSlots E p = attempt (cluster_nodes E p) (\<lambda>strVal.
     ret (Inr (slots_in_lines (str_split CHR 0x0A strVal))))"

definition NodeScriptKill :: "env \<Rightarrow> nodeP \<Rightarrow> goerr option M" where
  "NodeScriptKill E p = send E p ScriptKill"

section \<open>Footprints\<close>

text \<open>
  What each method can change: it sends its commands to its own node. \<open>may_cmds A p cs\<close>: the permit
  allows the commands \<open>cs\<close> on the node \<open>p\<close>.
\<close>

definition may_cmds :: "permit \<Rightarrow> nodeP \<Rightarrow> vcmd list \<Rightarrow> bool" where
  "may_cmds A p cs \<longleftrightarrow> (\<forall>q. p = Some q \<longrightarrow> (\<forall>c \<in> set cs. \<forall>r. p_ev A (EvCmd (fst q) c r)))"

lemma may_cmdsI:
  "(\<And>q c r. p = Some q \<Longrightarrow> c \<in> set cs \<Longrightarrow> p_ev A (EvCmd (fst q) c r)) \<Longrightarrow> may_cmds A p cs"
  by (simp add: may_cmds_def)

lemma may_cmds_mono: "may_cmds A p cs \<Longrightarrow> set ds \<subseteq> set cs \<Longrightarrow> may_cmds A p ds"
  by (auto simp: may_cmds_def)

lemma may_cmds_Nil [simp]: "may_cmds A p []"
  by (simp add: may_cmds_def)

lemma foot_get_node [foot_intros]: "foot A (get_node p)"
  unfolding get_node_def by (intro foot_intros)

lemma foot_upd_node [foot_intros]: "foot A (upd_node r f)"
  unfolding upd_node_def by (intro foot_intros) simp

lemma foot_uniqLookup [foot_intros]: "foot A (uniqLookup E h)"
  unfolding uniqLookup_def by (intro foot_intros)

text \<open>A new node is nobody else's.\<close>
lemma foot_alloc:
  "foot A (perform (gets next_ptr) (\<lambda>n.
     andThen (modify (\<lambda>s. s\<lparr>heap := (heap s)((h, n) \<mapsto> x), next_ptr := Suc n\<rparr>)) (ret (f n))))"
proof -
  have "shard_ok h' (s\<lparr>heap := (heap s)((h, next_ptr s) \<mapsto> x), next_ptr := Suc (next_ptr s)\<rparr>)"
    if "shard_ok h' s" for h' s
  proof -
    have "\<forall>q \<in> dom (heap s). snd q \<noteq> next_ptr s" using that unfolding shard_ok_def by (metis less_irrefl)
    then have "(h, next_ptr s) \<notin> dom (heap s)" "next_ptr s \<notin> snd ` dom (heap s)" by force+
    with that show ?thesis unfolding shard_ok_def by (auto simp: less_Suc_eq)
  qed
  then show ?thesis by (auto simp: foot_def frame_def comp_defs linked_def keeps_session_def keeps_hosts_def)
qed

lemma foot_NewNode [foot_intros]: "foot A (NewNode E C h)"
  unfolding NewNode_def Let_def by (rule foot_alloc foot_intros | simp)+

lemma NewNode_allocates: "NewNode E C h s = (Ok (Inr n), s') \<Longrightarrow> (h, n) \<in> dom (heap s')"
  by (auto simp: NewNode_def Let_def attempt_def andThen_def gets_def modify_def ret_def elim!: perform_Ok
      split: sum.splits prod.splits)

lemma foot_reads_of_node [foot_intros]:
  "foot A (FQDN p)" "foot A (IsLocal C p)" "foot A (ensureConn E p)" "foot A (MatchHost E p h)"
  "foot A (RefreshAddrs E C p)" "foot A (GetIP p)" "foot A (GetIPs p)"
  unfolding FQDN_def IsLocal_def ensureConn_def MatchHost_def RefreshAddrs_def GetIP_def GetIPs_def
  by (intro foot_intros)+

lemma foot_conn_do [foot_intros]:
  assumes "read_only_cmd c \<or> may_cmds A p [c]"
  shows "foot A (conn_do E p c)"
proof (cases p)
  case None
  then show ?thesis unfolding conn_do_def get_node_def deref_def by (auto intro!: foot_intros)
next
  case (Some q)
  have "foot A (do_cmd E (fst q) c)"
    using assms Some by (intro foot_do_cmd) (auto simp: may_cmds_def)
  then show ?thesis unfolding conn_do_def Some deref_def
    by (simp add: foot_perform foot_get_node foot_if foot_halt)
qed

lemma foot_conn_err [foot_intros]:
  "read_only_cmd c \<or> may_cmds A p [c] \<Longrightarrow> foot A (conn_err E p c)"
  unfolding conn_err_def by (intro foot_intros)

lemma foot_send [foot_intros]:
  "read_only_cmd c \<or> may_cmds A p [c] \<Longrightarrow> foot A (send E p c)"
  unfolding send_def by (intro foot_intros)

lemma foot_node_queries [foot_intros]:
  "foot A (configGet E p key)" "foot A (get_flag E p key)" "foot A (IsReplPaused E p)"
  "foot A (IsOffline E p)" "foot A (GetNumQuorumReplicas E p)" "foot A (GetQuorumReplicas E p)"
  "foot A (GetAppendonly E p)" "foot A (cluster_nodes E p)" "foot A (IsClusterMajorityAlive E p)"
  "foot A (IsClusterNodeAlone E p)" "foot A (HasClusterSlots E p)" "foot A (EvaluatePing p)"
  "foot A (ClusterGetID E p)"
  unfolding configGet_def get_flag_def IsReplPaused_def IsOffline_def GetNumQuorumReplicas_def
    GetQuorumReplicas_def GetAppendonly_def cluster_nodes_def IsClusterMajorityAlive_def
    IsClusterNodeAlone_def HasClusterSlots_def EvaluatePing_def ClusterGetID_def
    configGet_def get_flag_def cluster_nodes_def
  by (rule foot_intros | simp split: num_error.split)+

lemma foot_GetState [foot_intros]: "foot A (GetState E C p)"
  unfolding GetState_def GetState_failed_def Let_def by (rule foot_intros | simp)+

definition setting :: "string \<Rightarrow> string \<Rightarrow> vcmd list" where
  "setting key val = [ConfigSet key val, ConfigRewrite]"

lemma foot_set [foot_intros]:
  "may_cmds A p (setting key val) \<Longrightarrow> foot A (set_and_rewrite E p key val)"
  "may_cmds A p (setting key val) \<Longrightarrow> foot A (set_then_rewrite E p key val)"
  unfolding set_and_rewrite_def set_then_rewrite_def configRewrite_def setting_def
  by (rule foot_intros disjI2 | erule may_cmds_mono | simp)+

text \<open>The commands of the composed methods.\<close>

definition readonly_cmds :: "vcmd list" where
  "readonly_cmds = [ConfigSet ''min-replicas-to-write'' (itoa highMinReplicas), ConfigRewrite,
     ClientKillType ''normal'', ClientKillType ''pubsub'']"

definition online_cmds :: "vcmd list" where "online_cmds = [ConfigSet ''offline'' ''no'']"

definition offline_cmds :: "vcmd list" where
  "offline_cmds = ConfigSet ''offline'' ''yes'' # readonly_cmds"

lemma foot_node_commands [foot_intros]:
  "may_cmds A p (setting ''repl-paused'' ''yes'') \<Longrightarrow> foot A (PauseReplication E p)"
  "may_cmds A p (setting ''repl-paused'' ''no'') \<Longrightarrow> foot A (ResumeReplication E p)"
  "may_cmds A p [ClientKillType t] \<Longrightarrow> foot A (DisconnectClients E p t)"
  "may_cmds A p (setting ''min-replicas-to-write'' ''0'') \<Longrightarrow> foot A (SetReadWrite E p)"
  "may_cmds A p online_cmds \<Longrightarrow> foot A (SetOnline E C p)"
  "may_cmds A p (setting ''quorum-replicas-to-write'' (itoa n)) \<Longrightarrow> foot A (SetNumQuorumReplicas E p n)"
  "may_cmds A p (setting ''quorum-replicas'' v) \<Longrightarrow> foot A (SetQuorumReplicas E p v)"
  "may_cmds A p (setting ''appendonly'' (if b then ''yes'' else ''no'')) \<Longrightarrow> foot A (SetAppendonly E p b)"
  "may_cmds A p [ClusterFailoverForce] \<Longrightarrow> foot A (ClusterPromoteForce E p)"
  "may_cmds A p [ClusterFailoverTakeover] \<Longrightarrow> foot A (ClusterPromoteTakeover E p)"
  "may_cmds A p [ClusterMeet a port bus] \<Longrightarrow> foot A (ClusterMeetNode E p a port bus)"
  "may_cmds A p [ScriptKill] \<Longrightarrow> foot A (NodeScriptKill E p)"
  unfolding PauseReplication_def ResumeReplication_def DisconnectClients_def SetReadWrite_def
    SetOnline_def SetNumQuorumReplicas_def SetQuorumReplicas_def SetAppendonly_def
    ClusterPromoteForce_def ClusterPromoteTakeover_def ClusterMeetNode_def NodeScriptKill_def online_cmds_def
  by (rule foot_intros disjI2 | assumption)+

lemma foot_SetReadOnly [foot_intros]: "may_cmds A p readonly_cmds \<Longrightarrow> foot A (SetReadOnly E p b)"
  unfolding SetReadOnly_def configRewrite_def readonly_cmds_def
  by (rule foot_intros disjI2 | erule may_cmds_mono | simp)+

text \<open>Without the request to disconnect, clients are left alone.\<close>
lemma foot_SetReadOnly_keep [foot_first]:
  "may_cmds A p (setting ''min-replicas-to-write'' (itoa highMinReplicas)) \<Longrightarrow>
   foot A (SetReadOnly E p False)"
  unfolding SetReadOnly_def configRewrite_def setting_def
  by (rule foot_intros disjI2 | erule may_cmds_mono | simp)+

lemma foot_SetOffline [foot_intros]: "may_cmds A p offline_cmds \<Longrightarrow> foot A (SetOffline E C p)"
  unfolding SetOffline_def offline_cmds_def
  by (rule foot_intros disjI2 | erule may_cmds_mono | simp | force)+

lemma foot_EmptyQuorumReplicas [foot_intros]:
  "may_cmds A p (setting ''quorum-replicas'' []) \<Longrightarrow> foot A (EmptyQuorumReplicas E p)"
  unfolding EmptyQuorumReplicas_def by (rule foot_intros | assumption)+

definition replica_cmds :: "vcmd \<Rightarrow> vcmd list" where
  "replica_cmds c = c # setting ''quorum-replicas'' []"

lemma foot_ClusterMakeReplica [foot_intros]:
  "may_cmds A p (replica_cmds (ClusterReplicate i)) \<Longrightarrow> foot A (ClusterMakeReplica E p i)"
  unfolding ClusterMakeReplica_def replica_cmds_def
  by (rule foot_intros disjI2 | erule may_cmds_mono | force)+

lemma foot_SentinelMakeReplica [foot_intros]:
  "may_cmds A p (replica_cmds (Replicaof target (vc_Port (c_Valkey C)))) \<Longrightarrow>
   foot A (SentinelMakeReplica E C p target)"
  unfolding SentinelMakeReplica_def replica_cmds_def configRewrite_def
  by (rule foot_intros disjI2 | erule may_cmds_mono | force simp: setting_def)+

lemma foot_SentinelPromote [foot_intros]:
  "may_cmds A p [ReplicaofNoOne, ConfigRewrite] \<Longrightarrow> foot A (SentinelPromote E p)"
  unfolding SentinelPromote_def configRewrite_def
  by (rule foot_intros disjI2 | erule may_cmds_mono | force)+

lemma foot_Restart [foot_intros]:
  "(\<And>a r. p_ev A (EvExec a r)) \<Longrightarrow> foot A (Restart E C p)"
  unfolding Restart_def by (rule foot_intros | simp)+

section \<open>The INFO text\<close>

text \<open>
  A printer for the text INFO answers: lines of a key and a value, and lines without a colon
  (section titles). The parser of \<open>GetState\<close> gives the pairs back, the last line first.
\<close>

fun info_line :: "string + string \<times> string \<Rightarrow> string" where
  "info_line (Inl title) = title @ CRLF"
| "info_line (Inr (k, v)) = k @ '':'' @ v @ CRLF"

definition info_text :: "(string + string \<times> string) list \<Rightarrow> string" where
  "info_text ls = concat (map info_line ls)"

fun info_line_ok :: "string + string \<times> string \<Rightarrow> bool" where
  "info_line_ok (Inl title) = (CHR '':'' \<notin> set title \<and> CHR 0x0D \<notin> set title)"
| "info_line_ok (Inr (k, v)) = (CHR '':'' \<notin> set k \<and> CHR 0x0D \<notin> set k \<and> CHR 0x0D \<notin> set v)"

definition info_pairs :: "(string + string \<times> string) list \<Rightarrow> (string \<times> string) list" where
  "info_pairs ls = List.map_filter (\<lambda>l. case l of Inl t \<Rightarrow> None | Inr kv \<Rightarrow> Some kv) ls"

lemma str_index_skip:
  "c \<notin> set w \<Longrightarrow> str_index (w @ c # rest) [c] = Some (length w)"
  by (induction w) (auto simp: HasPrefix_def)

lemma str_index_none: "c \<notin> set w \<Longrightarrow> str_index w (c # sub) = None"
  by (induction w) (auto simp: HasPrefix_def)

lemma str_index_CRLF:
  "CHR 0x0D \<notin> set w \<Longrightarrow> str_index (w @ CRLF @ rest) CRLF = Some (length w)"
  unfolding CRLF_def by (induction w) (auto simp: HasPrefix_def)

lemma parse_info_line:
  assumes "info_line_ok l"
  shows "parse_info res (info_line l @ rest) =
    parse_info ((case l of Inl t \<Rightarrow> [] | Inr kv \<Rightarrow> [kv]) @ res) rest"
proof (cases l)
  case (Inl t)
  with assms have "str_index t '':'' = None" by (auto intro: str_index_none)
  with Inl assms show ?thesis
    by (subst parse_info.simps) (simp add: str_index_CRLF str_cut_def, simp add: CRLF_def)
next
  case (Inr kv)
  obtain k v where kv: "kv = (k, v)" by (cases kv)
  have "str_index (k @ CHR '':'' # v) '':'' = Some (length k)"
    using assms Inr kv by (intro str_index_skip) simp
  moreover have "str_index ((k @ CHR '':'' # v) @ CRLF @ rest) CRLF = Some (length (k @ CHR '':'' # v))"
    using assms Inr kv by (intro str_index_CRLF) simp
  ultimately show ?thesis
    using Inr kv by (subst parse_info.simps) (simp add: str_cut_def, simp add: CRLF_def numeral_3_eq_3)
qed

lemma parse_info_lines:
  assumes "list_all info_line_ok ls" and "CHR 0x0D \<notin> set partial"
  shows "parse_info res (info_text ls @ partial) = rev (info_pairs ls) @ res"
  using assms(1)
proof (induction ls arbitrary: res)
  case Nil
  have "str_index partial CRLF = None" using assms(2) by (simp add: CRLF_def str_index_none)
  then show ?case by (subst parse_info.simps) (simp add: info_text_def info_pairs_def map_filter_simps)
next
  case (Cons l ls)
  then have "parse_info res (info_text (l # ls) @ partial) =
      parse_info ((case l of Inl t \<Rightarrow> [] | Inr kv \<Rightarrow> [kv]) @ res) (info_text ls @ partial)"
    using parse_info_line [of l res "info_text ls @ partial"] by (simp add: info_text_def)
  with Cons show ?case by (cases l) (simp_all add: info_pairs_def map_filter_simps)
qed

text \<open>
  C35 Round trip of the INFO text: the parser of \<open>GetState\<close> gives back every key and value of its complete
  lines, the latest first, and ignores titles and a last line that is cut.
\<close>
theorem parse_info_text:
  assumes "list_all info_line_ok ls" and "CHR 0x0D \<notin> set partial"
  shows "parse_info [] (info_text ls @ partial) = rev (info_pairs ls)"
  using parse_info_lines [OF assms, of "[]"] by simp

theorem parse_info_text_witness:
  "parse_info [] (info_text [Inl ''# Server'', Inr (''role'', ''slave''), Inr (''id'', ''a:b'')] @ ''cut'') =
   [(''id'', ''a:b''), (''role'', ''slave'')]"
  using parse_info_text [of "[Inl ''# Server'', Inr (''role'', ''slave''), Inr (''id'', ''a:b'')]" "''cut''"]
  by (simp add: info_pairs_def map_filter_simps)

section \<open>The window of recent results\<close>

lemma push_window:
  assumes "0 \<le> c_PingStable C" and "rs = drop (length bs - nat (c_PingStable C)) bs"
  shows "push_result C b rs = drop (length (bs @ [b]) - nat (c_PingStable C)) (bs @ [b])"
proof (cases "length bs < nat (c_PingStable C)")
  case True
  then have "\<not> c_PingStable C < 1 + int (length bs)" by (simp add: zless_nat_eq_int_zless)
  with True assms show ?thesis by (simp add: push_result_def Let_def)
next
  case False
  with assms have "int (length (rs @ [b])) > c_PingStable C" by simp
  then have "push_result C b rs = tl (rs @ [b])" by (simp add: push_result_def)
  also have "rs @ [b] = drop (length bs - nat (c_PingStable C)) (bs @ [b])" using assms(2) by simp
  also have "tl (drop (length bs - nat (c_PingStable C)) (bs @ [b])) =
      drop (Suc (length bs - nat (c_PingStable C))) (bs @ [b])"
    by (simp only: drop_Suc tl_drop)
  also have "Suc (length bs - nat (c_PingStable C)) = length (bs @ [b]) - nat (c_PingStable C)"
    using False by simp
  finally show ?thesis .
qed

lemma foldl_ping: "foldl (\<lambda>(res, stable) result. if result then (True, stable) else (res, False)) (a, c) rs =
    (a \<or> True \<in> set rs, c \<and> False \<notin> set rs)"
  by (induction rs arbitrary: a c) auto

text \<open>
  The window of ping results: a node whose results were appended one by one answers
  \<open>EvaluatePing\<close> with whether some, and whether all, of the last \<open>PingStable\<close> results are good.
\<close>
theorem ping_window:
  assumes "0 \<le> c_PingStable C" and "heap s r = Some n"
    and "n_infoResults n = foldl (\<lambda>rs b. push_result C b rs) [] results"
  shows "EvaluatePing (Some r) s =
    (Ok (True \<in> set (drop (length results - nat (c_PingStable C)) results),
         False \<notin> set (drop (length results - nat (c_PingStable C)) results)), s)"
proof -
  have "foldl (\<lambda>rs b. push_result C b rs) [] bs = drop (length bs - nat (c_PingStable C)) bs" for bs
    by (induction bs rule: rev_induct) (simp_all add: push_window [OF assms(1)])
  with assms(2,3) show ?thesis
    by (simp add: EvaluatePing_def get_node_def perform_def deref_def ret_def gets_def foldl_ping)
qed

theorem ping_window_witness:
  "EvaluatePing (Some (''h1'', 0)) (sample_state\<lparr>heap := [(''h1'', 0) \<mapsto>
      sample_node\<lparr>n_infoResults := [True, False, True]\<rparr>]\<rparr>) =
    (Ok (True, False), sample_state\<lparr>heap := [(''h1'', 0) \<mapsto>
      sample_node\<lparr>n_infoResults := [True, False, True]\<rparr>]\<rparr>)"
  using ping_window [of sample_config "sample_state\<lparr>heap := [(''h1'', 0) \<mapsto>
      sample_node\<lparr>n_infoResults := [True, False, True]\<rparr>]\<rparr>" "(''h1'', 0)"
      "sample_node\<lparr>n_infoResults := [True, False, True]\<rparr>" "[False, True, False, True]"]
  by (simp add: sample_config_def push_result_def)

end
