(* ===== verification/Shard.thy ===== *)
theory Shard
  imports Node
begin

text \<open>
  The set of valkey nodes of the shard: internal/valkey/shard.go. The map from host to node keeps
  pointers; the local node has a pointer of its own, which survives the removal of the local host.
  (The mutex is not modelled: each operation runs alone.)
\<close>

definition PathHANodesPrefix :: string where "PathHANodesPrefix = ''ha_nodes''"

definition GetShardHostsFromDcs :: "env \<Rightarrow> Config \<Rightarrow> (goerr + string list) M" where
  "GetShardHostsFromDcs E C = perform (dcs_GetChildren E C PathHANodesPrefix) (\<lambda>r. case r of
     Inl e \<Rightarrow> if err_is e ErrNotFound then ret (Inr []) else ret (Inl e)
   | Inr fqdns \<Rightarrow> ret (Inr fqdns))"

text \<open>The body of the first loop of \<open>UpdateHostsInfo\<close>.\<close>
definition add_host :: "env \<Rightarrow> Config \<Rightarrow> string \<Rightarrow> goerr option M" where
  "add_host E C host = perform (gets shard_nodes) (\<lambda>nodes.
     if map_of nodes host \<noteq> None then ret None
     else attempt_err (NewNode E C host) (\<lambda>n.
       andThen (modify (\<lambda>s. s\<lparr>shard_nodes := (host, n) # shard_nodes s,
           shard_local := (if shard_local s = None \<and> host = c_Hostname C then Some n
                           else shard_local s)\<rparr>))
         (ret None)))"

text \<open>Hosts which are no longer in the DCS leave the map.\<close>
definition drop_hosts :: "string list \<Rightarrow> unit M" where
  "drop_hosts hosts = modify (\<lambda>s. s\<lparr>shard_nodes :=
     filter (\<lambda>(h, n). h \<in> set hosts) (shard_nodes s)\<rparr>)"

definition UpdateHostsInfo :: "env \<Rightarrow> Config \<Rightarrow> goerr option M" where
  "UpdateHostsInfo E C = attempt_err (GetShardHostsFromDcs E C) (\<lambda>hosts.
     perform (any_order E (remdups hosts)) (\<lambda>order.
     checked (checked_each (add_host E C) order)
       (andThen (drop_hosts hosts) (ret None))))"

definition shard_Get :: "string \<Rightarrow> nodeP M" where
  "shard_Get host = gets (\<lambda>s. map_option (\<lambda>n. (host, n)) (map_of (shard_nodes s) host))"

definition shard_Local :: "Config \<Rightarrow> nodeP M" where
  "shard_Local C = gets (\<lambda>s. map_option (\<lambda>n. (c_Hostname C, n)) (shard_local s))"

definition shard_Hosts :: "string list M" where
  "shard_Hosts = gets (\<lambda>s. sort (map fst (shard_nodes s)))"

definition GetNodeConfiguration :: "env \<Rightarrow> Config \<Rightarrow> string \<Rightarrow> (goerr + NodeConfiguration) M" where
  "GetNodeConfiguration E C host =
     perform (dcs_Get E C as_node (JoinPath [PathHANodesPrefix, host])) (\<lambda>r. case r of
       Inr nc \<Rightarrow> ret (Inr nc)
     | Inl e \<Rightarrow> if \<not> err_is e ErrNotFound \<and> \<not> err_is e ErrMalformed
              then ret (Inl (Wrap (''failed to get Priority for host '' @ host) e))
              else ret (Inr DefaultNodeConfiguration))"

section \<open>Footprints\<close>

text \<open>
  A pointer the shard gives for a host is a pointer to that host, so a permit for the commands of a
  host covers what is done through the pointer.
\<close>

definition ptr_to :: "string \<Rightarrow> nodeP \<Rightarrow> bool" where
  "ptr_to h p \<longleftrightarrow> (\<forall>q. p = Some q \<longrightarrow> fst q = h)"

definition host_may :: "permit \<Rightarrow> string \<Rightarrow> (vcmd \<Rightarrow> bool) \<Rightarrow> bool" where
  "host_may A h P \<longleftrightarrow> (\<forall>c r. P c \<longrightarrow> p_ev A (EvCmd h c r))"

lemma host_mayD: "host_may A h P \<Longrightarrow> P c \<Longrightarrow> p_ev A (EvCmd h c r)"
  by (simp add: host_may_def)

lemma host_may_mono: "host_may A h P \<Longrightarrow> (\<And>c. Q c \<Longrightarrow> P c) \<Longrightarrow> host_may A h Q"
  by (simp add: host_may_def)

lemma may_cmds_host: "host_may A h P \<Longrightarrow> ptr_to h p \<Longrightarrow> list_all P cs \<Longrightarrow> may_cmds A p cs"
  by (auto simp: may_cmds_def ptr_to_def host_may_def list_all_iff)

lemma foot_shard_Get [foot_first]:
  "(\<And>p. ptr_to h p \<Longrightarrow> foot A (k p)) \<Longrightarrow> foot A (perform (shard_Get h) k)"
  unfolding foot_def perform_def shard_Get_def gets_def ptr_to_def by force

lemma foot_shard_Local [foot_first]:
  "(\<And>p. ptr_to (c_Hostname C) p \<Longrightarrow> foot A (k p)) \<Longrightarrow> foot A (perform (shard_Local C) k)"
  unfolding foot_def perform_def shard_Local_def gets_def ptr_to_def by force

lemma foot_FQDN [foot_first]:
  "ptr_to h p \<Longrightarrow> foot A (k h) \<Longrightarrow> foot A (perform (FQDN p) k)"
  by (cases p) (auto simp: ptr_to_def FQDN_def deref_def foot_halt)

lemma foot_shard_reads [foot_intros]:
  "foot A shard_Hosts" "foot A (GetShardHostsFromDcs E C)" "foot A (GetNodeConfiguration E C h)"
  unfolding shard_Hosts_def GetShardHostsFromDcs_def GetNodeConfiguration_def by (intro foot_intros)+

text \<open>The new host has a node, and it is the local node at most on the local host.\<close>
lemma foot_add_host:
  assumes "p_hosts A (c_Hostname C)"
  shows "foot A (add_host E C h)"
proof (rule footI)
  fix s r s' assume run: "add_host E C h s = (r, s')"
  let ?join = "\<lambda>n. modify (\<lambda>s. s\<lparr>shard_nodes := (h, n) # shard_nodes s, shard_local :=
      (if shard_local s = None \<and> h = c_Hostname C then Some n else shard_local s)\<rparr>)"
  show "frame A s r s'"
  proof (cases "map_of (shard_nodes s) h")
    case (Some m)
    with run show ?thesis by (auto simp: add_host_def comp_defs)
  next
    case None
    obtain q t where node: "NewNode E C h s = (q, t)" by (cases "NewNode E C h s")
    note f = footD [OF foot_NewNode [of nothing] node]
    have n: "frame A s q t" by (rule footD [OF foot_NewNode node])
    from f have same: "shard_nodes t = shard_nodes s" by (simp add: frame_def keeps_hosts_def nothing_def)
    show ?thesis
    proof (cases "\<exists>m. q = Ok (Inr m)")
      case False
      with run None node n show ?thesis
        by (cases q) (auto simp: add_host_def attempt_err_def comp_defs frame_def returns_def split: sum.splits)
    next
      case True
      then obtain m where m: "q = Ok (Inr m)" by blast
      have s': "r = Ok None" "s' = snd (?join m t)"
        using run None node m by (simp_all add: add_host_def attempt_err_def comp_defs)
      have "shard_ok h' s'" if "shard_ok h' t" "h' = c_Hostname C" for h'
        using that NewNode_allocates [OF node [unfolded m]] None same unfolding s'(2) shard_ok_def
        by (auto simp: modify_def map_of_eq_None_iff)
      then have "frame A t r s'"
        using assms by (auto simp: s' frame_def keeps_hosts_def modify_def linked_def keeps_session_def)
      with n m show ?thesis by (auto intro: frame_trans)
    qed
  qed
qed

lemma foot_drop_hosts:
  assumes "p_hosts A h"
  shows "foot A (drop_hosts hosts)"
proof -
  have "shard_ok h' (s\<lparr>shard_nodes := filter (\<lambda>(h, n). h \<in> set hosts) (shard_nodes s)\<rparr>)" if "shard_ok h' s" for h' s
    using that unfolding shard_ok_def by (auto simp: distinct_map_filter)
  with assms show ?thesis
    by (auto simp: foot_def frame_def drop_hosts_def modify_def linked_def keeps_session_def keeps_hosts_def)
qed

lemma foot_UpdateHostsInfo [foot_intros]: "p_hosts A (c_Hostname C) \<Longrightarrow> foot A (UpdateHostsInfo E C)"
  unfolding UpdateHostsInfo_def by (rule foot_intros foot_add_host foot_drop_hosts | assumption)+

end
