(* ===== verification/HostStates.thy ===== *)
theory HostStates
  imports Shard "HOL-Library.Multiset"
begin

text \<open>
  Looking at hosts: internal/app/state.go, internal/app/parallel.go and \<open>getLocalState\<close> of
  internal/app/local.go. A \<open>map[string]*HostState\<close> is an association list with distinct keys; a
  loop over it visits it in an order of the environment's choosing. Goroutines over hosts run one
  after the other in an order of the environment's choosing: each talks to its own host, and the
  environment's answers depend on the whole history.
\<close>

type_synonym shard_state = "(string \<times> HostState) list"

text \<open>\<open>app.mode\<close> and \<open>app.aofMode\<close>, which \<open>NewApp\<close> sets once; it fails on an unknown text.\<close>
definition app_mode :: "Config \<Rightarrow> appMode" where
  "app_mode C = (case parseMode (c_Mode C) of Inr m \<Rightarrow> m | Inl e \<Rightarrow> modeSentinel)"

definition app_aofMode :: "Config \<Rightarrow> aofMode" where
  "app_aofMode C = (case parseAofMode (c_AofMode C) of Inr m \<Rightarrow> m | Inl e \<Rightarrow> modeUnspecified)"

section \<open>Parallel calls\<close>

definition last_error :: "(string \<times> (goerr + 'a)) list \<Rightarrow> goerr option" where
  "last_error rs = foldl (\<lambda>acc (h, r). case r of Inl e \<Rightarrow> Some e | Inr x \<Rightarrow> acc) None rs"

definition good_results :: "(string \<times> (goerr + 'a)) list \<Rightarrow> (string \<times> 'a) list" where
  "good_results rs = List.map_filter (\<lambda>(h, r). case r of Inl e \<Rightarrow> None | Inr x \<Rightarrow> Some (h, x)) rs"

definition getHostStatesInParallel ::
  "env \<Rightarrow> string list \<Rightarrow> (string \<Rightarrow> (goerr + HostState) M) \<Rightarrow> (goerr + shard_state) M" where
  "getHostStatesInParallel E hosts getter =
     perform (any_order E hosts) (\<lambda>order.
     perform (collect (\<lambda>h. perform (getter h) (\<lambda>r. ret (h, r))) order) (\<lambda>rs.
       ret (case last_error rs of Some e \<Rightarrow> Inl e | None \<Rightarrow> Inr (good_results rs))))"

text \<open>The map from argument to error; a repeated argument keeps its last result.\<close>
type_synonym errs = "(string \<times> goerr option) list"

definition runParallel :: "env \<Rightarrow> (string \<Rightarrow> goerr option M) \<Rightarrow> string list \<Rightarrow> errs M" where
  "runParallel E f arguments =
     perform (any_order E arguments) (\<lambda>order.
     perform (collect (\<lambda>h. perform (f h) (\<lambda>e. ret (h, e))) order) (\<lambda>rs. ret (rev rs)))"

text \<open>Reading the map of errors: a missing key is nil.\<close>
definition err_at :: "errs \<Rightarrow> string \<Rightarrow> goerr option" where
  "err_at errs h = (case map_of errs h of None \<Rightarrow> None | Some e \<Rightarrow> e)"

definition combineErrors :: "errs \<Rightarrow> goerr option" where
  "combineErrors errs =
     (let msgs = List.map_filter (\<lambda>(h, e). map_option (\<lambda>x. err_msg x @ '';'') e) errs
      in if concat msgs \<noteq> [] then Some (Errorf (concat msgs)) else None)"

text \<open>\<open>range\<close> over a map of states.\<close>
definition range_states :: "env \<Rightarrow> shard_state \<Rightarrow> shard_state M" where
  "range_states E ss = perform (any_order E (map fst ss)) (\<lambda>order.
     ret (List.map_filter (\<lambda>h. map_option (Pair h) (map_of ss h)) order))"

text \<open>\<open>shardState[host]\<close> where the code goes on to read a field: a missing host panics.\<close>
definition state_at :: "shard_state \<Rightarrow> string \<Rightarrow> HostState M" where
  "state_at ss h = deref (map_of ss h)"

section \<open>Reading INFO\<close>

text \<open>
  The pieces of \<open>getHostState\<close>. \<open>Inl\<close> is the state returned early, with its error set; \<open>Inr\<close> goes on.
  \<open>need\<close> looks a key up, \<open>number\<close> parses an \<open>int64\<close> (the field is assigned even when parsing fails).
\<close>

type_synonym 's step = "('s, HostState + HostState) comp"

definition fail_state :: "HostState \<Rightarrow> string \<Rightarrow> 's step" where
  "fail_state hs msg = ret (Inl (hs\<lparr>hs_Error := msg\<rparr>))"

definition need :: "info \<Rightarrow> string \<Rightarrow> string \<Rightarrow> HostState \<Rightarrow> (string \<Rightarrow> 's step) \<Rightarrow> 's step" where
  "need info key msg hs k = (case map_of info key of None \<Rightarrow> fail_state hs msg | Some v \<Rightarrow> k v)"

definition num_error_msg :: "string \<Rightarrow> num_error \<Rightarrow> string" where
  "num_error_msg v e = num_error_text ''ParseInt'' v e"

definition number :: "string \<Rightarrow> (int \<Rightarrow> HostState) \<Rightarrow> (int \<Rightarrow> 's step) \<Rightarrow> 's step" where
  "number v on_err k = (case ParseInt 64 v of
     (n, Some e) \<Rightarrow> fail_state (on_err n) (num_error_msg v e)
   | (n, None) \<Rightarrow> k n)"

text \<open>\<open>run_id\<close> to \<open>repl_backlog_histlen\<close>.\<close>
definition read_common :: "info \<Rightarrow> HostState \<Rightarrow> 's step" where
  "read_common info hs =
     need info ''run_id'' ''No run_id in info'' hs (\<lambda>v.
     let hs = hs\<lparr>hs_RunID := v\<rparr> in
     need info ''master_replid'' ''No master_replid in info'' hs (\<lambda>v.
     let hs = hs\<lparr>hs_ReplicationID := v\<rparr> in
     need info ''master_replid2'' ''No master_replid2 in info'' hs (\<lambda>v.
     let hs = hs\<lparr>hs_ReplicationID2 := v\<rparr> in
     need info ''master_repl_offset'' ''No master_repl_offset in info'' hs (\<lambda>v.
     number v (\<lambda>n. hs\<lparr>hs_MasterReplicationOffset := n\<rparr>) (\<lambda>n.
     let hs = hs\<lparr>hs_MasterReplicationOffset := n\<rparr> in
     need info ''second_repl_offset'' ''No second_repl_offset in info'' hs (\<lambda>v.
     number v (\<lambda>n. hs\<lparr>hs_SecondReplicationOffset := n\<rparr>) (\<lambda>n.
     let hs = hs\<lparr>hs_SecondReplicationOffset := n\<rparr> in
     need info ''repl_backlog_first_byte_offset'' ''No repl_backlog_first_byte_offset in info'' hs (\<lambda>v.
     number v (\<lambda>n. hs\<lparr>hs_ReplicationBacklogStart := n\<rparr>) (\<lambda>n.
     let hs = hs\<lparr>hs_ReplicationBacklogStart := n\<rparr> in
     need info ''repl_backlog_histlen'' ''No repl_backlog_histlen in info'' hs (\<lambda>v.
     number v (\<lambda>n. hs\<lparr>hs_ReplicationBacklogSize := n\<rparr>) (\<lambda>n.
     ret (Inr (hs\<lparr>hs_ReplicationBacklogSize := n\<rparr>)))))))))))))"

text \<open>
  The address in a \<open>slaveN\<close> value, \<open>replicaValue[start+1:end]\<close>. An absent \<open>=\<close> gives start 0; an
  absent comma, or one before the \<open>=\<close>, is a slice out of bounds.
\<close>
definition replica_addr :: "string \<Rightarrow> string option" where
  "replica_addr v =
     (let from = (case str_index v ''='' of None \<Rightarrow> 0 | Some i \<Rightarrow> Suc i)
      in case str_index v '','' of
           None \<Rightarrow> None
         | Some to \<Rightarrow> if from \<le> to then Some (drop from (take to v)) else None)"

primrec connected_replicas :: "info \<Rightarrow> nat list \<Rightarrow> ('s, string list) comp" where
  "connected_replicas info [] = ret []"
| "connected_replicas info (i # is) = (case map_of info (''slave'' @ itoa (int i)) of
     None \<Rightarrow> connected_replicas info is
   | Some v \<Rightarrow> (case replica_addr v of
       None \<Rightarrow> halt (Panic ''slice bounds out of range'')
     | Some a \<Rightarrow> perform (connected_replicas info is) (\<lambda>as. ret (a # as))))"

definition read_master :: "info \<Rightarrow> HostState \<Rightarrow> 's step" where
  "read_master info hs0 =
     (let hs = hs0\<lparr>hs_IsMaster := True\<rparr> in
      need info ''connected_slaves'' ''Master has no connected_slaves in info'' hs (\<lambda>v.
      number v (\<lambda>n. hs) (\<lambda>numReplicas.
      perform (connected_replicas info [0..<nat numReplicas]) (\<lambda>as.
        ret (Inr (hs\<lparr>hs_ConnectedReplicas := hs_ConnectedReplicas hs @ as\<rparr>))))))"

definition read_replica :: "info \<Rightarrow> HostState \<Rightarrow> 's step" where
  "read_replica info hs0 =
     (let hs = hs0\<lparr>hs_IsMaster := False\<rparr>;
          finish = (\<lambda>rs. need info ''slave_repl_offset'' ''Replica but no slave_repl_offset in info'' hs (\<lambda>v.
            number v (\<lambda>n. hs) (\<lambda>n.
              ret (Inr (hs\<lparr>hs_ReplicaState := Some (rs\<lparr>rs_ReplicationOffset := n\<rparr>)\<rparr>)))))
      in
      need info ''master_host'' ''Replica but no master_host in info'' hs (\<lambda>mh.
      need info ''master_link_status'' ''Replica but no master_link_status in info'' hs (\<lambda>linkState.
      need info ''master_sync_in_progress'' ''Replica but no master_sync_in_progress in info'' hs (\<lambda>sync.
      let rs = zero_ReplicaState\<lparr>rs_MasterHost := mh, rs_MasterLinkState := (linkState = ''up''),
                 rs_MasterSyncInProgress := (sync \<noteq> ''0'')\<rparr>
      in if \<not> rs_MasterLinkState rs \<and> \<not> rs_MasterSyncInProgress rs
         then need info ''master_link_down_since_seconds''
                ''Replica with link down but no master_link_down_since_seconds in info'' hs (\<lambda>v.
              number v (\<lambda>n. hs) (\<lambda>n. finish (rs\<lparr>rs_MasterLinkDownTime := i64 (n * 1000)\<rparr>)))
         else if rs_MasterLinkState rs \<and> \<not> rs_MasterSyncInProgress rs
         then need info ''master_last_io_seconds_ago''
                ''Replica with link up but no master_last_io_seconds_ago in info'' hs (\<lambda>v.
              number v (\<lambda>n. hs) (\<lambda>n. finish (rs\<lparr>rs_MasterLastIOSeconds := n\<rparr>)))
         else finish rs))))"

definition read_role :: "info \<Rightarrow> HostState \<Rightarrow> 's step" where
  "read_role info hs = need info ''role'' ''No role in info'' hs (\<lambda>role.
     if role = ''master'' then read_master info hs else read_replica info hs)"

section \<open>States of hosts\<close>

definition initial_state :: "Config \<Rightarrow> string \<Rightarrow> time \<Rightarrow> HostState" where
  "initial_state C fqdn t = zero_HostState\<lparr>
     hs_CheckAt := t, hs_CheckBy := c_Hostname C,
     hs_SentiCacheState :=
       (if app_mode C = modeSentinel \<and> fqdn = c_Hostname C
        then Some \<lparr> ss_Name = sc_Name (c_SentinelMode C), ss_RunID = sc_RunID (c_SentinelMode C) \<rparr>
        else None)\<rparr>"

text \<open>The end of \<open>getHostState\<close>: the settings and the address.\<close>
definition read_addresses :: "env \<Rightarrow> Config \<Rightarrow> nodeP \<Rightarrow> HostState \<Rightarrow> HostState M" where
  "read_addresses E C node hs = perform (RefreshAddrs E C node) (\<lambda>e. case e of
     Some x \<Rightarrow> ret (hs\<lparr>hs_Error := err_msg x\<rparr>)
   | None \<Rightarrow> perform (GetIP node) (\<lambda>r. case r of
       Inl x \<Rightarrow> ret (hs\<lparr>hs_Error := err_msg x\<rparr>)
     | Inr ip \<Rightarrow> ret (hs\<lparr>hs_IP := ip\<rparr>)))"

definition getHostState :: "env \<Rightarrow> Config \<Rightarrow> string \<Rightarrow> HostState M" where
  "getHostState E C fqdn =
     perform (shard_Get fqdn) (\<lambda>node.
     perform (now E) (\<lambda>t.
     perform (GetState E C node) (\<lambda>(info, minReplicasToWrite, isReadOnly, isOffline, isReplPaused, err).
     let hs0 = initial_state C fqdn t;
         hs1 = (case err of None \<Rightarrow> hs0 | Some e \<Rightarrow> hs0\<lparr>hs_Error := err_msg e\<rparr>)
     in if err \<noteq> None \<and> info = [] then ret (hs1\<lparr>hs_PingOk := False, hs_PingStable := False\<rparr>)
        else perform (EvaluatePing node) (\<lambda>(ok, stable).
          let hs2 = hs1\<lparr>hs_PingOk := ok, hs_PingStable := stable\<rparr> in
          perform (read_common info hs2) (\<lambda>r. case r of Inl hs \<Rightarrow> ret hs | Inr hs3 \<Rightarrow>
          perform (read_role info hs3) (\<lambda>r. case r of Inl hs \<Rightarrow> ret hs | Inr hs4 \<Rightarrow>
            read_addresses E C node (hs4\<lparr>hs_MinReplicasToWrite := minReplicasToWrite,
              hs_IsReadOnly := isReadOnly, hs_IsOffline := isOffline,
              hs_IsReplPaused := isReplPaused\<rparr>)))))))"

definition getShardStateFromDcs :: "env \<Rightarrow> Config \<Rightarrow> (goerr + shard_state) M" where
  "getShardStateFromDcs E C = perform shard_Hosts (\<lambda>hosts.
     getHostStatesInParallel E hosts (\<lambda>host.
       perform (dcs_Get E C as_host (JoinPath [pathHealthPrefix, host])) (\<lambda>r. case r of
         Inr hs \<Rightarrow> ret (Inr hs)
       | Inl e \<Rightarrow> if err_is e ErrNotFound then ret (Inr zero_HostState) else ret (Inl e))))"

definition getShardStateFromDB :: "env \<Rightarrow> Config \<Rightarrow> (goerr + shard_state) M" where
  "getShardStateFromDB E C = perform shard_Hosts (\<lambda>hosts.
     getHostStatesInParallel E hosts (\<lambda>host. perform (getHostState E C host) (\<lambda>hs. ret (Inr hs))))"

text \<open>\<open>getLocalState\<close>: None when there is no local node.\<close>
definition getLocalState :: "env \<Rightarrow> Config \<Rightarrow> HostState option M" where
  "getLocalState E C = perform (shard_Local C) (\<lambda>node. case node of
     None \<Rightarrow> ret None
   | Some r \<Rightarrow> perform (getHostState E C (fst r)) (\<lambda>hs. ret (Some hs)))"

section \<open>Footprints\<close>

text \<open>Looking at hosts changes nothing.\<close>

lemma foot_getHostStatesInParallel [foot_intros]:
  "(\<And>h. foot A (getter h)) \<Longrightarrow> foot A (getHostStatesInParallel E hosts getter)"
  unfolding getHostStatesInParallel_def by (intro foot_intros)

lemma foot_runParallel [foot_intros]:
  "(\<And>h. foot A (f h)) \<Longrightarrow> foot A (runParallel E f arguments)"
  unfolding runParallel_def by (intro foot_intros)

lemma foot_range_states [foot_intros]: "foot A (range_states E ss)"
  unfolding range_states_def by (intro foot_intros)

lemma foot_state_at [foot_intros]: "foot A (state_at ss h)"
  unfolding state_at_def by (intro foot_intros)

lemma foot_need [foot_intros]:
  "(\<And>v. foot A (k v)) \<Longrightarrow> foot A (need info key msg hs k)"
  unfolding need_def fail_state_def by (intro foot_intros)

lemma foot_number [foot_intros]:
  "(\<And>n. foot A (k n)) \<Longrightarrow> foot A (number v on_err k)"
  unfolding number_def fail_state_def by (intro foot_intros)

lemma foot_connected_replicas [foot_intros]: "foot A (connected_replicas info is)"
  by (induction "is") (auto intro!: foot_intros)

lemma foot_read_parts [foot_intros]:
  "foot A (read_common info hs)" "foot A (read_role info hs)"
  unfolding read_common_def read_role_def read_master_def read_replica_def Let_def
  by (intro foot_intros)+

lemma foot_getHostState [foot_intros]: "foot A (getHostState E C h)"
  unfolding getHostState_def read_addresses_def Let_def
  by (rule foot_first foot_intros)+

lemma foot_getShardState [foot_intros]:
  "foot A (getShardStateFromDcs E C)" "foot A (getShardStateFromDB E C)"
  unfolding getShardStateFromDcs_def getShardStateFromDB_def by (rule foot_intros)+

lemma foot_getLocalState [foot_intros]: "foot A (getLocalState E C)"
  unfolding getLocalState_def by (rule foot_first foot_intros)+

lemma foot_appMode [foot_intros]:
  "foot A m \<Longrightarrow> foot A m' \<Longrightarrow> foot A (case x of modeSentinel \<Rightarrow> m | modeCluster \<Rightarrow> m')"
  by (cases x) simp_all

section \<open>Visiting a map\<close>

text \<open>A loop over a map visits every entry once, in some order.\<close>

lemma any_order_run:
  obtains q where "any_order E ks s = (Ok q, s\<lparr>hist := EvOrder q # hist s\<rparr>)"
    and "set q = set ks" and "distinct ks \<Longrightarrow> distinct q"
proof -
  let ?p = "e_order E (hist s) ks"
  let ?q = "if distinct ?p \<and> set ?p = set ks \<and> distinct ks then ?p else ks"
  have "any_order E ks s = (Ok ?q, s\<lparr>hist := EvOrder ?q # hist s\<rparr>)"
    by (simp add: any_order_def comp_defs record_event_def Let_def)
  then show thesis by (rule that) auto
qed

lemma visit_set:
  assumes "distinct (map fst ss)" and "set q = set (map fst ss)"
  shows "set (List.map_filter (\<lambda>h. map_option (Pair h) (map_of ss h)) q) = set ss"
proof -
  have "set (List.map_filter (\<lambda>h. map_option (Pair h) (map_of ss h)) q) =
      {(h, st). h \<in> set q \<and> map_of ss h = Some st}"
    by (force simp: map_filter_def)
  also have "\<dots> = set ss"
    using assms by (auto simp: map_of_eq_Some_iff [OF assms(1)] dest: map_of_SomeD intro: rev_image_eqI)
  finally show ?thesis .
qed

lemma visit_keys:
  "set q \<subseteq> set (map fst ss) \<Longrightarrow>
   map fst (List.map_filter (\<lambda>h. map_option (Pair h) (map_of ss h)) q) = q"
proof (induction q)
  case (Cons h q)
  then obtain st where "map_of ss h = Some st" by (metis (no_types) list.set_intros(1) map_of_eq_None_iff not_Some_eq set_map subsetD)
  with Cons show ?case by (simp add: map_filter_def)
qed (simp add: map_filter_def)

lemma range_states_run:
  assumes "distinct (map fst ss)"
  obtains v q where "range_states E ss s = (Ok v, s\<lparr>hist := EvOrder q # hist s\<rparr>)"
    and "set v = set ss" and "distinct (map fst v)"
proof -
  obtain q where q: "any_order E (map fst ss) s = (Ok q, s\<lparr>hist := EvOrder q # hist s\<rparr>)"
      "set q = set (map fst ss)" "distinct q"
    using any_order_run [of E "map fst ss" s] assms by blast
  let ?v = "List.map_filter (\<lambda>h. map_option (Pair h) (map_of ss h)) q"
  have "range_states E ss s = (Ok ?v, s\<lparr>hist := EvOrder q # hist s\<rparr>)"
    using q(1) by (simp add: range_states_def perform_def ret_def)
  then show thesis
  proof (rule that)
    show "set ?v = set ss" by (rule visit_set [OF assms q(2)])
    show "distinct (map fst ?v)" using visit_keys [of q ss] q by simp
  qed
qed

lemma visit_perm:
  assumes "distinct (map fst ss)" and "set v = set ss" and "distinct (map fst v)"
  shows "mset v = mset ss"
  using assms by (metis distinct_map set_eq_iff_mset_eq_distinct)


section \<open>Which hosts have a state\<close>

lemma last_error_None:
  "\<forall>(h, r) \<in> set rs. \<exists>x. r = Inr x \<Longrightarrow> last_error rs = None"
  unfolding last_error_def by (induction rs) auto

lemma good_results_keys:
  "\<forall>(h, r) \<in> set rs. \<exists>x. r = Inr x \<Longrightarrow> map fst (good_results rs) = map fst rs"
  unfolding good_results_def by (induction rs) (auto simp: map_filter_simps)

text \<open>When no getter fails, the result has exactly the hosts asked for.\<close>
lemma getHostStatesInParallel_all:
  assumes "getHostStatesInParallel E hosts getter s = (Ok r, s')" and "distinct hosts"
    and "\<And>h. yields (\<lambda>r. \<exists>x. r = Inr x) (getter h)"
  shows "\<exists>ss. r = Inr ss \<and> distinct (map fst ss) \<and> set (map fst ss) = set hosts"
proof -
  obtain q where q: "any_order E hosts s = (Ok q, s\<lparr>hist := EvOrder q # hist s\<rparr>)" "set q = set hosts" "distinct q"
    using any_order_run [of E hosts s] assms(2) by blast
  let ?get = "\<lambda>h. perform (getter h) (\<lambda>r. ret (h, r))"
  obtain rs t where rs: "collect ?get q (s\<lparr>hist := EvOrder q # hist s\<rparr>) = (Ok rs, t)"
      "r = (case last_error rs of Some e \<Rightarrow> Inl e | None \<Rightarrow> Inr (good_results rs))"
    using assms(1) q(1) unfolding getHostStatesInParallel_def
    by (auto simp: ret_def elim!: perform_Ok)
  have all: "list_all2 (\<lambda>h y. fst y = h \<and> (\<exists>x. snd y = Inr x)) q rs"
    using collect_run [OF rs(1)]
    by (rule list_all2_mono) (auto simp: ret_def elim!: perform_Ok dest!: yieldsD [OF assms(3)])
  then have "map fst rs = q" and good: "\<forall>(h, r) \<in> set rs. \<exists>x. r = Inr x"
    by (induction rule: list_all2_induct) auto
  then have "map fst (good_results rs) = q" by (simp add: good_results_keys [OF good])
  moreover have "r = Inr (good_results rs)" using rs(2) last_error_None [OF good] by simp
  ultimately show ?thesis using q(2,3) by (metis list.set_map)
qed

lemma getHostState_yields: "yields (\<lambda>r. \<exists>x. r = Inr x) (perform (getHostState E C h) (\<lambda>hs. ret (Inr hs)))"
  by (intro wp_intros yields_ret) simp

text \<open>
  The state of the shard has exactly one entry per known host: a host that cannot be reached is in
  the map with the error in its state, it is not missing (much of the rest of the code indexes
  the map by host name).
\<close>
theorem getShardStateFromDB_hosts:
  assumes "getShardStateFromDB E C s = (Ok r, s')" and "distinct (map fst (shard_nodes s))"
  shows "\<exists>ss. r = Inr ss \<and> distinct (map fst ss) \<and> set (map fst ss) = fst ` set (shard_nodes s)"
proof -
  have "getHostStatesInParallel E (sort (map fst (shard_nodes s)))
      (\<lambda>host. perform (getHostState E C host) (\<lambda>hs. ret (Inr hs))) s = (Ok r, s')"
    using assms(1) by (simp add: getShardStateFromDB_def shard_Hosts_def perform_def gets_def)
  from getHostStatesInParallel_all [OF this _ getHostState_yields] assms(2) show ?thesis by simp
qed

theorem getShardStateFromDB_hosts_witness:
  "case fst (getShardStateFromDB (sample_env\<lparr>e_dial := (\<lambda>h a. Some (Raw ''refused''))\<rparr>) sample_config
       (sample_state\<lparr>heap := (\<lambda>p. Some (sample_node\<lparr>n_conn := False\<rparr>))\<rparr>)) of
     Ok r \<Rightarrow> \<exists>ss. r = Inr ss \<and> distinct (map fst ss) \<and> set (map fst ss) = {''h1'', ''h2'', ''h3''}
   | Halt h \<Rightarrow> False"
proof -
  let ?E = "sample_env\<lparr>e_dial := (\<lambda>h a. Some (Raw ''refused''))\<rparr>"
  let ?s = "sample_state\<lparr>heap := (\<lambda>p. Some (sample_node\<lparr>n_conn := False\<rparr>))\<rparr>"
  obtain r s' where run: "getShardStateFromDB ?E sample_config ?s = (r, s')" by fastforce
  have "returns (fst (getShardStateFromDB ?E sample_config ?s))" by code_simp
  with run obtain x where x: "r = Ok x" by (cases r) (simp_all add: returns_def)
  from getShardStateFromDB_hosts [OF run [unfolded x]] x run show ?thesis
    by (simp add: sample_state_def insert_commute)
qed

section \<open>A state without error is complete\<close>

text \<open>
  \<open>settled P\<close>: a step that returns early has set the error, one that goes on has \<open>P\<close>.
\<close>
definition settled :: "(HostState \<Rightarrow> bool) \<Rightarrow> HostState + HostState \<Rightarrow> bool" where
  "settled P r = (case r of Inl hs \<Rightarrow> hs_Error hs \<noteq> [] | Inr hs \<Rightarrow> P hs)"

definition has_role :: "HostState \<Rightarrow> bool" where
  "has_role hs \<longleftrightarrow> hs_IsMaster hs \<or> hs_ReplicaState hs \<noteq> None"

lemma yields_fail [wp_intros]: "msg \<noteq> [] \<Longrightarrow> yields (settled P) (fail_state hs msg)"
  by (simp add: fail_state_def settled_def yields_ret)

lemma num_error_msg_text [simp]: "num_error_msg v e \<noteq> []"
  by (simp add: num_error_msg_def num_error_text_def)

lemma yields_need [wp_intros]:
  "msg \<noteq> [] \<Longrightarrow> (\<And>v. yields (settled P) (k v)) \<Longrightarrow> yields (settled P) (need info key msg hs k)"
  unfolding need_def by (intro wp_intros)

lemma yields_number [wp_intros]:
  "(\<And>n. yields (settled P) (k n)) \<Longrightarrow> yields (settled P) (number v on_err k)"
  unfolding number_def by (intro wp_intros) simp_all

lemma read_role_settled: "yields (settled has_role) (read_role info hs)"
  unfolding read_role_def read_master_def read_replica_def Let_def
  by (intro wp_intros yields_ret) (simp_all add: settled_def has_role_def)

lemma read_common_settled: "yields (settled (\<lambda>hs. True)) (read_common info hs)"
  unfolding read_common_def Let_def
  by (intro wp_intros yields_ret) (simp_all add: settled_def)

text \<open>
  A host state that answers pings and has no error has a role: it is a master, or it carries a
  replica state (the code reads through the pointer to it).
\<close>
lemma getHostState_complete:
  assumes "getHostState E C h s = (Ok hs, s')" and "hs_PingOk hs" and "hs_Error hs = []"
  shows "hs_IsMaster hs \<or> hs_ReplicaState hs \<noteq> None"
proof -
  have "yields (\<lambda>hs. hs_PingOk hs \<and> hs_Error hs = [] \<longrightarrow> has_role hs) (getHostState E C h)"
    unfolding getHostState_def read_addresses_def Let_def
    by (intro wp_intros yields_ret yields_through [OF read_role_settled]
        yields_through [OF read_common_settled]) (auto simp: settled_def has_role_def)
  from yieldsD [OF this assms(1)] assms(2,3) show ?thesis by (simp add: has_role_def)
qed

end
