(* ===== verification/Lag.thy ===== *)
theory Lag
  imports HostStates "HOL-Library.Product_Lexorder"
begin

text \<open>
  Replication positions: internal/app/lag.go. Pointers to states are options. The two choices over
  a map (\<open>findMostRecentNode\<close> and the candidates of \<open>getMostDesirableNode\<close>) take the entries in the
  order of the visit.
\<close>

definition getOffset :: "HostState option \<Rightarrow> int" where
  "getOffset state = (case state of
     None \<Rightarrow> 0
   | Some hs \<Rightarrow>
       if \<not> hs_PingOk hs then 0
       else if hs_IsMaster hs then hs_MasterReplicationOffset hs
       else (case hs_ReplicaState hs of Some rs \<Rightarrow> rs_ReplicationOffset rs | None \<Rightarrow> 0))"

definition isPartialSyncPossible :: "HostState option \<Rightarrow> HostState option \<Rightarrow> bool" where
  "isPartialSyncPossible replica master = (case (replica, master) of
     (Some r, Some m) \<Rightarrow> (case hs_ReplicaState r of
         None \<Rightarrow> False
       | Some rs \<Rightarrow>
           let psyncOffset = i64 (rs_ReplicationOffset rs + 1) in
           if hs_ReplicationID m \<noteq> hs_ReplicationID r \<and>
              (hs_ReplicationID2 m \<noteq> hs_ReplicationID r \<or>
               psyncOffset > hs_SecondReplicationOffset m) then False
           else if psyncOffset < hs_ReplicationBacklogStart m \<or>
              psyncOffset > i64 (hs_ReplicationBacklogStart m + hs_ReplicationBacklogSize m)
           then False
           else True)
   | _ \<Rightarrow> False)"

text \<open>The scan keeps the first entry whose offset beats all before it, starting from zero.\<close>
definition recent_step :: "string \<times> int \<Rightarrow> string \<times> HostState \<Rightarrow> string \<times> int" where
  "recent_step best entry =
     (let offset = getOffset (Some (snd entry))
      in if offset > snd best then (fst entry, offset) else best)"

definition most_recent_of :: "shard_state \<Rightarrow> string" where
  "most_recent_of visited = fst (foldl recent_step ([], 0) visited)"

definition findMostRecentNode :: "env \<Rightarrow> shard_state \<Rightarrow> string M" where
  "findMostRecentNode E shardState = perform (range_states E shardState) (\<lambda>visited.
     ret (most_recent_of visited))"

text \<open>The candidates: not matching \<open>switchoverFrom\<close>, and able to sync partially from the most recent.\<close>
definition desirable_candidates :: "string \<Rightarrow> HostState option \<Rightarrow> string \<Rightarrow> shard_state \<Rightarrow> string list" where
  "desirable_candidates recent recentState switchoverFrom visited =
     map fst (filter (\<lambda>(host, state).
       \<not> HasPrefix host switchoverFrom \<and>
       (host = recent \<or> isPartialSyncPossible (Some state) recentState)) visited)"

text \<open>One step of the choice: host, priority and offset of the best so far.\<close>
definition priority_step :: "string \<times> int \<times> int \<Rightarrow> string \<times> int \<times> int \<Rightarrow> string \<times> int \<times> int" where
  "priority_step best cand =
     (case (best, cand) of ((bh, bp, bo), (h, p, off)) \<Rightarrow>
        if p > bp then (h, p, off)
        else if p = bp \<and> off > bo then (h, p, off)
        else (bh, bp, bo))"

definition getMostDesirableNode :: "env \<Rightarrow> Config \<Rightarrow> shard_state \<Rightarrow> string \<Rightarrow> (goerr + string) M" where
  "getMostDesirableNode E C shardState switchoverFrom =
     perform (findMostRecentNode E shardState) (\<lambda>recent.
     perform (range_states E shardState) (\<lambda>visited.
     let recentNodes = desirable_candidates recent (map_of shardState recent) switchoverFrom visited
     in if length recentNodes < 1
        then ret (Inl (Errorf (''no hosts with psync possible from most recent one: '' @ recent)))
        else attempt (attempt_each (\<lambda>host.
               attempt (GetNodeConfiguration E C host) (\<lambda>nc.
                 ret (Inr (host, nc_Priority nc, getOffset (map_of shardState host))))) recentNodes)
               (\<lambda>cands. ret (Inr (fst (foldl priority_step ([], 0, 0) cands))))))"

section \<open>Footprints\<close>

lemma foot_findMostRecentNode [foot_intros]: "foot A (findMostRecentNode E ss)"
  unfolding findMostRecentNode_def by (intro foot_intros)

lemma foot_getMostDesirableNode [foot_intros]: "foot A (getMostDesirableNode E C ss from_host)"
  unfolding getMostDesirableNode_def Let_def by (intro foot_intros)

section \<open>Choosing the best of a list\<close>

text \<open>
  Both choices of this file are scans that keep the best entry so far. The interface: one step
  replaces the best by an entry with a strictly greater key.
\<close>

locale best_scan =
  fixes key :: "'b \<Rightarrow> 'k::linorder" and item :: "'e \<Rightarrow> 'b" and step :: "'b \<Rightarrow> 'e \<Rightarrow> 'b"
  assumes step_greater: "key b < key (item e) \<Longrightarrow> step b e = item e"
    and step_keep: "\<not> key b < key (item e) \<Longrightarrow> step b e = b"
begin

lemma step_cases: "step b e = (if key b < key (item e) then item e else b)"
  by (simp add: step_greater step_keep)

lemma step_grows: "key b \<le> key (step b e)"
  by (auto simp: step_cases intro: less_imp_le)

lemma scan_grows: "key b \<le> key (foldl step b es)"
proof (induction es arbitrary: b)
  case (Cons e es)
  from step_grows Cons.IH have "key b \<le> key (foldl step (step b e) es)" by (rule order_trans)
  then show ?case by simp
qed simp

lemma scan_maximal: "e \<in> set es \<Longrightarrow> key (item e) \<le> key (foldl step b es)"
proof (induction es arbitrary: b)
  case (Cons x es)
  have "key (item x) \<le> key (step b x)" by (simp add: step_cases not_less)
  with scan_grows [of "step b x" es] Cons show ?case by auto
qed simp

lemma scan_from: "foldl step b es = b \<or> key b < key (foldl step b es) \<and> foldl step b es \<in> item ` set es"
proof (induction es arbitrary: b)
  case (Cons e es)
  show ?case
  proof (cases "key b < key (item e)")
    case True
    then have "step b e = item e" by (rule step_greater)
    with Cons.IH [of "item e"] scan_grows [of "item e" es] True show ?thesis by auto
  next
    case False
    then have "step b e = b" by (rule step_keep)
    with Cons.IH [of b] show ?thesis by auto
  qed
qed simp

text \<open>The order of the entries decides between equal keys only.\<close>
lemma scan_order:
  assumes "set es = set es'"
  shows "key (foldl step b es) = key (foldl step b es')"
proof -
  have le: "key (foldl step b xs) \<le> key (foldl step b ys)" if "set xs = set ys" for xs ys
    using scan_from [of b xs] scan_grows [of b ys] scan_maximal [of _ ys b] that by auto
  show ?thesis using assms by (intro antisym le) auto
qed

end

definition recent_item :: "string \<times> HostState \<Rightarrow> string \<times> int" where
  "recent_item entry = (fst entry, getOffset (Some (snd entry)))"

interpretation recent: best_scan snd recent_item recent_step
  by unfold_locales (auto simp: recent_step_def recent_item_def Let_def)

interpretation desirable: best_scan "\<lambda>(h, p, off). (p, off)" id priority_step
  by unfold_locales (auto simp: priority_step_def split: prod.splits)

text \<open>The key of the result of \<open>most_recent_of\<close>, and what it is.\<close>
lemma most_recent_of_spec:
  assumes "most_recent_of visited = h"
  shows "h = [] \<and> (\<forall>(h', st) \<in> set visited. getOffset (Some st) \<le> 0) \<or>
    (\<exists>st. (h, st) \<in> set visited \<and> 0 < getOffset (Some st) \<and>
       (\<forall>(h', st') \<in> set visited. getOffset (Some st') \<le> getOffset (Some st)))"
proof -
  let ?r = "foldl recent_step ([], 0) visited"
  have max: "\<forall>(h', st) \<in> set visited. getOffset (Some st) \<le> snd ?r"
    using recent.scan_maximal [of _ visited "([], 0)"] by (force simp: recent_item_def)
  from recent.scan_from [of "([], 0)" visited] show ?thesis
  proof
    assume "?r = ([], 0)"
    with max assms show ?thesis by (auto simp: most_recent_of_def)
  next
    assume "snd ([], 0) < snd ?r \<and> ?r \<in> recent_item ` set visited"
    then obtain x where "x \<in> set visited" "?r = recent_item x" "0 < snd ?r" by auto
    with max assms show ?thesis
      by (intro disjI2 exI [of _ "snd x"]) (auto simp: most_recent_of_def recent_item_def)
  qed
qed


text \<open>
  C13 The most recent node: a host with the greatest replication offset, whatever the order in which
  Go visits the map; no host when no offset is positive.
\<close>
theorem findMostRecentNode_correct:
  assumes "distinct (map fst shardState)"
  shows "\<exists>h s'. findMostRecentNode E shardState s = (Ok h, s') \<and>
    (if \<forall>(h', st) \<in> set shardState. getOffset (Some st) \<le> 0 then h = []
     else h \<in> fst ` set shardState \<and>
       (\<forall>(h', st) \<in> set shardState. getOffset (Some st) \<le> getOffset (map_of shardState h)))"
proof -
  obtain v q where v: "range_states E shardState s = (Ok v, s\<lparr>hist := EvOrder q # hist s\<rparr>)"
      "set v = set shardState"
    using range_states_run [OF assms] by blast
  have "findMostRecentNode E shardState s = (Ok (most_recent_of v), s\<lparr>hist := EvOrder q # hist s\<rparr>)"
    using v by (simp add: findMostRecentNode_def perform_def ret_def)
  moreover from most_recent_of_spec [OF refl, of v]
  have "if \<forall>(h', st) \<in> set shardState. getOffset (Some st) \<le> 0 then most_recent_of v = []
     else most_recent_of v \<in> fst ` set shardState \<and> (\<forall>(h', st) \<in> set shardState.
        getOffset (Some st) \<le> getOffset (map_of shardState (most_recent_of v)))"
  proof
    assume "\<exists>st. (most_recent_of v, st) \<in> set v \<and> 0 < getOffset (Some st) \<and>
       (\<forall>(h', st') \<in> set v. getOffset (Some st') \<le> getOffset (Some st))"
    then obtain st where st: "(most_recent_of v, st) \<in> set shardState" "0 < getOffset (Some st)"
        "\<forall>(h', st') \<in> set shardState. getOffset (Some st') \<le> getOffset (Some st)"
      unfolding v(2) by blast
    have "map_of shardState (most_recent_of v) = Some st" using st(1) assms by simp
    moreover have "most_recent_of v \<in> fst ` set shardState" using st(1) by force
    moreover have n: "\<not> (\<forall>(h', st) \<in> set shardState. getOffset (Some st) \<le> 0)" using st by force
    ultimately show ?thesis using st(3) by (simp only: if_not_P [OF n]) simp
  qed (simp add: v(2))
  ultimately show ?thesis by blast
qed


theorem findMostRecentNode_correct_witness:
  "fst (findMostRecentNode sample_env sample_states sample_state) = Ok ''h2'' \<and>
   list_all (\<lambda>(h', st). getOffset (Some st) \<le> 5) sample_states"
proof -
  have d: "distinct (map fst sample_states)" by code_simp
  have "fst (findMostRecentNode sample_env sample_states sample_state) = Ok ''h2''" by code_simp
  moreover have "\<not> (\<forall>(h', st) \<in> set sample_states. getOffset (Some st) \<le> 0)" by code_simp
  moreover have "getOffset (map_of sample_states ''h2'') = 5" by code_simp
  ultimately show ?thesis
    using findMostRecentNode_correct [OF d, of sample_env sample_state] by (auto simp: list_all_iff split: if_splits)
qed

text \<open>The offset and priority by which the choice compares, and the hosts it compares.\<close>

definition candidate_of :: "shard_state \<Rightarrow> string \<Rightarrow> string \<Rightarrow> string \<Rightarrow> bool" where
  "candidate_of ss recent from_host h \<longleftrightarrow> h \<in> fst ` set ss \<and> \<not> HasPrefix h from_host \<and>
     (h = recent \<or> isPartialSyncPossible (map_of ss h) (map_of ss recent))"

lemma desirable_candidates_set:
  assumes "distinct (map fst ss)" and "set v = set ss"
  shows "set (desirable_candidates recent (map_of ss recent) from_host v) =
     {h. candidate_of ss recent from_host h}"
  using assms by (force simp: desirable_candidates_def candidate_of_def image_iff)

lemma best_candidate:
  assumes "fst (foldl priority_step ([], 0, 0) cands) = h" and "h \<noteq> []"
  shows "\<exists>y. (h, y) \<in> set cands \<and> (\<forall>(c, z) \<in> set cands. z \<le> y)"
proof -
  let ?best = "foldl priority_step ([], 0, 0) cands"
  obtain y where best: "?best = (h, y)" using assms(1) by (metis prod.collapse)
  have "?best \<noteq> ([], 0, 0)" using best assms(2) by auto
  with desirable.scan_from [of "([], 0, 0)" cands] best have "(h, y) \<in> set cands" by auto
  moreover have "z \<le> y" if "(c, z) \<in> set cands" for c z
    using desirable.scan_maximal [OF that, of "([], 0, 0)"] best by (auto split: prod.splits)
  ultimately show ?thesis by blast
qed

text \<open>Nobody is chosen when no candidate has a positive priority, or priority zero and a positive offset.\<close>
lemma no_candidate:
  "\<forall>(c, z) \<in> set cands. z \<le> (0, 0) \<Longrightarrow> foldl priority_step ([], 0, 0) cands = ([], 0, 0)"
  using desirable.scan_from [of "([], 0, 0)" cands] by (fastforce split: prod.splits)

definition priced :: "env \<Rightarrow> Config \<Rightarrow> shard_state \<Rightarrow> string \<Rightarrow> int \<times> int \<Rightarrow> bool" where
  "priced E C ss host z \<longleftrightarrow> snd z = getOffset (map_of ss host) \<and>
     (\<exists>nc t t'. GetNodeConfiguration E C host t = (Ok (Inr nc), t') \<and> nc_Priority nc = fst z)"

lemma getMostDesirableNode_run:
  assumes "distinct (map fst ss)" and "getMostDesirableNode E C ss from_host s = (Ok (Inr h), s')"
  obtains recent t cands where "findMostRecentNode E ss s = (Ok recent, t)"
    and "distinct (map fst cands)" and "set (map fst cands) = {c. candidate_of ss recent from_host c}"
    and "\<forall>(c, z) \<in> set cands. priced E C ss c z"
    and "fst (foldl priority_step ([], 0, 0) cands) = h"
proof -
  obtain recent t where r: "findMostRecentNode E ss s = (Ok recent, t)"
    using assms(2) unfolding getMostDesirableNode_def by (elim perform_Ok)
  obtain v q where v: "range_states E ss t = (Ok v, t\<lparr>hist := EvOrder q # hist t\<rparr>)" "set v = set ss"
      "distinct (map fst v)"
    using range_states_run [OF assms(1)] by metis
  let ?c = "desirable_candidates recent (map_of ss recent) from_host v"
  let ?f = "\<lambda>host. attempt (GetNodeConfiguration E C host) (\<lambda>nc.
       ret (Inr (host, nc_Priority nc, getOffset (map_of ss host))))"
  obtain cands t' where c: "attempt_each ?f ?c (t\<lparr>hist := EvOrder q # hist t\<rparr>) = (Ok (Inr cands), t')"
      "h = fst (foldl priority_step ([], 0, 0) cands)"
    using assms(2) r v
    by (auto simp: getMostDesirableNode_def perform_def ret_def Let_def elim!: attempt_Inr split: if_splits)
  have all: "list_all2 (\<lambda>host y. fst y = host \<and> priced E C ss host (snd y)) ?c cands"
    using attempt_each_run [OF c(1)]
    by (rule list_all2_mono) (fastforce simp: ret_def priced_def elim!: attempt_Inr)
  then have keys: "map fst cands = ?c"
    by (induction rule: list_all2_induct) auto
  show thesis
  proof (rule that [OF r])
    show "distinct (map fst cands)"
      unfolding keys using v(3) by (simp add: desirable_candidates_def distinct_map_filter)
    show "set (map fst cands) = {c. candidate_of ss recent from_host c}"
      using desirable_candidates_set [OF assms(1) v(2)] by (simp add: keys)
    show "\<forall>(c, z) \<in> set cands. priced E C ss c z"
      using all by (auto simp: in_set_conv_nth list_all2_conv_all_nth) (metis fst_conv snd_conv)
    show "fst (foldl priority_step ([], 0, 0) cands) = h" using c(2) by simp
  qed
qed

text \<open>
  C12 The most desirable node: a candidate (it has the most recent node's position or can still
  resynchronise partially with it, and its name does not start with that of the old master) that is
  best by priority, then by offset, over all candidates; the priority is the one read from the DCS.
\<close>
theorem getMostDesirableNode_correct:
  assumes "distinct (map fst ss)"
    and "getMostDesirableNode E C ss from_host s = (Ok (Inr h), s')" and "h \<noteq> []"
  shows "\<exists>recent t prio. findMostRecentNode E ss s = (Ok recent, t) \<and>
    candidate_of ss recent from_host h \<and>
    (\<forall>c. candidate_of ss recent from_host c \<longrightarrow>
       priced E C ss c (prio c) \<and> prio c \<le> prio h)"
proof -
  obtain recent t cands where r: "findMostRecentNode E ss s = (Ok recent, t)"
      "distinct (map fst cands)" "set (map fst cands) = {c. candidate_of ss recent from_host c}"
      "\<forall>(c, z) \<in> set cands. priced E C ss c z" "fst (foldl priority_step ([], 0, 0) cands) = h"
    by (rule getMostDesirableNode_run [OF assms(1,2)])
  obtain y where y: "(h, y) \<in> set cands" "\<forall>(c, z) \<in> set cands. z \<le> y"
    using best_candidate [OF r(5) assms(3)] by blast
  have h: "candidate_of ss recent from_host h" using y(1) r(3) by force
  have "priced E C ss c (the (map_of cands c)) \<and> the (map_of cands c) \<le> the (map_of cands h)"
    if "candidate_of ss recent from_host c" for c
  proof -
    from that r(3) have "c \<in> set (map fst cands)" by simp
    then obtain z where z: "(c, z) \<in> set cands" by auto
    then have "map_of cands c = Some z" "map_of cands h = Some y" using r(2) y(1) by simp_all
    with z y(2) r(4) show ?thesis by auto
  qed
  with r(1) h show ?thesis by (intro exI [of _ recent] exI [of _ t] exI [of _ "\<lambda>c. the (map_of cands c)"]) auto
qed

theorem getMostDesirableNode_correct_witness:
  "candidate_of sample_states ''h2'' ''h1'' ''h2'' \<and>
   (\<exists>prio :: string \<Rightarrow> int \<times> int. prio ''h3'' \<le> prio ''h2'')"
proof -
  have run: "fst (getMostDesirableNode sample_env sample_config sample_states ''h1'' sample_state) = Ok (Inr ''h2'')"
    and recent: "fst (findMostRecentNode sample_env sample_states sample_state) = Ok ''h2''"
    and d: "distinct (map fst sample_states)" and h3: "candidate_of sample_states ''h2'' ''h1'' ''h3''"
    by code_simp+
  from run have "getMostDesirableNode sample_env sample_config sample_states ''h1'' sample_state =
      (Ok (Inr ''h2''), snd (getMostDesirableNode sample_env sample_config sample_states ''h1'' sample_state))"
    by (metis prod.collapse)
  from getMostDesirableNode_correct [OF d this] recent h3 show ?thesis by auto
qed

end
