(* ===== verification/Replication.thy ===== *)
theory Replication
  imports Lag
begin

text \<open>
  Does a replica replicate, and is it stale: internal/app/replication.go.
\<close>

definition replicates ::
  "env \<Rightarrow> HostState option \<Rightarrow> ReplicaState option \<Rightarrow> string \<Rightarrow> nodeP \<Rightarrow> bool \<Rightarrow> bool M" where
  "replicates E masterState replicaState replicaFQDN masterNode allowSync =
     (case replicaState of
        None \<Rightarrow> ret False
      | Some rs \<Rightarrow>
          if \<not> rs_MasterLinkState rs \<and> \<not> allowSync then ret False
          else if (case masterState of None \<Rightarrow> False
                   | Some ms \<Rightarrow> replicaFQDN \<in> set (hs_ConnectedReplicas ms)) then ret True
          else (case masterNode of None \<Rightarrow> ret False
                | Some r \<Rightarrow> MatchHost E masterNode (rs_MasterHost rs)))"

definition set_dcsDivergeTime :: "time \<Rightarrow> unit M" where
  "set_dcsDivergeTime t = modify (\<lambda>s. s\<lparr>dcsDivergeTime := t\<rparr>)"

definition set_replFailTime :: "time \<Rightarrow> unit M" where
  "set_replFailTime t = modify (\<lambda>s. s\<lparr>replFailTime := t\<rparr>)"

text \<open>
  The two durations are products in \<open>time.Duration\<close>, that is in \<open>int64\<close>, and can wrap around.
\<close>
definition stale_by_link :: "duration \<Rightarrow> bool \<Rightarrow> ReplicaState \<Rightarrow> bool" where
  "stale_by_link targetLag checkOpenLag rs =
     (if \<not> rs_MasterLinkState rs
      then (if rs_MasterSyncInProgress rs \<or> checkOpenLag then True
            else rs_MasterLinkDownTime rs < 0 \<or>
                 i64 (rs_MasterLinkDownTime rs * millisecond) > targetLag)
      else rs_MasterLastIOSeconds rs < 0 \<or> i64 (rs_MasterLastIOSeconds rs * second) > targetLag)"

definition stale_lag :: "Config \<Rightarrow> bool \<Rightarrow> duration" where
  "stale_lag C checkOpenLag =
     (if checkOpenLag then vc_StaleReplicaLagOpen (c_Valkey C) else vc_StaleReplicaLagClose (c_Valkey C))"

definition isReplicaStale :: "env \<Rightarrow> Config \<Rightarrow> ReplicaState option \<Rightarrow> bool \<Rightarrow> bool M" where
  "isReplicaStale E C replicaState checkOpenLag =
     (let targetLag = stale_lag C checkOpenLag in
      case replicaState of
        None \<Rightarrow>
          perform (gets dcsDivergeTime) (\<lambda>d.
          andThen (if is_zero d then perform (now E) set_dcsDivergeTime else ret ())
          (perform (gets dcsDivergeTime) (\<lambda>d'.
           perform (time_since E d') (\<lambda>age. ret (age > targetLag)))))
      | Some rs \<Rightarrow> ret (stale_by_link targetLag checkOpenLag rs))"

text \<open>The counting loop of \<open>closeStaleReplica\<close>: (okReplicas, staleReplicas).\<close>
definition count_stale ::
  "env \<Rightarrow> Config \<Rightarrow> string \<Rightarrow> string \<Rightarrow> string \<times> HostState \<Rightarrow> int \<times> int \<Rightarrow> (int \<times> int) M" where
  "count_stale E C master localFQDN entry counts =
     (let (host, state) = entry; (okReplicas, staleReplicas) = counts in
      if host = master then ret counts
      else perform (if \<not> hs_IsReplPaused state then isReplicaStale E C (hs_ReplicaState state) False
                    else ret False) (\<lambda>stale.
        if stale then ret (okReplicas, staleReplicas + 1)
        else if host \<noteq> localFQDN then ret (okReplicas + 1, staleReplicas)
        else ret counts))"

text \<open>The DCS says the master answers: recent, good and stable.\<close>
definition master_fresh :: "env \<Rightarrow> Config \<Rightarrow> HostState \<Rightarrow> bool M" where
  "master_fresh E C ms =
     (if hs_PingOk ms \<and> hs_PingStable ms
      then perform (time_since E (hs_CheckAt ms)) (\<lambda>age. ret (age < 3 * c_HealthCheckInterval C))
      else ret False)"

definition close_stale_local :: "env \<Rightarrow> Config \<Rightarrow> string \<Rightarrow> nodeP \<Rightarrow> goerr option M" where
  "close_stale_local E C master local =
     attempt_err (getShardStateFromDcs E C) (\<lambda>shardState.
     case map_of shardState master of
       None \<Rightarrow> ret (Some (Errorf ''no master in shard state from dcs''))
     | Some ms \<Rightarrow> perform (master_fresh E C ms) (\<lambda>fresh.
         if \<not> fresh then ret None
         else perform (range_states E shardState) (\<lambda>visited.
              perform (FQDN local) (\<lambda>localFQDN.
              perform (foldM (count_stale E C master localFQDN) visited (0, 0)) (\<lambda>(okReplicas, staleReplicas).
              if okReplicas \<ge> staleReplicas
              then attempt_err (IsOffline E local) (\<lambda>offline.
                     if offline then ret None else SetOffline E C local)
              else ret None)))))"

definition closeStaleReplica :: "env \<Rightarrow> Config \<Rightarrow> string \<Rightarrow> goerr option M" where
  "closeStaleReplica E C master =
     perform (shard_Local C) (\<lambda>local.
     perform (FQDN local) (\<lambda>fqdn.
     if fqdn = master then andThen (set_dcsDivergeTime 0) (ret None)
     else attempt_err (if app_mode C = modeCluster then HasClusterSlots E local
                       else ret (Inr False)) (\<lambda>hasSlots.
       if hasSlots then ret None
       else attempt_err (IsReplPaused E local) (\<lambda>paused.
         if paused then ret None
         else perform (getHostState E C fqdn) (\<lambda>localState.
           perform (isReplicaStale E C (hs_ReplicaState localState) False) (\<lambda>stale.
           if stale
           then perform (dcs_Get E C as_switch pathCurrentSwitch) (\<lambda>r. case r of
                  Inr switchover \<Rightarrow> ret None
                | Inl e \<Rightarrow> if \<not> err_is e ErrNotFound then ret (Some e)
                         else close_stale_local E C master local)
           else andThen (set_replFailTime 0) (ret None)))))))"

section \<open>Footprints\<close>

lemma foot_replicates [foot_intros]: "foot A (replicates E ms rs h p b)"
  unfolding replicates_def by (intro foot_intros)

lemma foot_times [foot_intros]: "foot A (set_dcsDivergeTime t)" "foot A (set_replFailTime t)"
  unfolding set_dcsDivergeTime_def set_replFailTime_def by (intro foot_intros; simp)+

lemma foot_isReplicaStale [foot_intros]: "foot A (isReplicaStale E C rs b)"
  unfolding isReplicaStale_def Let_def by (intro foot_intros)

lemma foot_count_stale [foot_intros]: "foot A (count_stale E C master fqdn x counts)"
  unfolding count_stale_def Let_def by (intro foot_intros)

lemma foot_master_fresh [foot_intros]: "foot A (master_fresh E C ms)"
  unfolding master_fresh_def by (intro foot_intros)

text \<open>Closing a stale replica makes the local node offline, at most.\<close>
lemma foot_closeStaleReplica [foot_intros]:
  "host_may A (c_Hostname C) (\<lambda>c. c \<in> set offline_cmds) \<Longrightarrow> foot A (closeStaleReplica E C master)"
  unfolding closeStaleReplica_def close_stale_local_def
  by (rule foot_first foot_intros | erule may_cmds_host | assumption | simp add: list_all_iff)+

end
