(* ===== verification/Failover.thy ===== *)
theory Failover
  imports Replication
begin

text \<open>
  Counting replicas, quorums, and the decision to fail over: internal/app/failover.go, the quorum
  of internal/app/master.go, and \<open>countAliveHAReplicasWithinNodes\<close> of internal/app/switchover.go.
\<close>

section \<open>Counting\<close>

definition runs_replication :: "HostState \<Rightarrow> bool" where
  "runs_replication state \<longleftrightarrow> hs_PingOk state \<and> \<not> hs_IsOffline state \<and>
     (case hs_ReplicaState state of None \<Rightarrow> False
      | Some rs \<Rightarrow> rs_MasterLinkState rs \<or> rs_MasterSyncInProgress rs)"

definition countRunningHAReplicas :: "shard_state \<Rightarrow> int" where
  "countRunningHAReplicas shardState =
     foldl (\<lambda>cnt (host, state). if runs_replication state then cnt + 1 else cnt) 0 shardState"

definition alive_replica :: "shard_state \<Rightarrow> string \<Rightarrow> bool" where
  "alive_replica shardState hostname = (case map_of shardState hostname of
     None \<Rightarrow> False
   | Some state \<Rightarrow> hs_PingOk state \<and> hs_PingStable state \<and> hs_ReplicaState state \<noteq> None)"

definition countAliveHAReplicasWithinNodes :: "string list \<Rightarrow> shard_state \<Rightarrow> int" where
  "countAliveHAReplicasWithinNodes nodes shardState =
     foldl (\<lambda>cnt hostname. if alive_replica shardState hostname then cnt + 1 else cnt) 0 nodes"

section \<open>Quorums\<close>

definition getNumReplicasToWrite :: "string list \<Rightarrow> int" where
  "getNumReplicasToWrite activeNodes = int (length activeNodes) div 2"

definition getFailoverQuorum :: "Config \<Rightarrow> string list \<Rightarrow> int" where
  "getFailoverQuorum C activeNodes =
     (let fq = int (length activeNodes) - getNumReplicasToWrite activeNodes
      in if fq < 1 \<or> vc_AllowDataLoss (c_Valkey C) then 1 else fq)"

section \<open>The failover decision\<close>

definition performFailover :: "env \<Rightarrow> Config \<Rightarrow> string \<Rightarrow> goerr option M" where
  "performFailover E C master = perform (now E) (\<lambda>t.
     dcs_Create E C pathCurrentSwitch (JSwitch (zero_Switchover\<lparr>
       sw_From := master, sw_InitiatedBy := c_Hostname C, sw_InitiatedAt := t,
       sw_Cause := CauseAuto\<rparr>)))"

text \<open>The last check of \<open>approveFailover\<close>: the previous switchover and the cooldown.\<close>
definition check_cooldown :: "env \<Rightarrow> Config \<Rightarrow> goerr option M" where
  "check_cooldown E C = perform (dcs_Get E C as_switch pathLastSwitch) (\<lambda>r. case r of
     Inl e \<Rightarrow> if err_is e ErrNotFound then ret None else ret (Some e)
   | Inr lastSwitchover \<Rightarrow> (case sw_Result lastSwitchover of
       None \<Rightarrow> ret (Some (Errorf (''another switchover with cause '' @ sw_Cause lastSwitchover @ '' is in progress'')))
     | Some res \<Rightarrow> perform (time_since E (sr_FinishedAt res)) (\<lambda>timeAfterLastSwitchover.
         if timeAfterLastSwitchover < vc_FailoverCooldown (c_Valkey C) \<and>
            sw_Cause lastSwitchover = CauseAuto
         then ret (Some (Errorf ''not enough time from last failover''))
         else ret None)))"

definition approveFailover ::
  "env \<Rightarrow> Config \<Rightarrow> shard_state \<Rightarrow> string list \<Rightarrow> string \<Rightarrow> goerr option M" where
  "approveFailover E C shardState activeNodes master =
     checked (if vc_FailoverTimeout (c_Valkey C) > 0
       then perform (gets (\<lambda>s. time_of (nodeFailTime s) master)) (\<lambda>t0.
            perform (time_since E t0) (\<lambda>failedTime.
              if failedTime < vc_FailoverTimeout (c_Valkey C)
              then ret (Some (Errorf ''failover timeout is not yet elapsed'')) else ret None))
       else ret None)
     (if countRunningHAReplicas shardState = int (length shardState) - 1
      then ret (Some (Errorf ''all replicas are alive and running replication, seems dcs problems''))
      else if countAliveHAReplicasWithinNodes activeNodes shardState < getFailoverQuorum C activeNodes
      then ret (Some (Errorf (''no quorum, have '' @ itoa (countAliveHAReplicasWithinNodes activeNodes shardState)
        @ '' replicas while '' @ itoa (getFailoverQuorum C activeNodes) @ '' is required'')))
      else check_cooldown E C)"

section \<open>Footprints\<close>

lemma foot_performFailover [foot_intros]:
  "may_write A C pathCurrentSwitch \<Longrightarrow> foot A (performFailover E C master)"
  unfolding performFailover_def by (intro foot_intros)

lemma foot_approveFailover [foot_intros]: "foot A (approveFailover E C ss active master)"
  unfolding approveFailover_def check_cooldown_def by (intro foot_intros)

section \<open>Quorums\<close>

text \<open>
  The contract between writing and failing over: the master waits for \<open>write_quorum\<close> replicas, a failover
  needs \<open>failover_quorum\<close> nodes, and together they are all the nodes (unless data loss is allowed).
\<close>

locale quorum_system =
  fixes lossy :: bool and write_quorum :: "string list \<Rightarrow> int" and failover_quorum :: "string list \<Rightarrow> int"
  assumes cover: "\<not> lossy \<Longrightarrow> int (length nodes) \<le> write_quorum nodes + failover_quorum nodes"
begin

text \<open>Replicas that acknowledged a write, and nodes that allow a failover, have a node in common.\<close>
lemma acked_in_quorum:
  assumes "\<not> lossy" and "distinct nodes" and "master \<in> set nodes"
    and "W \<subseteq> set nodes - {master}" and "write_quorum nodes \<le> int (card W)"
    and "S \<subseteq> set nodes - {master}" and "failover_quorum nodes \<le> int (card S)"
  shows "W \<inter> S \<noteq> {}"
proof
  assume "W \<inter> S = {}"
  have fin: "finite W" "finite S" using assms(4,6) finite_subset by blast+
  have "card W + card S = card (W \<union> S)"
    using fin \<open>W \<inter> S = {}\<close> by (simp add: card_Un_disjoint)
  also have "\<dots> \<le> card (set nodes - {master})" using assms(4,6) by (intro card_mono) auto
  also have "\<dots> = length nodes - 1" using assms(2,3) by (simp add: distinct_card)
  finally have "int (card W) + int (card S) < int (length nodes)"
    using assms(3) by (cases nodes) auto
  with cover [OF assms(1), of nodes] assms(5,7) show False by linarith
qed

end

interpretation shard_quorum:
  quorum_system "vc_AllowDataLoss (c_Valkey C)" getNumReplicasToWrite "getFailoverQuorum C" for C
  by unfold_locales (auto simp: getFailoverQuorum_def Let_def getNumReplicasToWrite_def)

section \<open>Counting\<close>

lemma foldl_count: "foldl (\<lambda>cnt x. if P x then cnt + 1 else cnt) (n::int) xs = n + int (length (filter P xs))"
  by (induction xs arbitrary: n) auto

lemma countAlive_eq:
  "countAliveHAReplicasWithinNodes nodes ss = int (length (filter (alive_replica ss) nodes))"
  by (simp add: countAliveHAReplicasWithinNodes_def foldl_count)

lemma countRunning_eq:
  "countRunningHAReplicas ss = int (length (filter (\<lambda>(h, state). runs_replication state) ss))"
  using foldl_count [of "\<lambda>(h, state). runs_replication state" 0 ss]
  by (simp add: countRunningHAReplicas_def case_prod_unfold)

section \<open>What an approval means\<close>

lemma time_since_run:
  "time_since E t s = (Ok (since (e_now E (hist s)) t), s\<lparr>hist := EvNow (e_now E (hist s)) # hist s\<rparr>)"
  by (simp add: time_since_def now_def comp_defs record_event_def)

definition cooled_down :: "env \<Rightarrow> Config \<Rightarrow> bool" where
  "cooled_down E C \<longleftrightarrow> (\<exists>t r t'. dcs_Get E C as_switch pathLastSwitch t = (Ok r, t') \<and>
     (case r of Inl e \<Rightarrow> err_is e ErrNotFound
      | Inr sw \<Rightarrow> \<exists>res. sw_Result sw = Some res \<and>
          (sw_Cause sw = CauseAuto \<longrightarrow>
            (\<exists>h. vc_FailoverCooldown (c_Valkey C) \<le> since (e_now E h) (sr_FinishedAt res)))))"

lemma check_cooldown_None:
  assumes "check_cooldown E C s = (Ok None, s')"
  shows "cooled_down E C"
proof -
  obtain r t where r: "dcs_Get E C as_switch pathLastSwitch s = (Ok r, t)"
    using assms unfolding check_cooldown_def by (elim perform_Ok)
  show ?thesis unfolding cooled_down_def
    using assms r
    by (intro exI [of _ s] exI [of _ r] exI [of _ t])
      (fastforce simp: check_cooldown_def perform_def ret_def time_since_run not_less
        split: sum.splits option.splits if_splits)
qed

text \<open>
  C10 What an approved failover has passed: the timeout since the master failed, not all replicas
  still running replication, the quorum of live replicas among the active nodes, and the cooldown
  after the previous automatic failover.
\<close>
theorem approveFailover_guards:
  assumes "approveFailover E C ss active master s = (Ok None, s')"
  shows "(0 < vc_FailoverTimeout (c_Valkey C) \<longrightarrow>
       (\<exists>h. vc_FailoverTimeout (c_Valkey C) \<le> since (e_now E h) (time_of (nodeFailTime s) master)))
    \<and> length (filter (\<lambda>(h, state). runs_replication state) ss) + 1 \<noteq> length ss
    \<and> getFailoverQuorum C active \<le> int (length (filter (alive_replica ss) active))
    \<and> cooled_down E C"
proof -
  let ?timer = "if vc_FailoverTimeout (c_Valkey C) > 0
       then perform (gets (\<lambda>s. time_of (nodeFailTime s) master)) (\<lambda>t0.
            perform (time_since E t0) (\<lambda>failedTime.
              if failedTime < vc_FailoverTimeout (c_Valkey C)
              then ret (Some (Errorf ''failover timeout is not yet elapsed'')) else ret None))
       else ret None"
  let ?rest = "if countRunningHAReplicas ss = int (length ss) - 1
      then ret (Some (Errorf ''all replicas are alive and running replication, seems dcs problems''))
      else if countAliveHAReplicasWithinNodes active ss < getFailoverQuorum C active
      then ret (Some (Errorf (''no quorum, have '' @ itoa (countAliveHAReplicasWithinNodes active ss)
        @ '' replicas while '' @ itoa (getFailoverQuorum C active) @ '' is required'')))
      else check_cooldown E C"
  obtain t where timer: "?timer s = (Ok None, t)" and rest: "?rest t = (Ok None, s')"
    using assms unfolding approveFailover_def by (elim checked_None)
  from timer have 1: "0 < vc_FailoverTimeout (c_Valkey C) \<longrightarrow>
       (\<exists>h. vc_FailoverTimeout (c_Valkey C) \<le> since (e_now E h) (time_of (nodeFailTime s) master))"
    by (auto simp: perform_def gets_def ret_def time_since_run not_less split: if_splits)
  from rest have 2: "countRunningHAReplicas ss \<noteq> int (length ss) - 1"
      "getFailoverQuorum C active \<le> countAliveHAReplicasWithinNodes active ss"
      "check_cooldown E C t = (Ok None, s')"
    by (auto simp: ret_def not_less split: if_splits)
  from 1 2 check_cooldown_None [OF 2(3)] show ?thesis
    by (simp add: countRunning_eq countAlive_eq)
qed

theorem approveFailover_guards_witness:
  "fst (approveFailover sample_env sample_config sample_states [''h1'', ''h2'', ''h3''] ''h1'' sample_state) = Ok None \<and>
   cooled_down sample_env sample_config"
proof -
  have run: "fst (approveFailover sample_env sample_config sample_states [''h1'', ''h2'', ''h3''] ''h1'' sample_state) = Ok None"
    by code_simp
  then have "approveFailover sample_env sample_config sample_states [''h1'', ''h2'', ''h3''] ''h1'' sample_state =
      (Ok None, snd (approveFailover sample_env sample_config sample_states [''h1'', ''h2'', ''h3''] ''h1'' sample_state))"
    by (metis prod.collapse)
  from approveFailover_guards [OF this] run show ?thesis by blast
qed



end
