(* ===== verification/Repair.thy ===== *)
theory Repair
  imports Failover
begin

text \<open>
  Repairing replication: \<open>repairShard\<close>, \<open>repairMaster\<close>, \<open>repairReplica\<close> and
  \<open>reservedConnectionsWatchdog\<close> of internal/app/repair.go.
\<close>

definition set_nodeFailTime :: "string \<Rightarrow> time \<Rightarrow> unit M" where
  "set_nodeFailTime h t = modify (\<lambda>s. s\<lparr>nodeFailTime := (nodeFailTime s)(h \<mapsto> t)\<rparr>)"

definition delete_nodeFailTime :: "string \<Rightarrow> unit M" where
  "delete_nodeFailTime h = modify (\<lambda>s. s\<lparr>nodeFailTime := (nodeFailTime s)(h := None)\<rparr>)"

section \<open>The master\<close>

definition repair_master_flags :: "env \<Rightarrow> nodeP \<Rightarrow> HostState \<Rightarrow> unit M" where
  "repair_master_flags E node state =
     andThen (if hs_IsReadOnly state \<or> hs_MinReplicasToWrite state \<noteq> 0
              then andThen (SetReadWrite E node) (ret ()) else ret ())
       (if hs_IsReplPaused state then andThen (ResumeReplication E node) (ret ()) else ret ())"

definition repairMaster :: "env \<Rightarrow> nodeP \<Rightarrow> string list \<Rightarrow> HostState \<Rightarrow> unit M" where
  "repairMaster E node activeNodes state =
     (let expectedNumReplicas = getNumReplicasToWrite activeNodes in
      perform (GetNumQuorumReplicas E node) (\<lambda>r. case r of
        Inl e \<Rightarrow> ret ()
      | Inr actualNumReplicas \<Rightarrow>
          if expectedNumReplicas > actualNumReplicas
          then perform (SetNumQuorumReplicas E node expectedNumReplicas) (\<lambda>(err, rewriteErr).
                 if err \<noteq> None then ret () else repair_master_flags E node state)
          else repair_master_flags E node state))"

section \<open>A replica\<close>

text \<open>The destructive repair of the local node, when replication has been broken for too long.\<close>
definition destructive_repair :: "env \<Rightarrow> Config \<Rightarrow> unit M" where
  "destructive_repair E C =
     perform (gets replFailTime) (\<lambda>t0.
     andThen (if is_zero t0 then perform (now E) set_replFailTime else ret ())
     (perform (gets replFailTime) (\<lambda>t1. perform (time_since E t1) (\<lambda>age.
       if age > vc_DestructiveReplicationRepairTimeout (c_Valkey C) \<and>
          vc_DestructiveReplicationRepairCommand (c_Valkey C) \<noteq> []
       then perform (run_command_line E (vc_DestructiveReplicationRepairCommand (c_Valkey C))) (\<lambda>e.
              if e = None then perform (now E) set_replFailTime else ret ())
       else ret ()))))"

text \<open>Cluster mode: make a lone node meet the master, then replicate it. False: return at once.\<close>
definition cluster_repair :: "env \<Rightarrow> Config \<Rightarrow> nodeP \<Rightarrow> nodeP \<Rightarrow> bool M" where
  "cluster_repair E C node masterNode =
     perform (IsClusterNodeAlone E node) (\<lambda>a. case a of
       Inl e \<Rightarrow> ret False
     | Inr alone \<Rightarrow>
         perform (if alone
           then perform (GetIP masterNode) (\<lambda>ip. case ip of
                  Inl e \<Rightarrow> ret False
                | Inr masterIP \<Rightarrow>
                    perform (ClusterMeetNode E node masterIP (vc_Port (c_Valkey C))
                      (vc_ClusterBusPort (c_Valkey C))) (\<lambda>e. ret (e = None)))
           else ret True) (\<lambda>go.
         if \<not> go then ret False
         else perform (ClusterGetID E masterNode) (\<lambda>i. case i of
                Inl e \<Rightarrow> ret False
              | Inr masterID \<Rightarrow> andThen (ClusterMakeReplica E node masterID) (ret True))))"

definition repairReplica ::
  "env \<Rightarrow> Config \<Rightarrow> nodeP \<Rightarrow> HostState option \<Rightarrow> HostState \<Rightarrow> string \<Rightarrow> string \<Rightarrow> unit M" where
  "repairReplica E C node masterState state master replicaFQDN =
     perform (shard_Get master) (\<lambda>masterNode.
     perform (IsLocal C node) (\<lambda>local.
     andThen (if local then destructive_repair E C else ret ())
     (perform (replicates E masterState (hs_ReplicaState state) replicaFQDN masterNode True) (\<lambda>r.
      perform (if r then ret True
               else case app_mode C of
                 modeSentinel \<Rightarrow> andThen (SentinelMakeReplica E C node master) (ret True)
               | modeCluster \<Rightarrow> cluster_repair E C node masterNode) (\<lambda>go.
      if go \<and> hs_IsReplPaused state then andThen (ResumeReplication E node) (ret ())
      else ret ())))))"

section \<open>The shard\<close>

text \<open>
  The first loop of \<open>repairShard\<close>: repair the master, count the syncing replicas, list the replicas.
\<close>
definition repair_scan ::
  "env \<Rightarrow> string list \<Rightarrow> string \<Rightarrow> HostState option \<Rightarrow> nodeP \<Rightarrow> string \<times> HostState \<Rightarrow>
   int \<times> string list \<Rightarrow> (int \<times> string list) M" where
  "repair_scan E activeNodes master masterState masterNode entry acc =
     (let (host, state) = entry; (syncing, replicas) = acc in
      if \<not> hs_PingOk state then ret acc
      else if host = master then andThen (repairMaster E masterNode activeNodes state) (ret acc)
      else perform (case hs_ReplicaState state of
               None \<Rightarrow> ret False
             | Some rs \<Rightarrow> if rs_MasterSyncInProgress rs
                 then replicates E masterState (Some rs) host masterNode True else ret False) (\<lambda>b.
           ret (if b then syncing + 1 else syncing, replicas @ [host])))"

text \<open>The second loop: make replicas read-only and repair those that do not replicate.\<close>
definition repair_one ::
  "env \<Rightarrow> Config \<Rightarrow> shard_state \<Rightarrow> string \<Rightarrow> HostState option \<Rightarrow> nodeP \<Rightarrow> string \<Rightarrow> int \<Rightarrow> int M" where
  "repair_one E C shardState master masterState masterNode host syncing =
     perform (state_at shardState host) (\<lambda>state.
     perform (shard_Get host) (\<lambda>node.
     andThen (if \<not> hs_IsReadOnly state then andThen (SetReadOnly E node False) (ret ()) else ret ())
     (perform (if hs_ReplicaState state = None \<or> hs_IsReplPaused state then ret True
               else perform (replicates E masterState (hs_ReplicaState state) host masterNode True)
                      (\<lambda>b. ret (\<not> b))) (\<lambda>broken.
      if broken \<and> syncing < vc_MaxParallelSyncs (c_Valkey C)
      then andThen (repairReplica E C node masterState state master host) (ret (syncing + 1))
      else ret syncing))))"

definition repairShard :: "env \<Rightarrow> Config \<Rightarrow> shard_state \<Rightarrow> string list \<Rightarrow> string \<Rightarrow> unit M" where
  "repairShard E C shardState activeNodes master =
     (let masterState = map_of shardState master in
      perform (shard_Get master) (\<lambda>masterNode.
      perform (range_states E shardState) (\<lambda>visited.
      perform (foldM (repair_scan E activeNodes master masterState masterNode) visited (0, []))
        (\<lambda>(syncing, replicas).
      andThen (foldM (repair_one E C shardState master masterState masterNode) replicas syncing)
        (ret ())))))"

section \<open>Connections of the local node\<close>

definition info_int :: "info \<Rightarrow> string \<Rightarrow> goerr + int" where
  "info_int info key = (case map_of info key of
     None \<Rightarrow> Inl (Errorf (''no '' @ key @ '' in info''))
   | Some v \<Rightarrow> (case ParseInt 64 v of
       (n, Some e) \<Rightarrow> Inl (Wrap (''unable to parse '' @ key @ '' from info'') (Errorf (num_error_msg v e)))
     | (n, None) \<Rightarrow> Inr n))"

definition reservedConnectionsWatchdog :: "env \<Rightarrow> Config \<Rightarrow> info \<Rightarrow> goerr option M" where
  "reservedConnectionsWatchdog E C info =
     (case info_int info ''maxclients'' of Inl e \<Rightarrow> ret (Some e) | Inr maxClients \<Rightarrow>
     (case info_int info ''cluster_connections'' of Inl e \<Rightarrow> ret (Some e) | Inr clusterConns \<Rightarrow>
     (case info_int info ''connected_clients'' of Inl e \<Rightarrow> ret (Some e) | Inr connectedClients \<Rightarrow>
      let freeConns = i64 (i64 (maxClients - clusterConns) - connectedClients) in
      if freeConns < vc_ReservedConnections (c_Valkey C)
      then perform (shard_Local C) (\<lambda>node.
             checked (DisconnectClients E node ''normal'') (DisconnectClients E node ''pubsub''))
      else ret None)))"

section \<open>Footprints\<close>

text \<open>The commands of the repair: none of them promotes, kills clients or changes \<open>offline\<close>.\<close>

fun repair_cmd :: "vcmd \<Rightarrow> bool" where
  "repair_cmd (ConfigSet k v) = (k \<in> {''min-replicas-to-write'', ''repl-paused'',
     ''quorum-replicas'', ''quorum-replicas-to-write''})"
| "repair_cmd ConfigRewrite = True"
| "repair_cmd (Replicaof h port) = True"
| "repair_cmd (ClusterMeet a port bus) = True"
| "repair_cmd (ClusterReplicate i) = True"
| "repair_cmd c = False"

lemma repair_cmd_lists [simp]:
  "list_all repair_cmd (setting ''repl-paused'' v)"
  "list_all repair_cmd (setting ''min-replicas-to-write'' v)"
  "list_all repair_cmd (setting ''quorum-replicas'' v)"
  "list_all repair_cmd (setting ''quorum-replicas-to-write'' v)"
  "list_all repair_cmd (replica_cmds (Replicaof h port))"
  "list_all repair_cmd (replica_cmds (ClusterReplicate i))"
  "list_all repair_cmd [ClusterMeet a port bus]"
  by (simp_all add: setting_def replica_cmds_def)

lemma foot_nodeFailTime [foot_intros]:
  "foot A (set_nodeFailTime h t)" "foot A (delete_nodeFailTime h)"
  unfolding set_nodeFailTime_def delete_nodeFailTime_def by (intro foot_intros; simp)+

lemma foot_repairMaster [foot_intros]:
  "host_may A h repair_cmd \<Longrightarrow> ptr_to h node \<Longrightarrow> foot A (repairMaster E node active st)"
  unfolding repairMaster_def repair_master_flags_def Let_def
  by (rule foot_first foot_intros | erule may_cmds_host | assumption | simp)+

lemma foot_destructive_repair [foot_intros]:
  "(\<And>a r. p_ev A (EvExec a r)) \<Longrightarrow> foot A (destructive_repair E C)"
  unfolding destructive_repair_def by (rule foot_intros | simp)+

lemma foot_cluster_repair [foot_intros]:
  "host_may A h repair_cmd \<Longrightarrow> ptr_to h node \<Longrightarrow> foot A (cluster_repair E C node masterNode)"
  unfolding cluster_repair_def
  by (rule foot_first foot_intros | erule may_cmds_host | assumption | simp)+

lemma foot_repairReplica [foot_intros]:
  "host_may A h repair_cmd \<Longrightarrow> (\<And>a r. p_ev A (EvExec a r)) \<Longrightarrow> ptr_to h node \<Longrightarrow>
   foot A (repairReplica E C node ms st master fqdn)"
  unfolding repairReplica_def
  by (rule foot_first foot_intros | erule may_cmds_host | assumption | simp)+

lemma foot_repairShard [foot_intros]:
  assumes "\<And>h. host_may A h repair_cmd" and "\<And>a r. p_ev A (EvExec a r)"
  shows "foot A (repairShard E C ss active master)"
  unfolding repairShard_def repair_scan_def repair_one_def Let_def
  by (rule foot_first foot_intros assms may_cmds_host [OF assms(1)] | assumption | simp)+

lemma foot_reservedConnectionsWatchdog [foot_intros]:
  "host_may A (c_Hostname C) (\<lambda>c. c \<in> set offline_cmds) \<Longrightarrow>
   foot A (reservedConnectionsWatchdog E C info)"
  unfolding reservedConnectionsWatchdog_def Let_def
  by (rule foot_first foot_intros | erule may_cmds_host | assumption
    | simp add: offline_cmds_def readonly_cmds_def)+

end
