(* ===== verification/ActiveNodes.thy ===== *)
theory ActiveNodes
  imports Repair
begin

text \<open>
  The set of active nodes, the master's quorum configuration and the transition between two sets:
  internal/app/active_nodes.go.
\<close>

section \<open>Sets of nodes\<close>

definition GetActiveNodes :: "env \<Rightarrow> Config \<Rightarrow> (goerr + string list) M" where
  "GetActiveNodes E C = perform (dcs_Get E C as_strings pathActiveNodes) (\<lambda>r. case r of
     Inr activeNodes \<Rightarrow> ret (Inr activeNodes)
   | Inl e \<Rightarrow> if err_is e ErrNotFound then ret (Inr [])
            else ret (Inl (Text ''get active nodes from dcs'' e)))"

definition activeNodesSet :: "string list \<Rightarrow> string set" where
  "activeNodesSet nodes = set nodes"

definition activeNodesIntersection :: "string list \<Rightarrow> string list \<Rightarrow> string list" where
  "activeNodesIntersection left right =
     sort (filter (\<lambda>node. node \<in> activeNodesSet right) left)"

definition activeNodesEqual :: "string list \<Rightarrow> string list \<Rightarrow> bool" where
  "activeNodesEqual left right =
     (length left = length right \<and> list_all (\<lambda>node. node \<in> activeNodesSet left) right)"

definition hasAddedActiveNodes :: "string list \<Rightarrow> string list \<Rightarrow> bool" where
  "hasAddedActiveNodes oldActiveNodes activeNodes =
     list_ex (\<lambda>node. node \<notin> activeNodesSet oldActiveNodes) activeNodes"

section \<open>The transition\<close>

text \<open>\<open>activeNodesTransitionOps\<close>, over any state.\<close>
record 's transition_ops =
  setQuorumReplicas :: "string list \<Rightarrow> ('s, goerr option) comp"
  setNumQuorumReplicas :: "int \<Rightarrow> ('s, goerr option) comp"
  setActiveNodes :: "string list \<Rightarrow> ('s, goerr option) comp"

definition applyActiveNodesTransition ::
  "string list \<Rightarrow> string list \<Rightarrow> int \<Rightarrow> int \<Rightarrow> 's transition_ops \<Rightarrow> ('s, goerr option) comp" where
  "applyActiveNodesTransition oldActiveNodes activeNodes actualNumReplicas expectedNumReplicas ops =
     (if activeNodesEqual oldActiveNodes activeNodes
      then checked (if actualNumReplicas < expectedNumReplicas
                    then setNumQuorumReplicas ops expectedNumReplicas else ret None)
          (checked (setQuorumReplicas ops activeNodes)
             (if actualNumReplicas > expectedNumReplicas
              then setNumQuorumReplicas ops expectedNumReplicas else ret None))
      else if hasAddedActiveNodes oldActiveNodes activeNodes \<or> expectedNumReplicas > actualNumReplicas
      then checked (setQuorumReplicas ops (activeNodesIntersection oldActiveNodes activeNodes))
          (checked (if actualNumReplicas < expectedNumReplicas
                    then setNumQuorumReplicas ops expectedNumReplicas else ret None)
          (checked (setActiveNodes ops activeNodes)
          (checked (setQuorumReplicas ops activeNodes)
             (if actualNumReplicas > expectedNumReplicas
              then setNumQuorumReplicas ops expectedNumReplicas else ret None))))
      else checked (setActiveNodes ops activeNodes)
          (checked (setQuorumReplicas ops activeNodes)
             (if actualNumReplicas \<noteq> expectedNumReplicas
              then setNumQuorumReplicas ops expectedNumReplicas else ret None)))"

section \<open>The quorum replicas of the master\<close>

text \<open>\<open>fmt.Sprintf("%s:%d", host, port)\<close>\<close>
definition host_port :: "Config \<Rightarrow> string \<Rightarrow> string" where
  "host_port C h = h @ '':'' @ itoa (vc_Port (c_Valkey C))"

text \<open>The names a replica may be known by: its host name and its addresses.\<close>
definition expected_names :: "Config \<Rightarrow> string \<Rightarrow> string \<Rightarrow> string list M" where
  "expected_names C master host =
     (if host = master then ret []
      else perform (shard_Get host) (\<lambda>activeNode. perform (GetIPs activeNode) (\<lambda>ips.
             ret (host_port C host # map (host_port C) ips))))"

definition actualizeQuorumReplicas :: "env \<Rightarrow> Config \<Rightarrow> string \<Rightarrow> string list \<Rightarrow> goerr option M" where
  "actualizeQuorumReplicas E C master activeNodes =
     perform (shard_Get master) (\<lambda>node.
     perform (collect (expected_names C master) activeNodes) (\<lambda>names.
     let expectedValue = str_join '' '' (sort (concat names)) in
     attempt_err (GetQuorumReplicas E node) (\<lambda>currentValue.
       if currentValue \<noteq> expectedValue
       then perform (SetQuorumReplicas E node expectedValue) (\<lambda>(err, rewriteErr). ret err)
       else ret None)))"

section \<open>Which nodes are active\<close>

text \<open>One host of the second loop of \<open>calcActiveNodes\<close>: whether it is active.\<close>
definition node_active ::
  "env \<Rightarrow> Config \<Rightarrow> shard_state \<Rightarrow> string list \<Rightarrow> HostState \<Rightarrow> nodeP \<Rightarrow> string \<Rightarrow> HostState \<Rightarrow> bool M" where
  "node_active E C stateDcs oldActiveNodes masterState masterNode host node =
     perform (state_at stateDcs host) (\<lambda>dcsNode.
     if \<not> hs_PingOk node
     then if hs_PingOk dcsNode then ret (host \<in> set oldActiveNodes)
          else perform (gets (\<lambda>s. time_of (nodeFailTime s) host)) (\<lambda>t0.
            andThen (if is_zero t0 then perform (now E) (set_nodeFailTime host) else ret ())
            (perform (gets (\<lambda>s. time_of (nodeFailTime s) host)) (\<lambda>t1.
             perform (time_since E t1) (\<lambda>failTime.
               ret (failTime < c_InactivationDelay C \<and> host \<in> set oldActiveNodes)))))
     else andThen (if \<not> hs_IsOffline dcsNode then delete_nodeFailTime host else ret ())
       (case hs_ReplicaState node of
          None \<Rightarrow> ret False
        | Some replicaState \<Rightarrow>
            if hs_PingOk masterState \<and> hs_PingStable masterState
            then replicates E (Some masterState) (Some replicaState) host masterNode False
            else ret True))"

definition calc_step ::
  "env \<Rightarrow> Config \<Rightarrow> shard_state \<Rightarrow> string list \<Rightarrow> string \<Rightarrow> HostState \<Rightarrow> nodeP \<Rightarrow>
   string \<times> HostState \<Rightarrow> string list \<Rightarrow> string list M" where
  "calc_step E C stateDcs oldActiveNodes master masterState masterNode entry acc =
     (let (host, node) = entry in
      if host = master then ret acc
      else perform (node_active E C stateDcs oldActiveNodes masterState masterNode host node) (\<lambda>b.
        ret (if b then acc @ [host] else acc)))"

definition calcActiveNodes ::
  "env \<Rightarrow> Config \<Rightarrow> shard_state \<Rightarrow> shard_state \<Rightarrow> string list \<Rightarrow> string \<Rightarrow> string list M" where
  "calcActiveNodes E C state stateDcs oldActiveNodes master =
     perform (shard_Get master) (\<lambda>masterNode.
     let (acc0, masterState) = (case map_of state master of
           None \<Rightarrow> ([], zero_HostState) | Some ms \<Rightarrow> ([master], ms)) in
     perform (range_states E state) (\<lambda>visited.
     perform (foldM (calc_step E C stateDcs oldActiveNodes master masterState masterNode) visited acc0)
       (\<lambda>activeNodes. ret (sort activeNodes))))"

section \<open>The update\<close>

definition active_ops :: "env \<Rightarrow> Config \<Rightarrow> string \<Rightarrow> nodeP \<Rightarrow> st transition_ops" where
  "active_ops E C master masterNode =
     \<lparr> setQuorumReplicas = (\<lambda>nodes.
         map_err (Wrap ''actualize quorum replicas'') (actualizeQuorumReplicas E C master nodes)),
       setNumQuorumReplicas = (\<lambda>value.
         perform (SetNumQuorumReplicas E masterNode value) (\<lambda>(err, rewriteErr).
           ret (map_option (Wrap ''set num quorum replicas on master'') err))),
       setActiveNodes = (\<lambda>nodes.
         map_err (Wrap ''update active nodes in dcs'') (dcs_Set E C pathActiveNodes (JStrings nodes))) \<rparr>"

definition updateActiveNodes ::
  "env \<Rightarrow> Config \<Rightarrow> shard_state \<Rightarrow> shard_state \<Rightarrow> string list \<Rightarrow> string \<Rightarrow> goerr option M" where
  "updateActiveNodes E C state stateDcs oldActiveNodes master =
     perform (calcActiveNodes E C state stateDcs oldActiveNodes master) (\<lambda>activeNodes.
     perform (shard_Get master) (\<lambda>masterNode.
     perform (GetNumQuorumReplicas E masterNode) (\<lambda>r. case r of
       Inl e \<Rightarrow> ret (Some (Wrap ''get num quorum replicas on master'' e))
     | Inr actualNumReplicas \<Rightarrow>
         applyActiveNodesTransition oldActiveNodes activeNodes actualNumReplicas
           (getNumReplicasToWrite activeNodes) (active_ops E C master masterNode))))"

section \<open>Footprints\<close>

lemma foot_GetActiveNodes [foot_intros]: "foot A (GetActiveNodes E C)"
  unfolding GetActiveNodes_def by (intro foot_intros)

lemma foot_applyActiveNodesTransition [foot_intros]:
  assumes "\<And>v. foot A (setQuorumReplicas ops v)" and "\<And>n. foot A (setNumQuorumReplicas ops n)"
    and "\<And>v. foot A (setActiveNodes ops v)"
  shows "foot A (applyActiveNodesTransition old new actual expected ops)"
  unfolding applyActiveNodesTransition_def by (rule foot_intros assms)+

lemma foot_actualizeQuorumReplicas [foot_intros]:
  "host_may A master repair_cmd \<Longrightarrow> foot A (actualizeQuorumReplicas E C master nodes)"
  unfolding actualizeQuorumReplicas_def expected_names_def Let_def
  by (rule foot_first foot_intros | erule may_cmds_host | assumption | simp)+

lemma foot_node_active [foot_intros]:
  "foot A (node_active E C stateDcs old ms masterNode host node)"
  unfolding node_active_def by (intro foot_intros)

lemma foot_calcActiveNodes [foot_intros]:
  "foot A (calcActiveNodes E C st stateDcs old master)"
  unfolding calcActiveNodes_def calc_step_def Let_def by (rule foot_first foot_intros | simp)+

lemma foot_active_ops [foot_intros]:
  "host_may A master repair_cmd \<Longrightarrow> foot A (setQuorumReplicas (active_ops E C master p) v)"
  "host_may A master repair_cmd \<Longrightarrow> ptr_to master p \<Longrightarrow> foot A (setNumQuorumReplicas (active_ops E C master p) n)"
  "may_write A C pathActiveNodes \<Longrightarrow> foot A (setActiveNodes (active_ops E C master p) v)"
  unfolding active_ops_def transition_ops.simps
  by (rule foot_first foot_intros | erule may_cmds_host | assumption | simp)+

lemma foot_updateActiveNodes [foot_intros]:
  "host_may A master repair_cmd \<Longrightarrow> may_write A C pathActiveNodes \<Longrightarrow>
   foot A (updateActiveNodes E C st stateDcs old master)"
  unfolding updateActiveNodes_def by (rule foot_first foot_intros | assumption)+

end
