(* ===== verification/Master.thy ===== *)
theory Master
  imports ActiveNodes
begin

text \<open>
  Who is master, and making one: internal/app/master.go and internal/app/checks.go. The two waiting
  loops of \<open>changeMaster\<close> and \<open>waitForCatchup\<close> run until a deadline of the process's clock; their
  number of rounds is bounded by \<open>e_fuel\<close>.
\<close>

section \<open>The current master\<close>

text \<open>The masters with slots, in the order of \<open>masters\<close>; an error stops at once.\<close>
definition masters_with_slots :: "env \<Rightarrow> string list \<Rightarrow> (goerr + string list) M" where
  "masters_with_slots E masters =
     attempt (attempt_each (\<lambda>master. perform (shard_Get master) (\<lambda>node.
         perform (HasClusterSlots E node) (\<lambda>r. case r of
           Inl e \<Rightarrow> ret (Inl (Errorf (''unable to check slots on '' @ master)))
         | Inr hasSlots \<Rightarrow> ret (Inr (master, hasSlots))))) masters)
       (\<lambda>rs. ret (Inr (map fst (filter snd rs))))"

definition live_masters :: "shard_state \<Rightarrow> string list" where
  "live_masters visited = map fst (filter (\<lambda>(h, state). hs_PingOk state \<and> hs_IsMaster state) visited)"

definition getMasterHost :: "env \<Rightarrow> Config \<Rightarrow> shard_state \<Rightarrow> (goerr + string) M" where
  "getMasterHost E C shardState = perform (range_states E shardState) (\<lambda>visited.
     let masters = live_masters visited in
     if length masters > 1
     then attempt (if app_mode C = modeCluster then masters_with_slots E masters else ret (Inr []))
            (\<lambda>mastersWithSlots. case mastersWithSlots of
               [m] \<Rightarrow> ret (Inr m)
             | _ \<Rightarrow> ret (Inl (Errorf (''got more than 1 master: '' @ list_text masters))))
     else (case masters of [] \<Rightarrow> ret (Inr []) | m # _ \<Rightarrow> ret (Inr m)))"

definition ensureCurrentMaster :: "env \<Rightarrow> Config \<Rightarrow> shard_state \<Rightarrow> (goerr + string) M" where
  "ensureCurrentMaster E C shardState = attempt (getMasterHost E C shardState) (\<lambda>master.
     if master = [] then ret (Inl (Errorf (''no master in shard of '' @ count_text shardState @ '' nodes'')))
     else perform (dcs_Set E C pathMasterNode (JString master)) (\<lambda>e. case e of
            Some x \<Rightarrow> ret (Inl (Wrap ''failed to set current master in dcs'' x))
          | None \<Rightarrow> ret (Inr master)))"

definition getCurrentMaster :: "env \<Rightarrow> Config \<Rightarrow> shard_state \<Rightarrow> (goerr + string) M" where
  "getCurrentMaster E C shardState =
     perform (dcs_Get E C as_string pathMasterNode) (\<lambda>r.
     case (case r of Inr m \<Rightarrow> Inr m
           | Inl e \<Rightarrow> if err_is e ErrNotFound then Inr [] else Inl e) of
       Inl e \<Rightarrow> ret (Inl (Wrap ''failed to get current master from dcs'' e))
     | Inr master \<Rightarrow>
         if master \<noteq> []
         then perform (getMasterHost E C shardState) (\<lambda>sm. case sm of
                Inl e \<Rightarrow> ret (Inr master)
              | Inr stateMaster \<Rightarrow>
                  if stateMaster \<noteq> [] \<and> stateMaster \<noteq> master \<and>
                     list_all (\<lambda>(h, state). hs_PingStable state \<and> \<not> hs_IsOffline state) shardState
                  then ensureCurrentMaster E C shardState
                  else ret (Inr master))
         else ensureCurrentMaster E C shardState)"

section \<open>Changing the master of a replica\<close>

text \<open>
  \<open>for time.Now().Before(deadline)\<close>: the body runs while the clock is before the deadline.
  \<open>Inl\<close> goes round again, \<open>Inr\<close> leaves the loop with its result; at the deadline the loop ends with
  \<open>timeout\<close> of its state.
\<close>
definition until_deadline ::
  "env \<Rightarrow> time \<Rightarrow> ('x \<Rightarrow> ('x + 'r) M) \<Rightarrow> ('x \<Rightarrow> 'r) \<Rightarrow> 'x \<Rightarrow> 'r M" where
  "until_deadline E deadline body timeout x =
     iterate (e_fuel E) (\<lambda>y. perform (now E) (\<lambda>t.
       if t < deadline then body y else ret (Inr (timeout y)))) x"

text \<open>
  One round of \<open>changeMaster\<close>. The loop's state is the latest state of the master and of the
  replica; leaving it early with an error is \<open>Inl\<close> of the loop's result.
\<close>
definition change_round ::
  "env \<Rightarrow> Config \<Rightarrow> string \<Rightarrow> string \<Rightarrow> nodeP \<Rightarrow> nodeP \<Rightarrow> HostState \<times> HostState \<Rightarrow>
   ((HostState \<times> HostState) + (goerr + (HostState \<times> HostState))) M" where
  "change_round E C host master node masterNode states =
     (let masterState = fst states in
      perform (getHostState E C host) (\<lambda>state.
      perform (replicates E (Some masterState) (hs_ReplicaState state) host masterNode False) (\<lambda>b.
      if b then ret (Inr (Inr (masterState, state)))
      else if \<not> hs_PingOk state
      then ret (Inr (Inl (Errorf (''changeMaster: replica '' @ host
              @ '' died while waiting to start replication from '' @ master))))
      else perform (getHostState E C master) (\<lambda>masterState'.
        if \<not> hs_PingOk masterState'
        then ret (Inr (Inl (Errorf (''changeMaster: '' @ master
              @ '' died while waiting to start replication to '' @ host))))
        else andThen (repairReplica E C node (Some masterState') state master host)
              (andThen (sleep second) (ret (Inl (masterState', state))))))))"

definition changeMaster :: "env \<Rightarrow> Config \<Rightarrow> string \<Rightarrow> string \<Rightarrow> goerr option M" where
  "changeMaster E C host master =
     (if host = master then ret (Some (Errorf (''changing '' @ host @ '' replication source to itself'')))
      else
      perform (shard_Get host) (\<lambda>node.
      perform (getHostState E C master) (\<lambda>masterState.
      perform (shard_Get master) (\<lambda>masterNode.
      perform (getHostState E C host) (\<lambda>state.
      if \<not> hs_PingOk state then ret (Some (Errorf (''changeMaster: replica '' @ host @ '' is dead - unable to init repair'')))
      else andThen (repairReplica E C node (Some masterState) state master host)
      (perform (now E) (\<lambda>t.
       attempt_err (until_deadline E (t + vc_WaitReplicationTimeout (c_Valkey C))
           (change_round E C host master node masterNode) Inr (masterState, state))
         (\<lambda>(masterState, state).
       perform (replicates E (Some masterState) (hs_ReplicaState state) host masterNode False) (\<lambda>b.
         if b then ret None
         else ret (Some (Errorf (host @ '' was unable to start replication from '' @ master))))))))))))"

section \<open>Waiting for a replica to catch up\<close>

definition catchup_round ::
  "env \<Rightarrow> Config \<Rightarrow> string \<Rightarrow> string \<Rightarrow> unit \<Rightarrow> (unit + goerr option) M" where
  "catchup_round E C host master u =
     perform (getHostState E C master) (\<lambda>masterState.
     if \<not> hs_PingOk masterState
     then ret (Inr (Some (Errorf (''waitForCatchup: '' @ master
            @ '' died while waiting for catchup on '' @ host))))
     else perform (getHostState E C host) (\<lambda>state.
       if \<not> hs_PingOk state
       then ret (Inr (Some (Errorf (''waitForCatchup: replica '' @ host
              @ '' died while waiting for catchup from '' @ master))))
       else (case hs_ReplicaState state of
         None \<Rightarrow> andThen (sleep second) (ret (Inl ()))
       | Some rs \<Rightarrow>
           (case (if hs_IsMaster masterState then Some (hs_MasterReplicationOffset masterState)
                  else map_option rs_ReplicationOffset (hs_ReplicaState masterState)) of
              None \<Rightarrow> andThen (sleep second) (ret (Inl ()))
            | Some masterOffset \<Rightarrow>
                if masterOffset \<le> rs_ReplicationOffset rs then ret (Inr None)
                else andThen (sleep second) (ret (Inl ()))))))"

definition waitForCatchup :: "env \<Rightarrow> Config \<Rightarrow> string \<Rightarrow> string \<Rightarrow> goerr option M" where
  "waitForCatchup E C host master =
     (if host = master then ret (Some (Errorf (''waiting for '' @ host @ '' to catchup with itself'')))
      else perform (now E) (\<lambda>t.
        until_deadline E (t + vc_WaitCatchupTimeout (c_Valkey C)) (catchup_round E C host master)
          (\<lambda>u. Some (Errorf (''timeout waiting for '' @ host @ '' to catchup with '' @ master))) ()))"

section \<open>Promotion\<close>

definition promote_cluster :: "env \<Rightarrow> nodeP \<Rightarrow> goerr option M" where
  "promote_cluster E node = perform (IsClusterMajorityAlive E node) (\<lambda>r.
     let majorityAlive = (case r of Inl e \<Rightarrow> True | Inr b \<Rightarrow> b) in
     if majorityAlive then ClusterPromoteForce E node else ClusterPromoteTakeover E node)"

definition promote :: "env \<Rightarrow> Config \<Rightarrow> string \<Rightarrow> string \<Rightarrow> shard_state \<Rightarrow> time \<Rightarrow> goerr option M" where
  "promote E C master oldMaster shardState forceDeadline =
     perform (shard_Get master) (\<lambda>node.
     perform (state_at shardState master) (\<lambda>ms.
     if hs_IsMaster ms then ret None
     else (case app_mode C of
       modeSentinel \<Rightarrow> SentinelPromote E node
     | modeCluster \<Rightarrow>
         perform (state_at shardState oldMaster) (\<lambda>os.
         perform (if hs_PingOk os then perform (now E) (\<lambda>t. ret (t < forceDeadline)) else ret False)
           (\<lambda>force. if force then ClusterPromoteForce E node else promote_cluster E node)))))"

section \<open>Are the replicas of the local master running\<close>

text \<open>One host of \<open>checkHAReplicasRunning\<close>; the count of hosts ahead is only logged.\<close>
definition count_available ::
  "env \<Rightarrow> HostState \<Rightarrow> nodeP \<Rightarrow> string \<times> HostState \<Rightarrow> int \<Rightarrow> int M" where
  "count_available E localState local entry availableReplicas =
     (let (host, hostState) = entry in
      if hs_PingOk hostState \<and> \<not> hs_IsMaster hostState
      then perform (replicates E (Some localState) (hs_ReplicaState hostState) host local False) (\<lambda>b.
             ret (if b then availableReplicas + 1 else availableReplicas))
      else ret availableReplicas)"

definition checkHAReplicasRunning :: "env \<Rightarrow> Config \<Rightarrow> bool M" where
  "checkHAReplicasRunning E C = perform shard_Hosts (\<lambda>hs.
     let hosts = int (length hs) in
     if hosts = 1 then ret True
     else perform (getShardStateFromDB E C) (\<lambda>r. case r of
       Inl e \<Rightarrow> ret False
     | Inr state \<Rightarrow> perform (shard_Local C) (\<lambda>local. perform (FQDN local) (\<lambda>fqdn.
         case map_of state fqdn of
           None \<Rightarrow> ret False
         | Some localState \<Rightarrow> perform (range_states E state) (\<lambda>visited.
             perform (foldM (count_available E localState local) visited 0) (\<lambda>availableReplicas.
               ret (availableReplicas \<ge> hosts div 2)))))))"

section \<open>Footprints\<close>

lemma foot_masters [foot_intros]:
  "foot A (masters_with_slots E ms)" "foot A (getMasterHost E C ss)"
  unfolding masters_with_slots_def getMasterHost_def Let_def by (rule foot_first foot_intros)+

lemma foot_ensureCurrentMaster [foot_intros]:
  "may_write A C pathMasterNode \<Longrightarrow> foot A (ensureCurrentMaster E C ss)"
  "may_write A C pathMasterNode \<Longrightarrow> foot A (getCurrentMaster E C ss)"
  unfolding ensureCurrentMaster_def getCurrentMaster_def by (rule foot_first foot_intros | assumption)+

lemma foot_until_deadline [foot_intros]:
  "p_spin A \<Longrightarrow> (\<And>x. foot A (body x)) \<Longrightarrow> foot A (until_deadline E t body timeout x)"
  unfolding until_deadline_def by (intro foot_intros)

lemma foot_change_round:
  "host_may A host repair_cmd \<Longrightarrow> (\<And>a r. p_ev A (EvExec a r)) \<Longrightarrow> ptr_to host node \<Longrightarrow>
   foot A (change_round E C host master node masterNode states)"
  unfolding change_round_def Let_def by (rule foot_first foot_intros | assumption | blast)+

text \<open>Changing the master of a host sends commands to that host only.\<close>
lemma foot_changeMaster [foot_intros]:
  "p_spin A \<Longrightarrow> host_may A host repair_cmd \<Longrightarrow> (\<And>a r. p_ev A (EvExec a r)) \<Longrightarrow>
   foot A (changeMaster E C host master)"
  unfolding changeMaster_def
  by (rule foot_first foot_intros foot_change_round | assumption | blast)+

lemma foot_catchup_round [foot_intros]: "foot A (catchup_round E C host master u)"
  unfolding catchup_round_def by (intro foot_intros)

lemma foot_waitForCatchup [foot_intros]: "p_spin A \<Longrightarrow> foot A (waitForCatchup E C host master)"
  unfolding waitForCatchup_def by (intro foot_intros)

fun promote_cmd :: "vcmd \<Rightarrow> bool" where
  "promote_cmd ReplicaofNoOne = True"
| "promote_cmd ClusterFailoverForce = True"
| "promote_cmd ClusterFailoverTakeover = True"
| "promote_cmd c = False"

lemma repair_not_promote: "repair_cmd c \<Longrightarrow> \<not> promote_cmd c"
  by (cases c) simp_all

lemma foot_promote [foot_intros]:
  "host_may A master (\<lambda>c. promote_cmd c \<or> c = ConfigRewrite) \<Longrightarrow>
   foot A (promote E C master old ss t)"
  unfolding promote_def promote_cluster_def Let_def
  by (rule foot_first foot_intros | erule may_cmds_host | assumption | simp)+

lemma foot_checkHAReplicasRunning [foot_intros]: "foot A (checkHAReplicasRunning E C)"
  unfolding checkHAReplicasRunning_def count_available_def Let_def
  by (rule foot_first foot_intros)+

end
