(* ===== verification/Timing.thy ===== *)
theory Timing
  imports World
begin

text \<open>
  The reporter of event durations: internal/app/event_reporter.go. \<open>timings\<close> of the process is
  None when there is no reporter (a nil pointer), otherwise whether the reporter has its file open
  (after a failed reopening it logs to nowhere). The log text is the event \<open>EvTiming\<close>.
\<close>

definition set_timings :: "bool option \<Rightarrow> unit M" where
  "set_timings t = modify (\<lambda>s. s\<lparr>timings := t\<rparr>)"

text \<open>The logger that \<open>openTimingLog\<close> builds on the file has no state; the error is that of opening.\<close>
definition openTimingLog :: "env \<Rightarrow> string \<Rightarrow> goerr option M" where
  "openTimingLog E path = file_action E (OpenLog path)"

definition newTimingReporter :: "env \<Rightarrow> Config \<Rightarrow> unit M" where
  "newTimingReporter E C =
     (if c_EventTimingLogFile C = [] then set_timings None
      else perform (openTimingLog E (c_EventTimingLogFile C)) (\<lambda>e.
        set_timings (if e = None then Some True else None)))"

definition reportTiming :: "string \<Rightarrow> duration \<Rightarrow> unit M" where
  "reportTiming eventType duration = perform (gets timings) (\<lambda>t.
     if t = Some True then record_event (EvTiming eventType duration) else ret ())"

text \<open>Closing the log file, if it is open. The error of closing is dropped.\<close>
definition close_log :: "env \<Rightarrow> Config \<Rightarrow> bool \<Rightarrow> unit M" where
  "close_log E C is_open =
     (if is_open then andThen (file_action E (CloseLog (c_EventTimingLogFile C))) (ret ()) else ret ())"

definition Reopen :: "env \<Rightarrow> Config \<Rightarrow> unit M" where
  "Reopen E C = perform (gets timings) (\<lambda>t. case t of
     None \<Rightarrow> ret ()
   | Some is_open \<Rightarrow> andThen (close_log E C is_open)
       (perform (openTimingLog E (c_EventTimingLogFile C)) (\<lambda>e.
         set_timings (Some (e = None)))))"

definition Close_timings :: "env \<Rightarrow> Config \<Rightarrow> unit M" where
  "Close_timings E C = perform (gets timings) (\<lambda>t. case t of
     None \<Rightarrow> ret ()
   | Some is_open \<Rightarrow> andThen (close_log E C is_open) (set_timings (Some False)))"

lemma foot_set_timings [foot_intros]: "foot A (set_timings t)"
  by (auto simp: set_timings_def intro!: foot_intros)

lemma foot_reportTiming [foot_intros]: "foot A (reportTiming n d)"
  by (auto simp: reportTiming_def intro!: foot_intros foot_record)

end
