(* ===== verification/PoisonPill.thy ===== *)
theory PoisonPill
  imports Master Timing
begin

text \<open>
  The poison pill, with which a manager makes a lost master go offline: internal/app/poison_pill.go.
  \<open>applyPoisonPill\<close> updates its argument in place: the pill it leaves is part of the result.
\<close>

definition getPoisonPill :: "env \<Rightarrow> Config \<Rightarrow> (goerr + PoisonPill) M" where
  "getPoisonPill E C = dcs_Get E C as_pill pathPoisonPill"

definition issuePoisonPill :: "env \<Rightarrow> Config \<Rightarrow> string \<Rightarrow> goerr option M" where
  "issuePoisonPill E C targetHost = perform (now E) (\<lambda>t.
     dcs_Create E C pathPoisonPill (JPill (zero_PoisonPill\<lparr>pp_TargetHost := targetHost,
       pp_InitiatedBy := c_Hostname C, pp_InitiatedAt := t\<rparr>)))"

definition applyPoisonPill :: "env \<Rightarrow> Config \<Rightarrow> PoisonPill \<Rightarrow> (goerr option \<times> PoisonPill) M" where
  "applyPoisonPill E C pill =
     (if pp_TargetHost pill \<noteq> c_Hostname C then ret (None, pill)
      else perform (shard_Local C) (\<lambda>local.
        perform (IsOffline E local) (\<lambda>r. case r of
          Inl e \<Rightarrow> perform (Restart E C local) (\<lambda>e'. ret (e', pill))
        | Inr isOffline \<Rightarrow>
            perform (if \<not> isOffline then SetOffline E C local else ret None) (\<lambda>err. case err of
              Some e \<Rightarrow> ret (Some e, pill)
            | None \<Rightarrow> (let pill' = pill\<lparr>pp_Applied := True\<rparr> in
                perform (dcs_Set E C pathPoisonPill (JPill pill')) (\<lambda>e'. ret (e', pill')))))))"

definition clearPoisonPill :: "env \<Rightarrow> Config \<Rightarrow> goerr option M" where
  "clearPoisonPill E C = dcs_Delete E C pathPoisonPill"

text \<open>
  One tick of \<open>waitPoisonPill\<close>. A failed read leaves the variable as it is. (An unreadable document
  is taken to leave it too.)
\<close>
definition wait_pill_tick :: "env \<Rightarrow> Config \<Rightarrow> PoisonPill \<Rightarrow> (PoisonPill + PoisonPill) M" where
  "wait_pill_tick E C pill = perform (dcs_Get E C as_pill pathPoisonPill) (\<lambda>r.
     let pill1 = (case r of Inl e \<Rightarrow> pill | Inr p \<Rightarrow> p) in
     perform (applyPoisonPill E C pill1) (\<lambda>(err, pill2).
       ret (if pp_Applied pill2 then Inr pill2 else Inl pill2)))"

text \<open>Whether the pill was applied is only logged; the caller goes on in either case.\<close>
definition waitPoisonPill :: "env \<Rightarrow> Config \<Rightarrow> duration \<Rightarrow> unit M" where
  "waitPoisonPill E C timeout = perform (now E) (\<lambda>t.
     andThen (tick_loop E second (t + timeout) (wait_pill_tick E C) id zero_PoisonPill) (ret ()))"

section \<open>Footprints\<close>

lemma foot_pill [foot_intros]:
  "foot A (getPoisonPill E C)"
  "may_write A C pathPoisonPill \<Longrightarrow> foot A (issuePoisonPill E C h)"
  "may_write A C pathPoisonPill \<Longrightarrow> foot A (clearPoisonPill E C)"
  unfolding getPoisonPill_def issuePoisonPill_def clearPoisonPill_def by (intro foot_intros; simp)+

text \<open>A pill acts on the local node only.\<close>
lemma foot_applyPoisonPill [foot_intros]:
  "may_write A C pathPoisonPill \<Longrightarrow> host_may A (c_Hostname C) (\<lambda>c. c \<in> set offline_cmds) \<Longrightarrow>
   (\<And>a r. p_ev A (EvExec a r)) \<Longrightarrow> foot A (applyPoisonPill E C pill)"
  unfolding applyPoisonPill_def Let_def
  by (rule foot_first foot_intros | erule may_cmds_host | assumption | simp add: list_all_iff)+

lemma foot_waitPoisonPill [foot_intros]:
  "p_spin A \<Longrightarrow> may_write A C pathPoisonPill \<Longrightarrow>
   host_may A (c_Hostname C) (\<lambda>c. c \<in> set offline_cmds) \<Longrightarrow>
   (\<And>a r. p_ev A (EvExec a r)) \<Longrightarrow> foot A (waitPoisonPill E C timeout)"
  unfolding waitPoisonPill_def wait_pill_tick_def Let_def
  by (rule foot_first foot_intros | assumption | blast)+

end
