(* ===== verification/LocalRepair.thy ===== *)
theory LocalRepair
  imports PoisonPill
begin

text \<open>
  Repairing the local node: \<open>adjustAofMode\<close> of internal/app/aof.go and \<open>repairLocalNode\<close> of
  internal/app/repair.go, in the pieces of its text: the fail timer with its restart, the checks of
  an online node, whether an offline node must stay offline, and bringing it online.
\<close>

section \<open>Append-only file\<close>

definition adjustAofMode :: "env \<Rightarrow> Config \<Rightarrow> string \<Rightarrow> goerr option M" where
  "adjustAofMode E C master =
     (if app_aofMode C = modeUnspecified then ret None
      else perform (shard_Local C) (\<lambda>local.
        perform (if app_aofMode C = modeOff then ret False
          else if app_aofMode C = modeOnReplicas
          then perform (FQDN local) (\<lambda>fqdn.
                 if fqdn = master then perform (checkHAReplicasRunning E C) (\<lambda>b. ret (\<not> b))
                 else ret True)
          else ret True) (\<lambda>targetMode.
        attempt_err (GetAppendonly E local) (\<lambda>currentMode.
        checked (if currentMode \<noteq> targetMode then SetAppendonly E local targetMode else ret None)
          (if vc_AofPath (c_Valkey C) \<noteq> [] \<and> \<not> targetMode
           then perform (file_exists E (vc_AofPath (c_Valkey C))) (\<lambda>b.
                  if b then file_action E (RemoveAll (vc_AofPath (c_Valkey C))) else ret None)
           else ret None)))))"

section \<open>The fail timer\<close>

definition touch_nodeFailTime :: "env \<Rightarrow> string \<Rightarrow> unit M" where
  "touch_nodeFailTime E h = perform (now E) (set_nodeFailTime h)"

text \<open>
  The node does not answer. \<open>err\<close> is assigned the result of SCRIPT KILL, and the next condition
  reads the text of \<open>err\<close>: a successful SCRIPT KILL makes that a nil dereference.
\<close>
definition local_failed :: "env \<Rightarrow> Config \<Rightarrow> nodeP \<Rightarrow> goerr \<Rightarrow> unit M" where
  "local_failed E C local err = perform (FQDN local) (\<lambda>fqdn.
     perform (gets (\<lambda>s. time_of (nodeFailTime s) fqdn)) (\<lambda>t0.
     andThen (if is_zero t0 then touch_nodeFailTime E fqdn else ret ())
     (perform (gets (\<lambda>s. time_of (nodeFailTime s) fqdn)) (\<lambda>t1.
      perform (time_since E t1) (\<lambda>failedTime.
      perform (if failedTime > vc_BusyTimeout (c_Valkey C) \<and> HasPrefix (err_msg err) ''BUSY ''
               then NodeScriptKill E local else ret (Some err)) (\<lambda>err'.
      perform (deref err') (\<lambda>e.
        if HasPrefix (err_msg e) ''LOADING '' then touch_nodeFailTime E fqdn
        else if failedTime > vc_RestartTimeout (c_Valkey C)
        then andThen (touch_nodeFailTime E fqdn) (andThen (Restart E C local) (ret ()))
        else ret ())))))))"

text \<open>Report how long the node was offline and forget its fail timer.\<close>
definition report_offline :: "env \<Rightarrow> string \<Rightarrow> unit M" where
  "report_offline E fqdn = perform (gets (\<lambda>s. nodeFailTime s fqdn)) (\<lambda>t. case t of
     None \<Rightarrow> ret ()
   | Some failTime \<Rightarrow> perform (time_since E failTime) (\<lambda>dur. reportTiming ''node_offline'' dur))"

definition local_timer :: "env \<Rightarrow> Config \<Rightarrow> nodeP \<Rightarrow> bool \<Rightarrow> goerr option \<Rightarrow> unit M" where
  "local_timer E C local offline err = (case err of
     Some e \<Rightarrow> local_failed E C local e
   | None \<Rightarrow> if offline then ret ()
       else perform (FQDN local) (\<lambda>fqdn.
              andThen (report_offline E fqdn) (delete_nodeFailTime fqdn)))"

section \<open>An online node\<close>

text \<open>Every error of the three steps is logged.\<close>
definition repair_online :: "env \<Rightarrow> Config \<Rightarrow> string \<Rightarrow> info \<Rightarrow> unit M" where
  "repair_online E C master info =
     andThen (adjustAofMode E C master)
     (andThen (closeStaleReplica E C master)
     (andThen (reservedConnectionsWatchdog E C info) (ret ())))"

section \<open>An offline node\<close>

text \<open>
  The loop over the hosts of the local master's shard: is one of them active and ahead? (The loop
  leaves the function at the first.)
\<close>
definition ahead_of :: "string list \<Rightarrow> string \<Rightarrow> HostState \<Rightarrow> shard_state \<Rightarrow> bool" where
  "ahead_of activeNodes master state shardState =
     list_ex (\<lambda>(host, hostState). host \<noteq> master \<and>
       getOffset (Some state) < getOffset (Some hostState) \<and> host \<in> set activeNodes) shardState"

definition count_syncing :: "string \<Rightarrow> shard_state \<Rightarrow> int" where
  "count_syncing master shardState =
     foldl (\<lambda>syncing (host, hostState).
       if hs_PingOk hostState \<and> host \<noteq> master \<and>
          (case hs_ReplicaState hostState of None \<Rightarrow> False | Some rs \<Rightarrow> rs_MasterSyncInProgress rs)
       then syncing + 1 else syncing) 0 shardState"

text \<open>
  A stale offline replica. The states of the DCS are nil when reading them fails, so that the
  master's entry is nil and reading its ping panics. True: the node may go online.
\<close>
definition repair_stale :: "env \<Rightarrow> Config \<Rightarrow> nodeP \<Rightarrow> string \<Rightarrow> bool \<Rightarrow> HostState \<Rightarrow> bool M" where
  "repair_stale E C local master replPaused state =
     perform (getShardStateFromDcs E C) (\<lambda>r.
     let shardState = (case r of Inl e \<Rightarrow> [] | Inr ss \<Rightarrow> ss);
         syncing = count_syncing master shardState;
         masterState = map_of shardState master
     in perform (FQDN local) (\<lambda>fqdn.
        perform (if replPaused then ret True
                 else perform (replicates E masterState (hs_ReplicaState state) fqdn None True)
                        (\<lambda>b. ret (\<not> b))) (\<lambda>broken.
        andThen (if broken \<and> syncing < vc_MaxParallelSyncs (c_Valkey C)
                 then repairReplica E C local masterState state master fqdn else ret ())
        (perform (state_at shardState master) (\<lambda>ms.
         perform (master_fresh E C ms) (\<lambda>fresh. ret (\<not> fresh)))))))"

text \<open>
  May the offline node go online: \<open>Inl\<close> the value to return at once, \<open>Inr\<close> go on.
\<close>
definition may_go_online ::
  "env \<Rightarrow> Config \<Rightarrow> nodeP \<Rightarrow> string \<Rightarrow> string \<Rightarrow> bool \<Rightarrow> shard_state \<Rightarrow> HostState \<Rightarrow> (bool + unit) M" where
  "may_go_online E C local fqdn master replPaused shardState state =
     (if master = fqdn \<and> length shardState \<noteq> 1
      then perform (GetActiveNodes E C) (\<lambda>r. case r of
             Inl e \<Rightarrow> ret (Inl True)
           | Inr activeNodes \<Rightarrow>
               if ahead_of activeNodes master state shardState then ret (Inl False)
               else ret (Inr ()))
      else if master = fqdn
      then if hs_IsMaster state then ret (Inr ())
           else perform (now E) (\<lambda>t.
                perform (promote E C master master shardState
                    (t + vc_WaitPromoteForceTimeout (c_Valkey C))) (\<lambda>e.
                  ret (if e = None then Inr () else Inl False)))
      else perform (isReplicaStale E C (hs_ReplicaState state) True) (\<lambda>stale.
        if \<not> stale then ret (Inr ())
        else perform (repair_stale E C local master replPaused state) (\<lambda>go.
               ret (if go then Inr () else Inl False))))"

text \<open>The local master waits for the replicas its active nodes require, before it goes online.\<close>
definition master_quorum :: "env \<Rightarrow> Config \<Rightarrow> nodeP \<Rightarrow> bool M" where
  "master_quorum E C local = perform (GetActiveNodes E C) (\<lambda>r. case r of
     Inl e \<Rightarrow> ret False
   | Inr activeNodes \<Rightarrow>
       (let expectedNumReplicas = getNumReplicasToWrite activeNodes in
        perform (GetNumQuorumReplicas E local) (\<lambda>q. case q of
          Inl e \<Rightarrow> ret False
        | Inr actualNumReplicas \<Rightarrow>
            if expectedNumReplicas > actualNumReplicas
            then perform (SetNumQuorumReplicas E local expectedNumReplicas)
                   (\<lambda>(err, rewriteErr). ret (err = None))
            else ret True)))"

definition go_online :: "env \<Rightarrow> Config \<Rightarrow> nodeP \<Rightarrow> string \<Rightarrow> string \<Rightarrow> bool M" where
  "go_online E C local fqdn master =
     andThen (report_offline E fqdn)
     (andThen (delete_nodeFailTime fqdn)
     (perform (if master = fqdn then master_quorum E C local else ret True) (\<lambda>ok.
      if \<not> ok then ret False
      else perform (SetOnline E C local) (\<lambda>e. case e of
             Some x \<Rightarrow> ret False
           | None \<Rightarrow> andThen (set_dcsDivergeTime 0) (ret True)))))"

definition repair_offline :: "env \<Rightarrow> Config \<Rightarrow> nodeP \<Rightarrow> string \<Rightarrow> bool \<Rightarrow> bool M" where
  "repair_offline E C local master replPaused =
     perform (getShardStateFromDB E C) (\<lambda>r. case r of
       Inl e \<Rightarrow> ret False
     | Inr shardState \<Rightarrow> perform (FQDN local) (\<lambda>fqdn. case map_of shardState fqdn of
         None \<Rightarrow> ret True
       | Some state \<Rightarrow>
           perform (may_go_online E C local fqdn master replPaused shardState state) (\<lambda>g. case g of
             Inl result \<Rightarrow> ret result
           | Inr u \<Rightarrow> go_online E C local fqdn master)))"

section \<open>The whole\<close>

definition repairLocalNode :: "env \<Rightarrow> Config \<Rightarrow> string \<Rightarrow> bool M" where
  "repairLocalNode E C master =
     perform (shard_Local C) (\<lambda>local.
     perform (GetState E C local) (\<lambda>(info, minReplicas, isReadOnly, offline, replPaused, err).
     andThen (local_timer E C local offline err)
     (if \<not> offline then andThen (repair_online E C master info) (ret True)
      else repair_offline E C local master replPaused)))"

section \<open>Footprints\<close>

text \<open>
  The repair of the local node sends its commands to the local node, runs the configured commands
  and may remove the append-only file; it writes nothing to the DCS, and it always comes to an end.
\<close>

definition local_may :: "permit \<Rightarrow> Config \<Rightarrow> bool" where
  "local_may A C \<longleftrightarrow> host_may A (c_Hostname C) (\<lambda>c. True) \<and> (\<forall>a r. p_ev A (EvExec a r)) \<and>
     (\<forall>f r. p_ev A (EvFile f r))"

lemma local_mayD:
  assumes "local_may A C"
  shows "host_may A (c_Hostname C) P" and "p_ev A (EvExec a r)" and "p_ev A (EvFile f r)"
  using assms by (simp_all add: local_may_def host_may_def)

lemma may_cmds_local: "local_may A C \<Longrightarrow> ptr_to (c_Hostname C) p \<Longrightarrow> may_cmds A p cs"
  by (rule may_cmds_host [where P = "\<lambda>c. True"]) (simp_all add: local_mayD list_all_iff)

lemma foot_adjustAofMode [foot_intros]: "local_may A C \<Longrightarrow> foot A (adjustAofMode E C master)"
  unfolding adjustAofMode_def
  by (rule foot_first foot_intros | erule may_cmds_local local_mayD | assumption)+

lemma foot_report_offline [foot_intros]: "foot A (report_offline E h)"
  unfolding report_offline_def by (intro foot_intros)

lemma foot_local_timer [foot_intros]:
  "local_may A C \<Longrightarrow> ptr_to (c_Hostname C) p \<Longrightarrow> foot A (local_timer E C p offline err)"
  unfolding local_timer_def local_failed_def touch_nodeFailTime_def
  by (rule foot_first foot_intros | erule may_cmds_local local_mayD | assumption)+

lemma foot_repair_online [foot_intros]: "local_may A C \<Longrightarrow> foot A (repair_online E C master info)"
  unfolding repair_online_def by (rule foot_intros | erule local_mayD | assumption)+

lemma foot_repair_stale [foot_intros]:
  "local_may A C \<Longrightarrow> ptr_to (c_Hostname C) p \<Longrightarrow> foot A (repair_stale E C p master paused st)"
  unfolding repair_stale_def Let_def
  by (rule foot_intros | erule local_mayD | assumption)+

lemma foot_may_go_online [foot_intros]:
  "local_may A C \<Longrightarrow> ptr_to (c_Hostname C) p \<Longrightarrow> fqdn = c_Hostname C \<Longrightarrow>
   foot A (may_go_online E C p fqdn master paused ss st)"
  unfolding may_go_online_def
  by (rule foot_intros | simp add: local_mayD)+

lemma foot_go_online [foot_intros]:
  "local_may A C \<Longrightarrow> ptr_to (c_Hostname C) p \<Longrightarrow> foot A (go_online E C p fqdn master)"
  unfolding go_online_def master_quorum_def Let_def
  by (rule foot_intros | erule may_cmds_local | assumption)+

lemma foot_repair_offline [foot_intros]:
  "local_may A C \<Longrightarrow> ptr_to (c_Hostname C) p \<Longrightarrow> foot A (repair_offline E C p master paused)"
  unfolding repair_offline_def
  by (rule foot_first foot_intros | assumption | rule refl)+

lemma foot_repairLocalNode [foot_intros]:
  "local_may A C \<Longrightarrow> foot A (repairLocalNode E C master)"
  unfolding repairLocalNode_def
  by (rule foot_first foot_intros | assumption)+

end
