(* ===== verification/MaintenanceMode.thy ===== *)
theory MaintenanceMode
  imports LocalRepair
begin

text \<open>
  Maintenance: internal/app/maintenance.go. The manager acknowledges a request by setting
  \<open>RdSyncPaused\<close>; every process then idles until the document is gone or asks to leave.
\<close>

definition enterMaintenance :: "env \<Rightarrow> Config \<Rightarrow> Maintenance \<Rightarrow> string \<Rightarrow> goerr option M" where
  "enterMaintenance E C maintenance master =
     perform (shard_Get master) (\<lambda>node.
     perform (SetNumQuorumReplicas E node 0) (\<lambda>(err, rewriteErr).
     if err \<noteq> None then ret err
     else if rewriteErr \<noteq> None then ret rewriteErr
     else checked (dcs_Delete E C pathActiveNodes)
            (dcs_Set E C pathMaintenance (JMaint (maintenance\<lparr>mt_RdSyncPaused := True\<rparr>)))))"

definition leaveMaintenance :: "env \<Rightarrow> Config \<Rightarrow> goerr option M" where
  "leaveMaintenance E C =
     checked (UpdateHostsInfo E C)
     (attempt_err (getShardStateFromDB E C) (\<lambda>state0.
      attempt_err (ensureCurrentMaster E C state0) (\<lambda>master.
      attempt_err (getShardStateFromDcs E C) (\<lambda>stateDcs.
      attempt_err (getShardStateFromDB E C) (\<lambda>state.
      checked (updateActiveNodes E C state stateDcs [] master)
      (attempt_err (GetActiveNodes E C) (\<lambda>activeNodes.
       if length activeNodes = 0 then ret (Some (Errorf ''no active nodes''))
       else andThen (repairShard E C state activeNodes master)
              (dcs_Delete E C pathMaintenance))))))))"

definition createMaintenanceFile :: "env \<Rightarrow> Config \<Rightarrow> unit M" where
  "createMaintenanceFile E C = andThen (file_action E (WriteFile (c_MaintenanceFile C))) (ret ())"

definition doesMaintenanceFileExist :: "env \<Rightarrow> Config \<Rightarrow> bool M" where
  "doesMaintenanceFileExist E C = file_exists E (c_MaintenanceFile C)"

definition removeMaintenanceFile :: "env \<Rightarrow> Config \<Rightarrow> unit M" where
  "removeMaintenanceFile E C = andThen (file_action E (RemoveFile (c_MaintenanceFile C))) (ret ())"

definition GetMaintenance :: "env \<Rightarrow> Config \<Rightarrow> (goerr + Maintenance) M" where
  "GetMaintenance E C = dcs_Get E C as_maint pathMaintenance"

text \<open>
  Reading an optional document: \<open>Inl\<close> an error other than a missing key, None for a missing key.
  This is the \<open>err != nil && !errors.Is(err, dcs.ErrNotFound)\<close> idiom around a pointer.
\<close>
definition optional :: "(goerr + 'a) \<Rightarrow> goerr + 'a option" where
  "optional r = (case r of Inr x \<Rightarrow> Inr (Some x)
     | Inl e \<Rightarrow> if err_is e ErrNotFound then Inr None else Inl e)"

definition leaving :: "env \<Rightarrow> Config \<Rightarrow> appState M" where
  "leaving E C = perform (AcquireLock E C pathManagerLock) (\<lambda>locked.
     if locked
     then perform (leaveMaintenance E C) (\<lambda>e. case e of
            Some x \<Rightarrow> ret stateMaintenance
          | None \<Rightarrow> andThen (removeMaintenanceFile E C) (ret stateManager))
     else andThen (removeMaintenanceFile E C) (ret stateCandidate))"

definition handle_Maintenance :: "env \<Rightarrow> Config \<Rightarrow> appState M" where
  "handle_Maintenance E C =
     perform (doesMaintenanceFileExist E C) (\<lambda>exists.
     andThen (if exists then ret () else createMaintenanceFile E C)
     (perform (GetMaintenance E C) (\<lambda>r. case optional r of
        Inl e \<Rightarrow> ret stateMaintenance
      | Inr None \<Rightarrow> leaving E C
      | Inr (Some maintenance) \<Rightarrow>
          if mt_ShouldLeave maintenance then leaving E C else ret stateMaintenance)))"

section \<open>Footprints\<close>

lemma foot_maintenance_reads [foot_intros]:
  "foot A (doesMaintenanceFileExist E C)" "foot A (GetMaintenance E C)"
  unfolding doesMaintenanceFileExist_def GetMaintenance_def by (intro foot_intros)+

lemma foot_maintenance_file [foot_intros]:
  "(\<And>f r. p_ev A (EvFile f r)) \<Longrightarrow> foot A (createMaintenanceFile E C)"
  "(\<And>f r. p_ev A (EvFile f r)) \<Longrightarrow> foot A (removeMaintenanceFile E C)"
  unfolding createMaintenanceFile_def removeMaintenanceFile_def by (intro foot_intros; simp)+

lemma foot_enterMaintenance [foot_intros]:
  "host_may A master repair_cmd \<Longrightarrow> may_write A C pathActiveNodes \<Longrightarrow> may_write A C pathMaintenance \<Longrightarrow>
   foot A (enterMaintenance E C m master)"
  unfolding enterMaintenance_def
  by (rule foot_first foot_intros | erule may_cmds_host | assumption | simp)+

lemma foot_leaveMaintenance [foot_intros]:
  "(\<And>h. host_may A h repair_cmd) \<Longrightarrow> (\<And>a r. p_ev A (EvExec a r)) \<Longrightarrow>
   may_write A C pathMasterNode \<Longrightarrow> may_write A C pathActiveNodes \<Longrightarrow> may_write A C pathMaintenance \<Longrightarrow>
   p_hosts A (c_Hostname C) \<Longrightarrow> foot A (leaveMaintenance E C)"
  unfolding leaveMaintenance_def by (rule foot_first foot_intros | assumption | blast)+

end
