(* ===== verification/SentiCache.thy ===== *)
theory SentiCache
  imports Lag
begin

text \<open>
  The sentinel cache: internal/valkey/senticache.go (reading the cache's state and computing the
  update command) and \<open>updateCache\<close> of internal/app/cache.go (the desired state of the cache).
\<close>

section \<open>Data\<close>

record SentiCacheSentinel =
  scs_Name :: string
  scs_RunID :: string
  scs_IP :: string
  scs_Port :: int

record SentiCacheReplica =
  scr_IP :: string
  scr_RunID :: string
  scr_MasterHost :: string
  scr_Port :: int
  scr_MasterLinkDownTime :: int
  scr_SlavePriority :: int
  scr_ReplicaAnnounced :: int
  scr_MasterPort :: int
  scr_SlaveMasterLinkStatus :: int
  scr_SlaveReplOffset :: int

record SentiCacheMaster =
  scm_Name :: string
  scm_IP :: string
  scm_RunID :: string
  scm_Port :: int
  scm_Quorum :: int
  scm_ParallelSyncs :: int
  scm_ConfigEpoch :: int

record CacheState =
  cs_Replicas :: "SentiCacheReplica list"
  cs_Sentinels :: "SentiCacheSentinel list"
  cs_Master :: SentiCacheMaster

definition zero_sentinel :: SentiCacheSentinel where
  "zero_sentinel = \<lparr> scs_Name = [], scs_RunID = [], scs_IP = [], scs_Port = 0 \<rparr>"

definition zero_replica :: SentiCacheReplica where
  "zero_replica = \<lparr> scr_IP = [], scr_RunID = [], scr_MasterHost = [], scr_Port = 0,
     scr_MasterLinkDownTime = 0, scr_SlavePriority = 0, scr_ReplicaAnnounced = 0,
     scr_MasterPort = 0, scr_SlaveMasterLinkStatus = 0, scr_SlaveReplOffset = 0 \<rparr>"

definition zero_master :: SentiCacheMaster where
  "zero_master = \<lparr> scm_Name = [], scm_IP = [], scm_RunID = [], scm_Port = 0, scm_Quorum = 0,
     scm_ParallelSyncs = 0, scm_ConfigEpoch = 0 \<rparr>"

definition zero_cache_state :: CacheState where
  "zero_cache_state = \<lparr> cs_Replicas = [], cs_Sentinels = [], cs_Master = zero_master \<rparr>"

section \<open>Reading the cache\<close>

text \<open>\<open>strconv.Atoi\<close> or \<open>strconv.ParseInt(_, 10, 64)\<close>, named by \<open>fn\<close>, with the caller's error.\<close>
definition int_or :: "string \<Rightarrow> string \<Rightarrow> string \<Rightarrow> (int \<Rightarrow> 'r) \<Rightarrow> goerr + 'r" where
  "int_or fn msg v f = (case ParseInt 64 v of
     (n, None) \<Rightarrow> Inr (f n) | (n, Some e) \<Rightarrow> Inl (Errorf (msg @ '': '' @ num_error_text fn v e)))"

text \<open>A fold over the entries of a map that stops at the first error.\<close>
primrec fold_or :: "('a \<Rightarrow> 'r \<Rightarrow> goerr + 'r) \<Rightarrow> 'a list \<Rightarrow> 'r \<Rightarrow> goerr + 'r" where
  "fold_or f [] r = Inr r"
| "fold_or f (x # xs) r = (case f x r of Inl e \<Rightarrow> Inl e | Inr r' \<Rightarrow> fold_or f xs r')"

text \<open>The argument \<open>index\<close> is the position of the entry in the reply.\<close>
definition sentinel_field ::
  "nat \<Rightarrow> string \<times> string \<Rightarrow> SentiCacheSentinel \<Rightarrow> goerr + SentiCacheSentinel" where
  "sentinel_field index kv x = (let (key, value) = kv in
     if key = ''name'' then Inr (x\<lparr>scs_Name := value\<rparr>)
     else if key = ''ip'' then Inr (x\<lparr>scs_IP := value\<rparr>)
     else if key = ''port'' 
     then int_or ''Atoi'' (''port in senticache sentinel '' @ itoa (int index)) value (\<lambda>n. x\<lparr>scs_Port := n\<rparr>)
     else if key = ''runid'' then Inr (x\<lparr>scs_RunID := value\<rparr>)
     else Inr x)"

definition parse_uint64 :: "string \<Rightarrow> goerr + int" where
  "parse_uint64 v = (case ParseUint 64 v of
     (n, None) \<Rightarrow> Inr (int n)
   | (n, Some e) \<Rightarrow> Inl (Errorf (''config-epoch in senticache master reply: '' @ num_error_text ''ParseUint'' v e)))"

definition master_field :: "string \<times> string \<Rightarrow> SentiCacheMaster \<Rightarrow> goerr + SentiCacheMaster" where
  "master_field kv x = (let (key, value) = kv in
     if key = ''name'' then Inr (x\<lparr>scm_Name := value\<rparr>)
     else if key = ''ip'' then Inr (x\<lparr>scm_IP := value\<rparr>)
     else if key = ''port'' then int_or ''Atoi'' ''port in senticache master reply'' value (\<lambda>n. x\<lparr>scm_Port := n\<rparr>)
     else if key = ''runid'' then Inr (x\<lparr>scm_RunID := value\<rparr>)
     else if key = ''quorum'' then int_or ''Atoi'' ''quorum in senticache master reply'' value (\<lambda>n. x\<lparr>scm_Quorum := n\<rparr>)
     else if key = ''parallel-syncs''
     then int_or ''Atoi'' ''parallel-syncs in senticache master reply'' value (\<lambda>n. x\<lparr>scm_ParallelSyncs := n\<rparr>)
     else if key = ''config-epoch''
     then (case parse_uint64 value of Inl e \<Rightarrow> Inl e | Inr n \<Rightarrow> Inr (x\<lparr>scm_ConfigEpoch := n\<rparr>))
     else Inr x)"

definition replica_field ::
  "nat \<Rightarrow> string \<times> string \<Rightarrow> SentiCacheReplica \<Rightarrow> goerr + SentiCacheReplica" where
  "replica_field index kv x = (let (key, value) = kv; at = '' in senticache replica '' @ itoa (int index) in
     if key = ''ip'' then Inr (x\<lparr>scr_IP := value\<rparr>)
     else if key = ''port'' then int_or ''Atoi'' (''port'' @ at) value (\<lambda>n. x\<lparr>scr_Port := n\<rparr>)
     else if key = ''runid'' then Inr (x\<lparr>scr_RunID := value\<rparr>)
     else if key = ''master-link-down-time''
     then int_or ''ParseInt'' (''master-link-down-time'' @ at) value (\<lambda>n. x\<lparr>scr_MasterLinkDownTime := n\<rparr>)
     else if key = ''slave-priority''
     then int_or ''Atoi'' (''slave-priority'' @ at) value (\<lambda>n. x\<lparr>scr_SlavePriority := n\<rparr>)
     else if key = ''replica-announced''
     then int_or ''Atoi'' (''replica-announced'' @ at) value (\<lambda>n. x\<lparr>scr_ReplicaAnnounced := n\<rparr>)
     else if key = ''master-host'' then Inr (x\<lparr>scr_MasterHost := value\<rparr>)
     else if key = ''master-port''
     then int_or ''Atoi'' (''master-port'' @ at) value (\<lambda>n. x\<lparr>scr_MasterPort := n\<rparr>)
     else if key = ''master-link-status''
     then Inr (x\<lparr>scr_SlaveMasterLinkStatus := (if value = ''ok'' then 0 else 1)\<rparr>)
     else if key = ''slave-repl-offset''
     then int_or ''ParseInt'' (''slave-repl-offset'' @ at) value (\<lambda>n. x\<lparr>scr_SlaveReplOffset := n\<rparr>)
     else Inr x)"

text \<open>One raw entry of a reply.\<close>
definition parse_entry ::
  "(string \<times> string \<Rightarrow> 'r \<Rightarrow> goerr + 'r) \<Rightarrow> 'r \<Rightarrow> reply \<Rightarrow> goerr + 'r" where
  "parse_entry field zero raw = (case reply_map raw of Inl e \<Rightarrow> Inl e | Inr kvs \<Rightarrow> fold_or field kvs zero)"

fun parse_entries ::
  "(nat \<Rightarrow> string \<times> string \<Rightarrow> 'r \<Rightarrow> goerr + 'r) \<Rightarrow> 'r \<Rightarrow> nat \<Rightarrow> reply list \<Rightarrow> goerr + 'r list" where
  "parse_entries field zero index [] = Inr []"
| "parse_entries field zero index (raw # raws) = (case parse_entry (field index) zero raw of
     Inl e \<Rightarrow> Inl e
   | Inr x \<Rightarrow> (case parse_entries field zero (Suc index) raws of Inl e \<Rightarrow> Inl e | Inr xs \<Rightarrow> Inr (x # xs)))"

definition senti_array :: "reply \<Rightarrow> (reply list \<Rightarrow> goerr + 'r) \<Rightarrow> goerr + 'r" where
  "senti_array r f = (case reply_arr r of Inl e \<Rightarrow> Inl e | Inr raws \<Rightarrow> f raws)"

definition parse_sentinels :: "reply \<Rightarrow> goerr + SentiCacheSentinel list" where
  "parse_sentinels r = senti_array r (parse_entries sentinel_field zero_sentinel 0)"

definition parse_replicas :: "reply \<Rightarrow> goerr + SentiCacheReplica list" where
  "parse_replicas r = senti_array r (parse_entries replica_field zero_replica 0)"

text \<open>None is the nil master of an empty cache.\<close>
definition parse_master :: "reply \<Rightarrow> goerr + SentiCacheMaster option" where
  "parse_master r = senti_array r (\<lambda>raws. case raws of
     [] \<Rightarrow> Inr None
   | [raw] \<Rightarrow> (case parse_entry master_field zero_master raw of Inl e \<Rightarrow> Inl e | Inr m \<Rightarrow> Inr (Some m))
   | _ \<Rightarrow> Inl (Errorf (''got '' @ count_text raws @ '' masters in senticache'')))"

section \<open>The update command\<close>

definition num :: "int \<Rightarrow> string" where "num n = itoa n"
definition numc :: "int \<Rightarrow> string" where "numc n = itoa n @ '',''"

definition drop_sentinels :: "SentiCacheSentinel list \<Rightarrow> SentiCacheSentinel list \<Rightarrow> SentiCacheSentinel list" where
  "drop_sentinels current target =
     filter (\<lambda>s. \<not> list_ex (\<lambda>t. scs_Name s = scs_Name t) target) current"

definition drop_replicas :: "SentiCacheReplica list \<Rightarrow> SentiCacheReplica list \<Rightarrow> SentiCacheReplica list" where
  "drop_replicas current target =
     filter (\<lambda>r. \<not> list_ex (\<lambda>t. scr_IP r = scr_IP t \<and> scr_Port r = scr_Port t) target) current"

definition master_words :: "string \<Rightarrow> SentiCacheMaster \<Rightarrow> string list" where
  "master_words secret m =
     [''SENTINEL'', ''CACHE-UPDATE'', secret, ''master-name:'', scm_Name m @ '','',
      ''master-addr:'', scm_IP m, numc (scm_Port m),
      ''master-spec:'', scm_RunID m, num (scm_Quorum m), num (scm_ParallelSyncs m),
      numc (scm_ConfigEpoch m)]"

definition replica_words :: "SentiCacheReplica \<Rightarrow> string list" where
  "replica_words r =
     [''add-replica:'', scr_IP r, numc (scr_Port r),
      ''slave-spec:'', scr_IP r, num (scr_Port r), scr_RunID r, num (scr_MasterLinkDownTime r),
      num (scr_SlavePriority r), num (scr_ReplicaAnnounced r), scr_MasterHost r,
      num (scr_MasterPort r), num (scr_SlaveMasterLinkStatus r), numc (scr_SlaveReplOffset r)]"

definition update_command ::
  "string \<Rightarrow> SentiCacheSentinel list \<Rightarrow> SentiCacheReplica list \<Rightarrow> CacheState \<Rightarrow> string list" where
  "update_command secret sentinels replicas state =
     master_words secret (cs_Master state)
     @ concat (map (\<lambda>s. [''delete-sentinel:'', scs_Name s @ '',''])
         (drop_sentinels sentinels (cs_Sentinels state)))
     @ concat (map (\<lambda>r. [''delete-replica:'', scr_IP r, numc (scr_Port r)])
         (drop_replicas replicas (cs_Replicas state)))
     @ concat (map (\<lambda>s. [''add-sentinel:'', scs_Name s, scs_RunID s, scs_IP s, numc (scs_Port s)])
         (cs_Sentinels state))
     @ concat (map replica_words (cs_Replicas state))"

section \<open>The cache node\<close>

text \<open>\<open>NewRemoteSentiCacheNode\<close>\<close>
definition NewRemoteSentiCacheNode :: "env \<Rightarrow> Config \<Rightarrow> string \<Rightarrow> (goerr + senti_node) M" where
  "NewRemoteSentiCacheNode E C host =
     (let S = c_SentinelMode C;
          opts = \<lparr> co_InitAddress = JoinHostPort host (itoa (sc_CachePort S)), co_Username = sc_CacheAuthUser S,
                   co_Password = sc_CacheAuthPassword S, co_DialTimeout = vc_DialTimeout (c_Valkey C),
                   co_ConnWriteTimeout = vc_WriteTimeout (c_Valkey C), co_TLSConfig = None \<rparr> in
      attempt (with_tls E C (sc_UseTLS S) (sc_TLSCAPath S) host opts) (\<lambda>opts.
        perform (senti_dial E opts) (\<lambda>d.
          ret (Inr \<lparr> scn_conn = (d = None), scn_broken = False, scn_opts = opts \<rparr>))))"

definition NewSentiCacheNode :: "env \<Rightarrow> Config \<Rightarrow> (goerr + senti_node) M" where
  "NewSentiCacheNode E C = NewRemoteSentiCacheNode E C localhost"

text \<open>
  The methods return the node as changed. \<open>senti_query\<close> is the shape of \<open>master\<close>, \<open>sentinels\<close> and
  \<open>replicas\<close>: ensure the connection, send a command, read the reply.
\<close>
definition senti_ensureConn :: "env \<Rightarrow> senti_node \<Rightarrow> (goerr option \<times> senti_node) M" where
  "senti_ensureConn E s =
     (if scn_conn s then ret (None, s)
      else perform (senti_dial E (scn_opts s)) (\<lambda>d. ret (d, s\<lparr>scn_conn := (d = None)\<rparr>)))"

definition senti_query ::
  "env \<Rightarrow> string \<Rightarrow> vcmd \<Rightarrow> (reply \<Rightarrow> goerr + 'r) \<Rightarrow> senti_node \<Rightarrow> ((goerr + 'r) \<times> senti_node) M" where
  "senti_query E host c parse s = perform (senti_ensureConn E s) (\<lambda>(e, s'). case e of
     Some x \<Rightarrow> ret (Inl x, s')
   | None \<Rightarrow> perform (senti_cmd E host c) (\<lambda>r. ret (parse r, s')))"

definition senti_master :: "env \<Rightarrow> string \<Rightarrow> senti_node \<Rightarrow> ((goerr + SentiCacheMaster option) \<times> senti_node) M" where
  "senti_master E host = senti_query E host SentinelMasters parse_master"

definition senti_sentinels :: "env \<Rightarrow> string \<Rightarrow> senti_node \<Rightarrow> ((goerr + SentiCacheSentinel list) \<times> senti_node) M" where
  "senti_sentinels E host = senti_query E host SentinelSentinels parse_sentinels"

definition senti_replicas :: "env \<Rightarrow> string \<Rightarrow> senti_node \<Rightarrow> ((goerr + SentiCacheReplica list) \<times> senti_node) M" where
  "senti_replicas E host = senti_query E host SentinelReplicas parse_replicas"

definition senti_restart :: "env \<Rightarrow> Config \<Rightarrow> goerr option M" where
  "senti_restart E C = run_command_line E (sc_CacheRestartCommand (c_SentinelMode C))"

text \<open>\<open>Update\<close>: any failure marks the cache broken, and the next update restarts it first.\<close>
definition cache_Update ::
  "env \<Rightarrow> Config \<Rightarrow> string \<Rightarrow> CacheState \<Rightarrow> senti_node \<Rightarrow> (goerr option \<times> senti_node) M" where
  "cache_Update E C host state s =
     perform (if scn_broken s then senti_restart E C else ret None) (\<lambda>re. case re of
       Some e \<Rightarrow> ret (Some e, s)
     | None \<Rightarrow>
       let s1 = s\<lparr>scn_broken := False\<rparr> in
       perform (senti_master E host s1) (\<lambda>(m, s2). case m of
         Inl e \<Rightarrow> ret (Some e, s2\<lparr>scn_broken := True\<rparr>)
       | Inr master \<Rightarrow>
         perform (if master \<noteq> None then senti_sentinels E host s2
                  else ret (Inr [], s2)) (\<lambda>(ss, s3). case ss of
           Inl e \<Rightarrow> ret (Some e, s3\<lparr>scn_broken := True\<rparr>)
         | Inr sentinels \<Rightarrow>
           perform (if master \<noteq> None then senti_replicas E host s3
                    else ret (Inr [], s3)) (\<lambda>(rs, s4). case rs of
             Inl e \<Rightarrow> ret (Some e, s4\<lparr>scn_broken := True\<rparr>)
           | Inr replicas \<Rightarrow>
             perform (senti_cmd E host (SentinelCacheUpdate
                 (update_command (sc_CacheUpdateSecret (c_SentinelMode C)) sentinels replicas state)))
               (\<lambda>r. case reply_err r of
                  Some e \<Rightarrow> ret (Some e, s4\<lparr>scn_broken := True\<rparr>)
                | None \<Rightarrow> ret (None, s4))))))"

section \<open>The desired state\<close>

text \<open>\<open>masterReadOnly\<close> and the state under construction.\<close>
type_synonym building = "bool \<times> CacheState"

definition cache_sentinel :: "Config \<Rightarrow> string \<Rightarrow> HostState \<Rightarrow> CacheState \<Rightarrow> CacheState" where
  "cache_sentinel C fqdn hs state = (case hs_SentiCacheState hs of
     None \<Rightarrow> state
   | Some ss \<Rightarrow> if fqdn = c_Hostname C then state
       else state\<lparr>cs_Sentinels := cs_Sentinels state @
         [\<lparr> scs_Name = ss_Name ss, scs_RunID = ss_RunID ss,
            scs_IP = (if sc_AnnounceHostname (c_SentinelMode C) then fqdn else hs_IP hs),
            scs_Port = sc_CachePort (c_SentinelMode C) \<rparr>]\<rparr>)"

definition cache_master ::
  "Config \<Rightarrow> int \<Rightarrow> string \<Rightarrow> HostState \<Rightarrow> building \<Rightarrow> goerr + building" where
  "cache_master C nhosts fqdn hs b =
     (let (masterReadOnly, state) = b in
      if scm_IP (cs_Master state) \<noteq> [] \<and> \<not> masterReadOnly \<and> \<not> hs_IsReadOnly hs
      then Inl (Errorf (''2 open masters: '' @ hs_IP hs @ '' and '' @ scm_IP (cs_Master state)))
      else if hs_IsReadOnly hs \<and> \<not> masterReadOnly then Inr b
      else Inr (hs_IsReadOnly hs, state\<lparr>cs_Master := \<lparr>
             scm_Name = sc_ClusterName (c_SentinelMode C),
             scm_IP = (if sc_AnnounceHostname (c_SentinelMode C) then fqdn else hs_IP hs),
             scm_RunID = hs_RunID hs, scm_Port = vc_Port (c_Valkey C),
             scm_Quorum = nhosts div 2 + 1,
             scm_ParallelSyncs = vc_MaxParallelSyncs (c_Valkey C), scm_ConfigEpoch = 0 \<rparr>\<rparr>))"

definition cache_replica ::
  "Config \<Rightarrow> string \<Rightarrow> HostState \<Rightarrow> ReplicaState \<Rightarrow> NodeConfiguration \<Rightarrow> CacheState \<Rightarrow> CacheState" where
  "cache_replica C fqdn hs rs nc state = state\<lparr>cs_Replicas := cs_Replicas state @
     [\<lparr> scr_IP = (if sc_AnnounceHostname (c_SentinelMode C) then fqdn else hs_IP hs),
        scr_RunID = hs_RunID hs, scr_MasterHost = rs_MasterHost rs,
        scr_Port = vc_Port (c_Valkey C), scr_MasterLinkDownTime = rs_MasterLinkDownTime rs,
        scr_SlavePriority = nc_Priority nc, scr_ReplicaAnnounced = 1,
        scr_MasterPort = vc_Port (c_Valkey C),
        scr_SlaveMasterLinkStatus = (if rs_MasterLinkState rs then 0 else 1),
        scr_SlaveReplOffset = rs_ReplicationOffset rs \<rparr>]\<rparr>"

text \<open>One host of the loop of \<open>updateCache\<close>. A replica without replica state panics.\<close>
definition cache_step ::
  "env \<Rightarrow> Config \<Rightarrow> int \<Rightarrow> string \<times> HostState \<Rightarrow> (goerr + building) \<Rightarrow> (goerr + building) M" where
  "cache_step E C nhosts entry acc = (case acc of Inl e \<Rightarrow> ret (Inl e) | Inr b \<Rightarrow>
     (let (fqdn, hs) = entry; (masterReadOnly, state0) = b in
      if \<not> hs_PingOk hs \<or> hs_Error hs \<noteq> [] then ret (Inr b)
      else let state = cache_sentinel C fqdn hs state0 in
        if hs_IsOffline hs then ret (Inr (masterReadOnly, state))
        else if hs_IsMaster hs then ret (cache_master C nhosts fqdn hs (masterReadOnly, state))
        else attempt (GetNodeConfiguration E C fqdn) (\<lambda>nc.
          perform (deref (hs_ReplicaState hs)) (\<lambda>rs.
            ret (Inr (masterReadOnly, cache_replica C fqdn hs rs nc state))))))"

definition updateCache ::
  "env \<Rightarrow> Config \<Rightarrow> shard_state \<Rightarrow> string \<Rightarrow> senti_node \<Rightarrow> (goerr option \<times> senti_node) M" where
  "updateCache E C refState host s =
     perform (range_states E refState) (\<lambda>visited.
     perform (foldM (cache_step E C (int (length refState))) visited (Inr (False, zero_cache_state))) (\<lambda>r.
     case r of
       Inl e \<Rightarrow> ret (Some e, s)
     | Inr (masterReadOnly, state) \<Rightarrow>
         if scm_IP (cs_Master state) = [] then ret (Some (Errorf (''0 open masters within '' @ count_text refState @ '' hosts'')), s)
         else cache_Update E C host state s))"

text \<open>One tick of \<open>cacheUpdater\<close>, which runs beside the main loop in sentinel mode.\<close>
definition cacheUpdater_tick :: "env \<Rightarrow> Config \<Rightarrow> unit M" where
  "cacheUpdater_tick E C = perform (getShardStateFromDcs E C) (\<lambda>r. case r of
     Inl e \<Rightarrow> ret ()
   | Inr dcsState \<Rightarrow> perform (gets cache) (\<lambda>s.
       perform (updateCache E C dcsState ''127.0.0.1'' s) (\<lambda>(e, s').
         modify (\<lambda>st. st\<lparr>cache := s'\<rparr>))))"

section \<open>Footprints\<close>

text \<open>What a cache update can do: send SENTINEL CACHE-UPDATE and restart the cache.\<close>

definition senti_may :: "permit \<Rightarrow> bool" where
  "senti_may A \<longleftrightarrow> (\<forall>h c r. p_ev A (EvSenti h c r)) \<and> (\<forall>a r. p_ev A (EvExec a r))"

lemma senti_mayD:
  assumes "senti_may A"
  shows "p_ev A (EvSenti h c r)" and "p_ev A (EvExec a r')"
  using assms by (simp_all add: senti_may_def)

lemma foot_NewCacheNode [foot_intros]:
  "foot A (NewRemoteSentiCacheNode E C h)" "foot A (NewSentiCacheNode E C)"
  unfolding NewSentiCacheNode_def NewRemoteSentiCacheNode_def Let_def by (intro foot_intros)+

lemma foot_senti_query [foot_intros]: "senti_may A \<Longrightarrow> foot A (senti_query E h c parse s)"
  unfolding senti_query_def senti_ensureConn_def
  by (rule foot_intros disjI2 | erule senti_mayD)+

lemmas senti_method_defs = senti_master_def senti_sentinels_def senti_replicas_def

lemma foot_cache_Update [foot_intros]: "senti_may A \<Longrightarrow> foot A (cache_Update E C h state s)"
  unfolding cache_Update_def senti_method_defs senti_restart_def Let_def
  by (rule foot_intros disjI2 | erule senti_mayD | assumption)+

lemma foot_cache_step [foot_intros]: "foot A (cache_step E C n x acc)"
  unfolding cache_step_def Let_def by (intro foot_intros)

lemma foot_updateCache [foot_intros]: "senti_may A \<Longrightarrow> foot A (updateCache E C ss h s)"
  unfolding updateCache_def by (rule foot_intros | assumption)+

lemma foot_cacheUpdater_tick [foot_intros]: "senti_may A \<Longrightarrow> foot A (cacheUpdater_tick E C)"
  unfolding cacheUpdater_tick_def by (rule foot_intros | assumption | simp)+

end
