(* ===== verification/SwitchoverRun.thy ===== *)
theory SwitchoverRun
  imports MaintenanceMode SentiCache
begin

text \<open>
  The switchover: internal/app/switchover.go. \<open>performSwitchover\<close> is cut at its phases; each piece
  takes what the code has in local variables and ends with an error or hands on its results. The
  switchover document is updated in place in the code: here it is part of every result, so that the
  caller sees the progress a failed run has made.
\<close>

definition switchoverVersion :: int where "switchoverVersion = 1"

section \<open>The document\<close>

definition getLastSwitchover :: "env \<Rightarrow> Config \<Rightarrow> Switchover M" where
  "getLastSwitchover E C =
     perform (dcs_Get E C as_switch pathLastSwitch) (\<lambda>r1.
     perform (dcs_Get E C as_switch pathLastRejectedSwitch) (\<lambda>r2.
     let lastSwitch = (case r1 of Inl e \<Rightarrow> zero_Switchover | Inr sw \<Rightarrow> sw);
         lastRejectedSwitch = (case r2 of Inl e \<Rightarrow> zero_Switchover | Inr sw \<Rightarrow> sw)
     in ret (if sw_InitiatedAt lastRejectedSwitch > sw_InitiatedAt lastSwitch
             then lastRejectedSwitch else lastSwitch)))"

definition approveSwitchover :: "Config \<Rightarrow> Switchover \<Rightarrow> string list \<Rightarrow> shard_state \<Rightarrow> goerr option" where
  "approveSwitchover C switchover activeNodes shardState =
     (if sw_RunCount switchover > 0 then None
      else if countAliveHAReplicasWithinNodes activeNodes shardState < getFailoverQuorum C activeNodes
      then Some (Errorf (''no quorum, have '' @ itoa (countAliveHAReplicasWithinNodes activeNodes shardState)
        @ '' replicas while '' @ itoa (getFailoverQuorum C activeNodes) @ '' is required''))
      else None)"

definition startSwitchover :: "env \<Rightarrow> Config \<Rightarrow> Switchover \<Rightarrow> (goerr option \<times> Switchover) M" where
  "startSwitchover E C switchover = perform (now E) (\<lambda>t.
     let sw = switchover\<lparr>sw_StartedAt := t, sw_StartedBy := c_Hostname C\<rparr> in
     perform (dcs_Set E C pathCurrentSwitch (JSwitch sw)) (\<lambda>e. ret (e, sw)))"

definition failSwitchover :: "env \<Rightarrow> Config \<Rightarrow> Switchover \<Rightarrow> goerr \<Rightarrow> goerr option M" where
  "failSwitchover E C switchover err = perform (now E) (\<lambda>t.
     dcs_Set E C pathCurrentSwitch (JSwitch (switchover\<lparr>
       sw_RunCount := sw_RunCount switchover + 1,
       sw_Progress := None,
       sw_Result := Some \<lparr> sr_FinishedAt = t, sr_Error = err_msg err, sr_Ok = False \<rparr>\<rparr>)))"

definition updateSwitchover :: "env \<Rightarrow> Config \<Rightarrow> Switchover \<Rightarrow> goerr option M" where
  "updateSwitchover E C switchover =
     (if sw_Progress switchover = None
      then ret (Some (Errorf ''update switchover without progress is not possible''))
      else dcs_Set E C pathCurrentSwitch (JSwitch switchover))"

definition finish_event :: "Switchover \<Rightarrow> goerr option \<Rightarrow> string" where
  "finish_event switchover switchErr =
     (if switchErr \<noteq> None
      then (if sw_Cause switchover = CauseAuto then ''failover_failed'' else ''switchover_failed'')
      else (if sw_Cause switchover = CauseAuto then ''failover_complete'' else ''switchover_complete''))"

definition finishSwitchover :: "env \<Rightarrow> Config \<Rightarrow> Switchover \<Rightarrow> goerr option \<Rightarrow> goerr option M" where
  "finishSwitchover E C switchover switchErr = perform (now E) (\<lambda>t.
     let path = (if switchErr \<noteq> None then pathLastRejectedSwitch else pathLastSwitch);
         sw = switchover\<lparr>sw_Progress := None, sw_Result := Some \<lparr> sr_FinishedAt = t,
                sr_Error = (case switchErr of None \<Rightarrow> [] | Some e \<Rightarrow> err_msg e),
                sr_Ok = (switchErr = None) \<rparr>\<rparr>
     in perform (time_since E (sw_StartedAt switchover)) (\<lambda>dur.
        andThen (reportTiming (finish_event switchover switchErr) dur)
        (checked (dcs_Delete E C pathCurrentSwitch) (dcs_Set E C path (JSwitch sw)))))"

definition filterOut :: "string list \<Rightarrow> string list \<Rightarrow> string list" where
  "filterOut a b = filter (\<lambda>i. i \<notin> set b) a"

section \<open>Results of the phases\<close>

text \<open>
  A phase ends with an error or a value, and the switchover document as it is then. \<open>go\<close> runs one
  phase after another, \<open>stop_on\<close> turns an error of an operation into the end of the phase.
\<close>
type_synonym 'a phase = "((goerr + 'a) \<times> Switchover) M"

definition go :: "'a phase \<Rightarrow> ('a \<Rightarrow> Switchover \<Rightarrow> 'b phase) \<Rightarrow> 'b phase" where
  "go m k = perform m (\<lambda>(r, sw). case r of Inl e \<Rightarrow> ret (Inl e, sw) | Inr x \<Rightarrow> k x sw)"

definition stop_on :: "(goerr \<Rightarrow> goerr) \<Rightarrow> Switchover \<Rightarrow> goerr option M \<Rightarrow> 'a phase \<Rightarrow> 'a phase" where
  "stop_on f sw m k = perform m (\<lambda>e. case e of Some x \<Rightarrow> ret (Inl (f x), sw) | None \<Rightarrow> k)"

definition stop_err :: "(goerr \<Rightarrow> goerr) \<Rightarrow> Switchover \<Rightarrow> (goerr + 'b) M \<Rightarrow> ('b \<Rightarrow> 'a phase) \<Rightarrow> 'a phase" where
  "stop_err f sw m k = perform m (\<lambda>r. case r of Inl x \<Rightarrow> ret (Inl (f x), sw) | Inr y \<Rightarrow> k y)"

definition progress :: "Switchover \<Rightarrow> SwitchoverProgress M" where
  "progress sw = deref (sw_Progress sw)"

definition set_phase :: "int \<Rightarrow> Switchover \<Rightarrow> Switchover" where
  "set_phase n sw = sw\<lparr>sw_Progress := map_option (\<lambda>p. p\<lparr>sp_Phase := n\<rparr>) (sw_Progress sw)\<rparr>"

section \<open>Phase 1: read-only\<close>

definition init_progress :: "env \<Rightarrow> Config \<Rightarrow> Switchover \<Rightarrow> unit phase" where
  "init_progress E C switchover = (case sw_Progress switchover of
     None \<Rightarrow>
       (let sw = switchover\<lparr>sw_Progress := Some \<lparr> sp_NewMaster = [], sp_MostRecent = [],
                   sp_Version = switchoverVersion, sp_Phase = 1 \<rparr>\<rparr>
        in stop_on (Text ''setting initial switchover progress'') sw (updateSwitchover E C sw)
             (ret (Inr (), sw)))
   | Some p \<Rightarrow>
       if sp_Version p \<noteq> switchoverVersion
       then ret (Inl (Errorf (''got incompatible switchover version '' @ itoa (sp_Version p) @ '' (expected '' @
              itoa switchoverVersion @ '')'')), switchover)
       else ret (Inr (), switchover))"

definition make_readonly ::
  "env \<Rightarrow> shard_state \<Rightarrow> string \<Rightarrow> string \<Rightarrow> goerr option M" where
  "make_readonly E shardState oldMaster host =
     perform (state_at shardState host) (\<lambda>state.
     if \<not> hs_PingOk state then ret (Some (Errorf (''host '' @ host @ '' is not healthy'')))
     else perform (shard_Get host) (\<lambda>node.
          perform (SetReadOnly E node (host = oldMaster)) (\<lambda>(err, rewriteErr). ret err)))"

section \<open>The poison pill of the old master\<close>

text \<open>
  The block that occurs before phase 2 (for a dead old master) and in phase 5: keep a pill that
  targets the old master, replace any other one, issue one if there is none. The wait is skipped
  for an automatic failover.
\<close>
definition pill_for :: "env \<Rightarrow> Config \<Rightarrow> Switchover \<Rightarrow> string \<Rightarrow> PoisonPill option \<Rightarrow> unit phase" where
  "pill_for E C sw oldMaster poisonPill =
     (let issue = stop_on (Text (''unable to issue poison pill for old master '' @ oldMaster)) sw
                    (issuePoisonPill E C oldMaster);
          wait = andThen (if sw_Cause sw \<noteq> CauseAuto
                          then waitPoisonPill E C (vc_WaitPoisonPillTimeout (c_Valkey C)) else ret ())
                   (ret (Inr (), sw))
      in case poisonPill of
           None \<Rightarrow> issue wait
         | Some pill \<Rightarrow>
             if pp_TargetHost pill = oldMaster then wait
             else stop_on (Text ''unable to clear stale poison pill'') sw (clearPoisonPill E C)
                    (issue wait))"

definition read_pill :: "env \<Rightarrow> Config \<Rightarrow> Switchover \<Rightarrow> (PoisonPill option \<Rightarrow> 'a phase) \<Rightarrow> 'a phase" where
  "read_pill E C sw k =
     stop_err (Text ''unable to get poison pill'') sw
       (perform (getPoisonPill E C) (\<lambda>r. ret (optional r))) k"

section \<open>Phase 2: stop replication\<close>

definition pause_host :: "env \<Rightarrow> Config \<Rightarrow> shard_state \<Rightarrow> string \<Rightarrow> goerr option M" where
  "pause_host E C shardState host =
     perform (state_at shardState host) (\<lambda>state.
     if \<not> hs_PingOk state then ret (Some (Errorf (''host '' @ host @ '' is not healthy'')))
     else if (case hs_ReplicaState state of None \<Rightarrow> True | Some rs \<Rightarrow> \<not> rs_MasterLinkState rs) \<and>
             \<not> vc_TurnBeforeSwitchover (c_Valkey C)
     then ret None
     else perform (shard_Get host) (PauseReplication E))"

definition alive_active :: "errs \<Rightarrow> errs \<Rightarrow> string list \<Rightarrow> string list" where
  "alive_active errsRO errsPause activeNodes =
     filter (\<lambda>host. err_at errsRO host = None \<and> err_at errsPause host = None) activeNodes"

text \<open>
  Everything before phase 3: the checks, read-only, the pill for a dead master, the pause and the
  quorum. The results are the active nodes of this run and those of them that are alive.
\<close>
definition freeze ::
  "env \<Rightarrow> Config \<Rightarrow> shard_state \<Rightarrow> string list \<Rightarrow> Switchover \<Rightarrow> string \<Rightarrow>
   (string list \<times> string list) phase" where
  "freeze E C shardState activeNodes0 switchover oldMaster =
     go (init_progress E C switchover) (\<lambda>u sw.
     if sw_To sw \<noteq> [] \<and> sw_To sw \<notin> set activeNodes0
     then ret (Inl (Errorf (''switchover: failed: replica '' @ sw_To sw
            @ '' is not active, can't switch to it'')), sw)
     else
     let failoverQuorum = getFailoverQuorum C activeNodes0;
         activeNodes = (if sw_Cause sw = CauseAuto \<and> sw_From sw = oldMaster
                        then filterOut activeNodes0 [oldMaster] else activeNodes0)
     in
     perform (runParallel E (make_readonly E shardState oldMaster) activeNodes) (\<lambda>errsRO.
     perform (case err_at errsRO oldMaster of
                None \<Rightarrow> ret None
              | Some e \<Rightarrow> perform (state_at shardState oldMaster) (\<lambda>os.
                  ret (if hs_PingOk os
                       then Some (Text (''failed to set old master '' @ oldMaster @ '' read-only'') e)
                       else None))) (\<lambda>stop.
     case stop of Some e \<Rightarrow> ret (Inl e, sw) | None \<Rightarrow>
     read_pill E C sw (\<lambda>poisonPill.
     perform (state_at shardState oldMaster) (\<lambda>os.
     go (if hs_PingOk os then ret (Inr (), sw) else pill_for E C sw oldMaster poisonPill) (\<lambda>u sw.
     perform (runParallel E (pause_host E C shardState) activeNodes) (\<lambda>errsPause.
     let aliveActiveNodes = alive_active errsRO errsPause activeNodes in
     if int (length aliveActiveNodes) < failoverQuorum
     then ret (Inl (Errorf (''no failover quorum reached: '' @ count_text aliveActiveNodes @ '' nodes alive, ''
            @ itoa failoverQuorum @ '' required'')), sw)
     else ret (Inr (activeNodes, aliveActiveNodes), sw))))))))"

section \<open>Phases 3 and 4: choose a host and let it catch up\<close>

definition resume_host :: "env \<Rightarrow> shard_state \<Rightarrow> string \<Rightarrow> goerr option M" where
  "resume_host E shardState host =
     perform (state_at shardState host) (\<lambda>state.
     if \<not> hs_PingOk state then ret (Some (Errorf (''host '' @ host @ '' is not healthy'')))
     else perform (shard_Get host) (ResumeReplication E))"

text \<open>The new master by the request: an explicit target, any but the one left, the most recent.\<close>
definition pick_master ::
  "env \<Rightarrow> Config \<Rightarrow> shard_state \<Rightarrow> string list \<Rightarrow> shard_state \<Rightarrow> Switchover \<Rightarrow> string \<Rightarrow> string phase" where
  "pick_master E C shardState activeNodes states sw mostRecent =
     (if sw_To sw \<noteq> [] then ret (Inr (sw_To sw), sw)
      else if sw_From sw \<noteq> []
      then perform (getMostDesirableNode E C states (sw_From sw)) (\<lambda>r. case r of
             Inr newMaster \<Rightarrow> ret (Inr newMaster, sw)
           | Inl e \<Rightarrow> andThen (runParallel E (resume_host E shardState) activeNodes)
               (ret (Inl (Text ''get desirable node for switchover'' e), sw)))
      else ret (Inr mostRecent, sw))"

definition choose_master ::
  "env \<Rightarrow> Config \<Rightarrow> shard_state \<Rightarrow> string list \<Rightarrow> shard_state \<Rightarrow> Switchover \<Rightarrow> (string \<times> string) phase" where
  "choose_master E C shardState activeNodes states sw0 =
     perform (progress sw0) (\<lambda>p0.
     if sp_Phase p0 \<ge> 3 then ret (Inr (sp_MostRecent p0, sp_NewMaster p0), sw0)
     else perform (findMostRecentNode E states) (\<lambda>mostRecent.
       go (pick_master E C shardState activeNodes states sw0 mostRecent) (\<lambda>newMaster sw.
       let sw' = sw\<lparr>sw_Progress := map_option (\<lambda>p. p\<lparr>sp_MostRecent := mostRecent,
                     sp_NewMaster := newMaster, sp_Phase := 3\<rparr>) (sw_Progress sw)\<rparr>
       in stop_on (Text ''setting switchover progress on phase 3'') sw' (updateSwitchover E C sw')
            (ret (Inr (mostRecent, newMaster), sw')))))"

definition catch_up ::
  "env \<Rightarrow> Config \<Rightarrow> shard_state \<Rightarrow> string \<Rightarrow> string \<Rightarrow> Switchover \<Rightarrow> unit phase" where
  "catch_up E C states mostRecent newMaster sw =
     perform (progress sw) (\<lambda>p.
     if sp_Phase p < 5 \<and> newMaster \<noteq> mostRecent \<and>
        getOffset (map_of states newMaster) \<noteq> getOffset (map_of states mostRecent)
     then perform (shard_Get mostRecent) (\<lambda>recentNode.
          stop_on id sw (PauseReplication E recentNode)
          (stop_on id sw (changeMaster E C newMaster mostRecent)
          (stop_on id sw (waitForCatchup E C newMaster mostRecent)
          (ret (Inr (), sw)))))
     else ret (Inr (), sw))"

section \<open>Phase 5: promote\<close>

text \<open>Before the promotion the new master gets the quorum of the nodes that are left.\<close>
definition prepare_quorum ::
  "env \<Rightarrow> Config \<Rightarrow> string list \<Rightarrow> string \<Rightarrow> Switchover \<Rightarrow> unit phase" where
  "prepare_quorum E C aliveActiveNodes newMaster sw =
     perform (shard_Get newMaster) (\<lambda>node.
     if length aliveActiveNodes = 1 \<or> vc_AllowDataLoss (c_Valkey C)
     then perform (SetReadWrite E node) (\<lambda>(err, errConf). case err of
            Some e \<Rightarrow> ret (Inl (Text (''unable to set '' @ newMaster
                @ '' available for write before promote'') e), sw)
          | None \<Rightarrow> (case errConf of
              Some e \<Rightarrow> ret (Inl (Text (''unable to rewrite config on '' @ newMaster
                  @ '' before promote'') e), sw)
            | None \<Rightarrow> perform (SetNumQuorumReplicas E node 0) (\<lambda>(err, errConf). case err of
                Some e \<Rightarrow> ret (Inl (Text (''unable to set num quorum replicas to 0 on ''
                    @ newMaster) e), sw)
              | None \<Rightarrow> (case errConf of
                  Some e \<Rightarrow> ret (Inl (Text (''unable to rewrite config on '' @ newMaster
                      @ '' before promote'') e), sw)
                | None \<Rightarrow> ret (Inr (), sw)))))
     else perform (SetNumQuorumReplicas E node (getNumReplicasToWrite aliveActiveNodes))
            (\<lambda>(err, errConf). case err of
              Some e \<Rightarrow> ret (Inl (Text (''unable to set num quorum replicas to '' @
                  itoa (getNumReplicasToWrite aliveActiveNodes) @ '' on '' @ newMaster
                  @ '' before promote'') e), sw)
            | None \<Rightarrow> ret (Inr (), sw)))"

text \<open>Replicas of the new master's history, but the new master itself.\<close>
definition psync_nodes :: "shard_state \<Rightarrow> string list \<Rightarrow> string \<Rightarrow> string list" where
  "psync_nodes shardState aliveActiveNodes newMaster =
     filter (\<lambda>host. host \<noteq> newMaster \<and>
       isPartialSyncPossible (map_of shardState host) (map_of shardState newMaster)) aliveActiveNodes"

definition turn_host ::
  "env \<Rightarrow> Config \<Rightarrow> shard_state \<Rightarrow> string \<Rightarrow> string \<Rightarrow> goerr option M" where
  "turn_host E C shardState newMaster host =
     (if host = newMaster then ret None
      else perform (state_at shardState host) (\<lambda>state.
        if \<not> hs_PingOk state then ret None else changeMaster E C host newMaster))"

definition turn_before ::
  "env \<Rightarrow> Config \<Rightarrow> shard_state \<Rightarrow> string list \<Rightarrow> string \<Rightarrow> unit M" where
  "turn_before E C shardState aliveActiveNodes newMaster =
     (if \<not> vc_TurnBeforeSwitchover (c_Valkey C) then ret ()
      else perform (if filterOut aliveActiveNodes [newMaster] = [] then ret []
             else perform (state_at shardState newMaster) (\<lambda>ns.
               ret (if hs_IsReplPaused ns then psync_nodes shardState aliveActiveNodes newMaster
                    else []))) (\<lambda>psyncNodes.
           andThen (runParallel E (turn_host E C shardState newMaster) psyncNodes) (ret ())))"

text \<open>
  One round of the promotion loop: its state is the latest state of the shard. True: promoted.
\<close>
definition promote_round ::
  "env \<Rightarrow> Config \<Rightarrow> string \<Rightarrow> string \<Rightarrow> time \<Rightarrow> shard_state \<Rightarrow>
   (shard_state + (goerr + (bool \<times> shard_state))) M" where
  "promote_round E C newMaster oldMaster forceDeadline shardState =
     perform (promote E C newMaster oldMaster shardState forceDeadline) (\<lambda>e. case e of
       Some x \<Rightarrow> ret (Inr (Inl (Text (''promote new master '' @ newMaster @ '' failed'') x)))
     | None \<Rightarrow> andThen (sleep second) (perform (getShardStateFromDB E C) (\<lambda>r. case r of
         Inl x \<Rightarrow> ret (Inr (Inl (Text ''update shard state during switchover after promote'' x)))
       | Inr shardState' \<Rightarrow> perform (state_at shardState' newMaster) (\<lambda>ns.
           ret (if hs_IsMaster ns then Inr (Inr (True, shardState')) else Inl shardState')))))"

definition promote_loop ::
  "env \<Rightarrow> Config \<Rightarrow> shard_state \<Rightarrow> string \<Rightarrow> string \<Rightarrow> Switchover \<Rightarrow> shard_state phase" where
  "promote_loop E C shardState newMaster oldMaster sw =
     perform (now E) (\<lambda>t1. perform (now E) (\<lambda>t2.
     stop_err id sw (until_deadline E (t1 + vc_WaitPromoteTimeout (c_Valkey C))
        (promote_round E C newMaster oldMaster (t2 + vc_WaitPromoteForceTimeout (c_Valkey C)))
        (\<lambda>ss. Inr (False, ss)) shardState)
       (\<lambda>(promoted, shardState').
         if \<not> promoted
         then ret (Inl (Errorf (''promote new master '' @ newMaster @ '' failed: deadline reached'')), sw)
         else ret (Inr shardState', sw))))"

definition promotion ::
  "env \<Rightarrow> Config \<Rightarrow> shard_state \<Rightarrow> string list \<Rightarrow> string \<Rightarrow> string \<Rightarrow> Switchover \<Rightarrow> shard_state phase" where
  "promotion E C shardState aliveActiveNodes newMaster oldMaster sw0 =
     (let sw = set_phase 5 sw0 in
      stop_on (Text ''setting switchover progress on phase 5'') sw (updateSwitchover E C sw)
     (stop_on (Wrap ''failed to set new master in dcs'') sw
        (dcs_Set E C pathMasterNode (JString newMaster))
     (read_pill E C sw (\<lambda>poisonPill.
      go (pill_for E C sw oldMaster poisonPill) (\<lambda>u sw.
      go (prepare_quorum E C aliveActiveNodes newMaster sw) (\<lambda>u sw.
      andThen (turn_before E C shardState aliveActiveNodes newMaster)
        (promote_loop E C shardState newMaster oldMaster sw)))))))"

section \<open>Phase 6: turn the replicas\<close>

definition notify_host :: "env \<Rightarrow> Config \<Rightarrow> shard_state \<Rightarrow> string \<Rightarrow> goerr option M" where
  "notify_host E C shardState host =
     attempt_err (NewRemoteSentiCacheNode E C host) (\<lambda>node.
       perform (updateCache E C shardState host node) (\<lambda>(e, node'). ret e))"

text \<open>
  Telling the caches of all nodes about the new master, in sentinel mode. The variable \<open>shardState\<close>
  is assigned even when reading the states fails: it is then nil, and the last loop panics on the
  first replica it looks up.
\<close>
definition notify_caches ::
  "env \<Rightarrow> Config \<Rightarrow> shard_state \<Rightarrow> string list \<Rightarrow> shard_state M" where
  "notify_caches E C shardState activeNodes =
     (if app_mode C \<noteq> modeSentinel then ret shardState
      else perform (getShardStateFromDB E C) (\<lambda>r. case r of
        Inl e \<Rightarrow> ret []
      | Inr states \<Rightarrow> andThen (runParallel E (notify_host E C states) activeNodes) (ret states)))"

definition turn_replicas ::
  "env \<Rightarrow> Config \<Rightarrow> shard_state \<Rightarrow> string list \<Rightarrow> string list \<Rightarrow> string \<Rightarrow> Switchover \<Rightarrow> unit phase" where
  "turn_replicas E C shardState activeNodes aliveActiveNodes newMaster sw0 =
     (let sw = set_phase 6 sw0;
          psyncActiveNodes = sort (psync_nodes shardState aliveActiveNodes newMaster @ [newMaster])
      in stop_on (Text ''setting switchover progress on phase 6'') sw (updateSwitchover E C sw)
      (stop_on (\<lambda>e. Errorf (''unable to update active nodes in dcs: '' @ list_text psyncActiveNodes)) sw
         (dcs_Set E C pathActiveNodes (JStrings psyncActiveNodes))
      (perform (shard_Get newMaster) (\<lambda>newMasterNode.
       perform (state_at shardState newMaster) (\<lambda>ns.
       andThen (repairMaster E newMasterNode psyncActiveNodes ns)
       (perform (notify_caches E C shardState activeNodes) (\<lambda>states.
        perform (runParallel E (turn_host E C states newMaster) psyncActiveNodes) (\<lambda>errs.
          ret (case combineErrors errs of None \<Rightarrow> Inr () | Some e \<Rightarrow> Inl e, sw)))))))))"

section \<open>The whole\<close>

definition switchover_phases ::
  "env \<Rightarrow> Config \<Rightarrow> shard_state \<Rightarrow> string list \<Rightarrow> Switchover \<Rightarrow> string \<Rightarrow> unit phase" where
  "switchover_phases E C shardState activeNodes0 switchover oldMaster =
     go (freeze E C shardState activeNodes0 switchover oldMaster) (\<lambda>(activeNodes, aliveActiveNodes) sw.
     stop_err (Text ''no actual shard state'') sw (getShardStateFromDB E C) (\<lambda>states.
     go (choose_master E C shardState activeNodes states sw) (\<lambda>(mostRecent, newMaster) sw.
     go (catch_up E C states mostRecent newMaster sw) (\<lambda>u sw.
     stop_err (Text ''update shard state during switchover'') sw (getShardStateFromDB E C) (\<lambda>shardState2.
     perform (state_at shardState2 newMaster) (\<lambda>ns.
     if \<not> hs_PingOk ns
     then ret (Inl (Errorf (''new master '' @ newMaster
            @ '' suddenly became not available during switchover'')), sw)
     else
     perform (progress sw) (\<lambda>p.
     go (if sp_Phase p \<noteq> 6
         then promotion E C shardState2 aliveActiveNodes newMaster oldMaster sw
         else ret (Inr shardState2, sw)) (\<lambda>shardState3 sw.
       turn_replicas E C shardState3 activeNodes aliveActiveNodes newMaster sw))))))))"

definition performSwitchover ::
  "env \<Rightarrow> Config \<Rightarrow> shard_state \<Rightarrow> string list \<Rightarrow> Switchover \<Rightarrow> string \<Rightarrow>
   (goerr option \<times> Switchover) M" where
  "performSwitchover E C shardState activeNodes switchover oldMaster =
     andThen enterCritical
     (perform (switchover_phases E C shardState activeNodes switchover oldMaster) (\<lambda>(r, sw).
      andThen exitCritical
        (ret (case r of Inl e \<Rightarrow> Some e | Inr u \<Rightarrow> None, sw))))"

section \<open>Footprints\<close>

text \<open>
  Before the promotion a switchover sends no promoting command to any node: \<open>calm_cmd\<close> are the
  commands it may send. The writes to the DCS are those of the switchover document and the pill.
\<close>

definition calm_cmd :: "vcmd \<Rightarrow> bool" where
  "calm_cmd c \<longleftrightarrow> \<not> promote_cmd c"

lemma repair_calm: "repair_cmd c \<Longrightarrow> calm_cmd c"
  by (simp add: calm_cmd_def repair_not_promote)

lemma calm_lists [simp]:
  "list_all calm_cmd readonly_cmds" "list_all calm_cmd offline_cmds" "list_all calm_cmd (setting k v)"
  by (simp_all add: calm_cmd_def readonly_cmds_def offline_cmds_def setting_def)

definition calm :: "permit \<Rightarrow> Config \<Rightarrow> bool" where
  "calm A C \<longleftrightarrow> (\<forall>h. host_may A h calm_cmd) \<and> (\<forall>a r. p_ev A (EvExec a r)) \<and>
     may_write A C pathPoisonPill \<and> may_write A C pathCurrentSwitch \<and> p_spin A"

lemma calmD:
  assumes "calm A C"
  shows "host_may A h calm_cmd" and "host_may A h repair_cmd"
    and "host_may A h (\<lambda>c. c \<in> set offline_cmds)"
    and "p_ev A (EvExec a r)" and "may_write A C pathPoisonPill" and "may_write A C pathCurrentSwitch"
    and "p_spin A"
proof -
  have h: "host_may A h calm_cmd" using assms by (simp add: calm_def)
  then show "host_may A h calm_cmd" .
  from h show "host_may A h repair_cmd" by (rule host_may_mono) (rule repair_calm)
  from h show "host_may A h (\<lambda>c. c \<in> set offline_cmds)"
    by (rule host_may_mono) (auto simp: offline_cmds_def readonly_cmds_def calm_cmd_def)
qed (use assms in \<open>simp_all add: calm_def\<close>)

lemma foot_documents [foot_intros]:
  "foot A (getLastSwitchover E C)"
  "may_write A C pathCurrentSwitch \<Longrightarrow> foot A (startSwitchover E C sw)"
  "may_write A C pathCurrentSwitch \<Longrightarrow> foot A (failSwitchover E C sw e)"
  "may_write A C pathCurrentSwitch \<Longrightarrow> foot A (updateSwitchover E C sw)"
  unfolding getLastSwitchover_def startSwitchover_def failSwitchover_def updateSwitchover_def Let_def
  by (rule foot_intros | assumption)+

lemma foot_finishSwitchover [foot_intros]:
  "may_write A C pathCurrentSwitch \<Longrightarrow> may_write A C pathLastSwitch \<Longrightarrow>
   may_write A C pathLastRejectedSwitch \<Longrightarrow> foot A (finishSwitchover E C sw e)"
  unfolding finishSwitchover_def Let_def by (rule foot_intros | assumption | simp)+

lemma foot_go [foot_intros]:
  "foot A m \<Longrightarrow> (\<And>x sw. foot A (k x sw)) \<Longrightarrow> foot A (go m k)"
  unfolding go_def by (intro foot_intros)

lemma foot_prod_app [foot_intros]:
  "(\<And>x y. foot A (k x y z)) \<Longrightarrow> foot A ((case p of (x, y) \<Rightarrow> k x y) z)"
  by (cases p) simp

lemma foot_stop [foot_intros]:
  "foot A m \<Longrightarrow> foot A k \<Longrightarrow> foot A (stop_on f sw m k)"
  "foot A m' \<Longrightarrow> (\<And>x. foot A (k' x)) \<Longrightarrow> foot A (stop_err f sw m' k')"
  unfolding stop_on_def stop_err_def by (intro foot_intros; simp)+

lemma foot_progress [foot_intros]: "foot A (progress sw)"
  unfolding progress_def by (intro foot_intros)

lemma foot_host_calls [foot_intros]:
  assumes "\<And>h. host_may A h calm_cmd"
  shows "foot A (make_readonly E ss old host)" and "foot A (pause_host E C ss host)"
    and "foot A (resume_host E ss host)"
  unfolding make_readonly_def pause_host_def resume_host_def
  by (rule foot_first foot_intros may_cmds_host [OF assms] | assumption | simp)+

lemma foot_read_pill [foot_intros]:
  "(\<And>p. foot A (k p)) \<Longrightarrow> foot A (read_pill E C sw k)"
  unfolding read_pill_def by (rule foot_intros | assumption)+

lemma foot_pill_for [foot_intros]: "calm A C \<Longrightarrow> foot A (pill_for E C sw old pill)"
  unfolding pill_for_def Let_def by (rule foot_intros | erule calmD | assumption)+

lemma foot_freeze [foot_intros]: "calm A C \<Longrightarrow> foot A (freeze E C ss active sw old)"
  unfolding freeze_def init_progress_def Let_def by (rule foot_intros | erule calmD | assumption)+

lemma foot_choose [foot_intros]: "calm A C \<Longrightarrow> foot A (choose_master E C ss active states sw)"
  unfolding choose_master_def pick_master_def Let_def
  by (rule foot_intros | erule calmD | assumption)+

lemma foot_catch_up [foot_intros]: "calm A C \<Longrightarrow> foot A (catch_up E C states recent new sw)"
  unfolding catch_up_def
  by (rule foot_first foot_intros | erule calmD | (rule may_cmds_host, erule calmD(1)) | assumption | simp)+

lemma foot_prepare_quorum [foot_intros]:
  "host_may A new repair_cmd \<Longrightarrow> foot A (prepare_quorum E C alive new sw)"
  unfolding prepare_quorum_def
  by (rule foot_first foot_intros | erule may_cmds_host | assumption | simp)+

lemma foot_turn_host [foot_intros]: "calm A C \<Longrightarrow> foot A (turn_host E C ss new host)"
  unfolding turn_host_def by (rule foot_intros | erule calmD | assumption)+

lemma foot_turn_before [foot_intros]: "calm A C \<Longrightarrow> foot A (turn_before E C ss alive new)"
  unfolding turn_before_def by (rule foot_intros | assumption)+

lemma foot_promote_loop [foot_intros]:
  "p_spin A \<Longrightarrow> host_may A new (\<lambda>c. promote_cmd c \<or> c = ConfigRewrite) \<Longrightarrow>
   foot A (promote_loop E C ss new old sw)"
  unfolding promote_loop_def promote_round_def by (rule foot_intros | assumption)+

lemma foot_notify [foot_intros]: "senti_may A \<Longrightarrow> foot A (notify_caches E C ss active)"
  unfolding notify_caches_def notify_host_def by (rule foot_intros | assumption)+

lemma foot_turn_replicas [foot_intros]:
  "calm A C \<Longrightarrow> senti_may A \<Longrightarrow> may_write A C pathActiveNodes \<Longrightarrow>
   foot A (turn_replicas E C ss active alive new sw)"
  unfolding turn_replicas_def Let_def
  by (rule foot_first foot_intros | erule calmD | assumption)+

end
