(* ===== verification/Manager.thy ===== *)
theory Manager
  imports SwitchoverRun
begin

text \<open>
  The manager: internal/app/manager.go. \<open>stateManager\<close> is cut at its early returns: the states it
  reads, maintenance, the current switchover, the stale poison pill, the judgement about the master,
  the failover, giving the lock up, and the regular repair.
\<close>

section \<open>Switchover\<close>

text \<open>What follows \<open>performSwitchover\<close>: nothing if the request has been removed meanwhile.\<close>
definition report_switchover ::
  "env \<Rightarrow> Config \<Rightarrow> goerr option \<Rightarrow> Switchover \<Rightarrow> unit M" where
  "report_switchover E C err sw =
     perform (dcs_Get E C as_switch pathCurrentSwitch) (\<lambda>r.
     if (case r of Inl e \<Rightarrow> err_is e ErrNotFound | Inr x \<Rightarrow> False) then ret ()
     else andThen (case err of
            Some e \<Rightarrow> failSwitchover E C sw e
          | None \<Rightarrow> finishSwitchover E C sw None) (ret ()))"

definition run_switchover ::
  "env \<Rightarrow> Config \<Rightarrow> shard_state \<Rightarrow> string list \<Rightarrow> string \<Rightarrow> Switchover \<Rightarrow> unit M" where
  "run_switchover E C shardState activeNodes master switchover =
     perform (if is_zero (sw_InitiatedAt switchover) then ret False
              else perform (time_since E (sw_InitiatedAt switchover)) (\<lambda>age.
                ret (age > vc_SwitchoverTimeout (c_Valkey C)))) (\<lambda>timed_out.
     if timed_out
     then andThen (finishSwitchover E C switchover (Some (Errorf ''switchover timed out''))) (ret ())
     else case approveSwitchover C switchover activeNodes shardState of
       Some e \<Rightarrow> andThen (finishSwitchover E C switchover (Some e)) (ret ())
     | None \<Rightarrow> perform (startSwitchover E C switchover) (\<lambda>(e, sw). case e of
         Some x \<Rightarrow> ret ()
       | None \<Rightarrow> perform (performSwitchover E C shardState activeNodes sw master) (\<lambda>(err, sw').
           report_switchover E C err sw')))"

section \<open>The judgement about the master\<close>

definition count_ping :: "shard_state \<Rightarrow> int" where
  "count_ping ss = foldl (\<lambda>n (h, state). if hs_PingOk state then n + 1 else n) 0 ss"

text \<open>The two conditions that set \<open>masterFailed\<close>. The entries of the master are read through pointers.\<close>
definition master_failed :: "shard_state \<Rightarrow> HostState \<Rightarrow> HostState \<Rightarrow> int \<Rightarrow> bool" where
  "master_failed shardState masterDcs masterDb hosts \<longleftrightarrow>
     (hs_PingOk masterDcs \<and> \<not> hs_PingOk masterDb \<and> count_ping shardState > hosts div 2) \<or>
     (\<not> hs_PingOk masterDcs \<and> \<not> hs_PingOk masterDb) \<or> hs_IsOffline masterDcs"

text \<open>
  Reading the two entries: on every path through the two conditions both pointers are followed,
  that of the DCS first.
\<close>
definition judge_master :: "shard_state \<Rightarrow> shard_state \<Rightarrow> string \<Rightarrow> int \<Rightarrow> bool M" where
  "judge_master shardState shardStateDcs master hosts =
     perform (state_at shardStateDcs master) (\<lambda>masterDcs.
     perform (state_at shardState master) (\<lambda>masterDb.
       ret (master_failed shardState masterDcs masterDb hosts)))"

definition report_unavailable :: "env \<Rightarrow> string \<Rightarrow> unit M" where
  "report_unavailable E master = perform (gets (\<lambda>s. nodeFailTime s master)) (\<lambda>t. case t of
     None \<Rightarrow> ret ()
   | Some failTime \<Rightarrow> perform (time_since E failTime) (\<lambda>dur. reportTiming ''master_unavailable'' dur))"

definition failover :: "env \<Rightarrow> Config \<Rightarrow> shard_state \<Rightarrow> string list \<Rightarrow> string \<Rightarrow> unit M" where
  "failover E C shardState activeNodes master =
     perform (gets (\<lambda>s. time_of (nodeFailTime s) master)) (\<lambda>t0.
     andThen (if is_zero t0 then touch_nodeFailTime E master else ret ())
     (perform (approveFailover E C shardState activeNodes master) (\<lambda>e. case e of
        Some x \<Rightarrow> ret ()
      | None \<Rightarrow> andThen (report_unavailable E master)
          (andThen (performFailover E C master) (ret ())))))"

section \<open>Giving the lock up\<close>

definition set_splitTime :: "string \<Rightarrow> time \<Rightarrow> unit M" where
  "set_splitTime h t = modify (\<lambda>s. s\<lparr>splitTime := (splitTime s)(h \<mapsto> t)\<rparr>)"

definition delete_splitTime :: "string \<Rightarrow> unit M" where
  "delete_splitTime h = modify (\<lambda>s. s\<lparr>splitTime := (splitTime s)(h := None)\<rparr>)"

datatype giveup = StayManager | GiveUp | CarryOn

text \<open>
  Does this manager see fewer hosts than the DCS reports? Then it waits for the failover timeout,
  and gives up.
\<close>
definition judge_split ::
  "env \<Rightarrow> Config \<Rightarrow> shard_state \<Rightarrow> shard_state \<Rightarrow> string \<Rightarrow> int \<Rightarrow> giveup M" where
  "judge_split E C shardState shardStateDcs master hosts =
     (if hosts > 2
      then if count_ping shardState \<le> hosts div 2 \<and> count_ping shardStateDcs > hosts div 2
           then perform (gets (\<lambda>s. time_of (splitTime s) master)) (\<lambda>t0.
                andThen (if is_zero t0 then perform (now E) (set_splitTime master) else ret ())
                (if vc_FailoverTimeout (c_Valkey C) > 0
                 then perform (gets (\<lambda>s. time_of (splitTime s) master)) (\<lambda>t1.
                      perform (time_since E t1) (\<lambda>failedTime.
                        ret (if failedTime < vc_FailoverTimeout (c_Valkey C)
                             then StayManager else GiveUp)))
                 else ret GiveUp))
           else ret CarryOn
      else if master \<noteq> c_Hostname C
      then perform (state_at shardState master) (\<lambda>ms.
             ret (if \<not> hs_PingOk ms then StayManager else CarryOn))
      else ret CarryOn)"

text \<open>One tick of the wait for another manager.\<close>
definition new_manager_tick :: "env \<Rightarrow> Config \<Rightarrow> unit \<Rightarrow> (unit + unit) M" where
  "new_manager_tick E C u = perform (dcs_Get E C as_owner pathManagerLock) (\<lambda>r. case r of
     Inl e \<Rightarrow> ret (Inl ())
   | Inr manager \<Rightarrow> ret (if lo_Hostname manager \<noteq> c_Hostname C then Inr () else Inl ()))"

definition give_up :: "env \<Rightarrow> Config \<Rightarrow> string \<Rightarrow> unit M" where
  "give_up E C master =
     andThen (delete_splitTime master)
     (andThen (ReleaseLock E C pathManagerLock)
     (perform (now E) (\<lambda>t.
       tick_loop E (c_TickInterval C) (t + vc_FailoverTimeout (c_Valkey C))
         (new_manager_tick E C) id ())))"

section \<open>The regular round\<close>

definition regular_repair ::
  "env \<Rightarrow> Config \<Rightarrow> shard_state \<Rightarrow> shard_state \<Rightarrow> string list \<Rightarrow> string \<Rightarrow> bool \<Rightarrow> unit M" where
  "regular_repair E C shardState shardStateDcs activeNodes master updateActive =
     andThen (report_unavailable E master)
     (andThen (delete_nodeFailTime master)
     (andThen (delete_splitTime master)
     (andThen (repairShard E C shardState activeNodes master)
       (if updateActive
        then andThen (updateActiveNodes E C shardState shardStateDcs activeNodes master) (ret ())
        else ret ()))))"

text \<open>The part after the stale poison pill.\<close>
definition watch_master ::
  "env \<Rightarrow> Config \<Rightarrow> shard_state \<Rightarrow> shard_state \<Rightarrow> string list \<Rightarrow> string \<Rightarrow> bool \<Rightarrow> appState M" where
  "watch_master E C shardState shardStateDcs activeNodes master updateActive =
     perform shard_Hosts (\<lambda>hs.
     let hosts = int (length hs) in
     perform (judge_master shardState shardStateDcs master hosts) (\<lambda>failed.
     if failed then andThen (failover E C shardState activeNodes master) (ret stateManager)
     else perform (judge_split E C shardState shardStateDcs master hosts) (\<lambda>g. case g of
         StayManager \<Rightarrow> ret stateManager
       | GiveUp \<Rightarrow> andThen (give_up E C master) (ret stateCandidate)
       | CarryOn \<Rightarrow> andThen
           (regular_repair E C shardState shardStateDcs activeNodes master updateActive)
           (ret stateManager))))"

text \<open>The part after maintenance: the local node, the switchover, the stale poison pill.\<close>
definition manage ::
  "env \<Rightarrow> Config \<Rightarrow> shard_state \<Rightarrow> shard_state \<Rightarrow> string list \<Rightarrow> string \<Rightarrow> appState M" where
  "manage E C shardState shardStateDcs activeNodes master =
     perform (repairLocalNode E C master) (\<lambda>updateActive.
     perform (dcs_Get E C as_switch pathCurrentSwitch) (\<lambda>r. case optional r of
       Inl e \<Rightarrow> ret stateManager
     | Inr (Some switchover) \<Rightarrow>
         andThen (run_switchover E C shardState activeNodes master switchover) (ret stateManager)
     | Inr None \<Rightarrow> perform (getPoisonPill E C) (\<lambda>pr. case optional pr of
         Inl e \<Rightarrow> ret stateManager
       | Inr pill \<Rightarrow>
           perform (if pill \<noteq> None then clearPoisonPill E C else ret None) (\<lambda>e. case e of
             Some x \<Rightarrow> ret stateManager
           | None \<Rightarrow> watch_master E C shardState shardStateDcs activeNodes master updateActive))))"

definition managed_maintenance ::
  "env \<Rightarrow> Config \<Rightarrow> string \<Rightarrow> Maintenance \<Rightarrow> appState M" where
  "managed_maintenance E C master maintenance =
     (if \<not> mt_RdSyncPaused maintenance
      then perform (enterMaintenance E C maintenance master) (\<lambda>e.
             ret (if e \<noteq> None then stateManager else stateMaintenance))
      else ret stateMaintenance)"

definition handle_Manager :: "env \<Rightarrow> Config \<Rightarrow> appState M" where
  "handle_Manager E C =
     perform (IsConnected E) (\<lambda>connected. if \<not> connected then ret stateLost else
     perform (AcquireLock E C pathManagerLock) (\<lambda>locked. if \<not> locked then ret stateCandidate else
     andThen (UpdateHostsInfo E C)
     (perform (getShardStateFromDB E C) (\<lambda>r1. case r1 of Inl e \<Rightarrow> ret stateManager | Inr shardState \<Rightarrow>
      perform (getShardStateFromDcs E C) (\<lambda>r2. case r2 of Inl e \<Rightarrow> ret stateManager | Inr shardStateDcs \<Rightarrow>
      perform (getCurrentMaster E C shardState) (\<lambda>r3. case r3 of Inl e \<Rightarrow> ret stateManager | Inr master \<Rightarrow>
      perform (GetActiveNodes E C) (\<lambda>r4. case r4 of Inl e \<Rightarrow> ret stateManager | Inr activeNodes \<Rightarrow>
      perform (GetMaintenance E C) (\<lambda>r5. case optional r5 of
        Inl e \<Rightarrow> ret stateManager
      | Inr (Some maintenance) \<Rightarrow> managed_maintenance E C master maintenance
      | Inr None \<Rightarrow> manage E C shardState shardStateDcs activeNodes master))))))))"

section \<open>Footprints\<close>

text \<open>
  What a manager may do: valkey commands on any host, the local repair, the caches, and writes at
  the keys of the shard's state. It never writes the list of hosts or the health of a host.
\<close>

definition manager_paths :: "string list" where
  "manager_paths = [pathManagerLock, pathMasterNode, pathActiveNodes, pathCurrentSwitch,
     pathLastSwitch, pathLastRejectedSwitch, pathMaintenance, pathPoisonPill]"

definition manager_may :: "permit \<Rightarrow> Config \<Rightarrow> bool" where
  "manager_may A C \<longleftrightarrow> (\<forall>h. host_may A h (\<lambda>c. True)) \<and> local_may A C \<and> senti_may A \<and>
     (\<forall>p \<in> set manager_paths. may_write A C p) \<and> p_crit A \<and> p_spin A \<and>
     p_hosts A (c_Hostname C)"

lemma manager_mayD:
  assumes "manager_may A C"
  shows "host_may A h P" and "local_may A C" and "senti_may A" and "p_spin A" and "p_hosts A (c_Hostname C)"
    and "p_ev A (EvExec a r)" and "p_ev A (EvFile f r')" and "calm A C"
    and "may_write A C pathManagerLock" and "may_write A C pathMasterNode"
    and "may_write A C pathActiveNodes" and "may_write A C pathCurrentSwitch"
    and "may_write A C pathLastSwitch" and "may_write A C pathLastRejectedSwitch"
    and "may_write A C pathMaintenance" and "may_write A C pathPoisonPill"
proof -
  have "\<forall>h. host_may A h (\<lambda>c. True)" using assms by (simp add: manager_may_def)
  then show h: "host_may A h P" for h P by (simp add: host_may_def)
  show l: "local_may A C" using assms by (simp add: manager_may_def)
  from l show e: "p_ev A (EvExec a r)" for a r by (rule local_mayD)
  from l show "p_ev A (EvFile f r')" by (rule local_mayD)
  show "calm A C" using assms h e by (simp add: manager_may_def calm_def manager_paths_def)
qed (use assms in \<open>simp_all add: manager_may_def manager_paths_def\<close>)

lemma foot_performSwitchover [foot_intros]:
  assumes "manager_may A C"
  shows "foot A (performSwitchover E C ss active sw old)"
proof -
  have c: "p_crit A" using assms by (simp add: manager_may_def)
  show ?thesis
    unfolding performSwitchover_def enterCritical_def exitCritical_def switchover_phases_def
      promotion_def Let_def
    by (rule foot_intros manager_mayD [OF assms] | simp add: c)+
qed

lemma foot_run_switchover [foot_intros]:
  "manager_may A C \<Longrightarrow> foot A (run_switchover E C ss active master sw)"
  unfolding run_switchover_def report_switchover_def
  by (rule foot_intros | erule manager_mayD | assumption)+

lemma foot_splitTime [foot_intros]: "foot A (set_splitTime h t)" "foot A (delete_splitTime h)"
  unfolding set_splitTime_def delete_splitTime_def by (intro foot_intros; simp)+

lemma foot_judgements [foot_intros]:
  "foot A (judge_master ss dcs master n)" "foot A (judge_split E C ss dcs master n)"
  "foot A (report_unavailable E master)"
  unfolding judge_master_def judge_split_def report_unavailable_def by (intro foot_intros)+

lemma foot_failover [foot_intros]:
  "may_write A C pathCurrentSwitch \<Longrightarrow> foot A (failover E C ss active master)"
  unfolding failover_def touch_nodeFailTime_def by (rule foot_intros | assumption)+

lemma foot_give_up [foot_intros]:
  "may_write A C pathManagerLock \<Longrightarrow> p_spin A \<Longrightarrow> foot A (give_up E C master)"
  unfolding give_up_def new_manager_tick_def by (rule foot_intros | assumption)+

lemma foot_giveup [foot_intros]:
  "foot A m1 \<Longrightarrow> foot A m2 \<Longrightarrow> foot A m3 \<Longrightarrow>
   foot A (case g of StayManager \<Rightarrow> m1 | GiveUp \<Rightarrow> m2 | CarryOn \<Rightarrow> m3)"
  by (cases g) simp_all

lemma foot_watch_master [foot_intros]:
  "manager_may A C \<Longrightarrow> foot A (watch_master E C ss dcs active master b)"
  unfolding watch_master_def regular_repair_def Let_def
  by (rule foot_intros | erule manager_mayD | assumption)+

lemma foot_manage [foot_intros]:
  "manager_may A C \<Longrightarrow> foot A (manage E C ss dcs active master)"
  unfolding manage_def by (rule foot_intros | erule manager_mayD | assumption)+

lemma foot_handle_Manager [foot_intros]: "manager_may A C \<Longrightarrow> foot A (handle_Manager E C)"
  unfolding handle_Manager_def managed_maintenance_def
  by (rule foot_intros | erule manager_mayD | assumption)+

end
