(* ===== verification/App.thy ===== *)
theory App
  imports Manager
begin

text \<open>
  The application: the states other than the manager's (internal/app/init.go, candidate.go,
  lost.go), the main loop and the connection of internal/app/app.go, and one tick of each of the
  goroutines beside it (internal/app/local.go, info_file.go; the cache updater is in \<open>SentiCache\<close>).
\<close>

section \<open>A new application\<close>

datatype logLevel = DebugLevel | InfoLevel | WarnLevel | ErrorLevel

definition parseLevel :: "string \<Rightarrow> goerr + logLevel" where
  "parseLevel level =
     (if level = ''Debug'' then Inr DebugLevel
      else if level = ''Info'' then Inr InfoLevel
      else if level = ''Warn'' then Inr WarnLevel
      else if level = ''Error'' then Inr ErrorLevel
      else Inl (Errorf (''unknown log level: '' @ level)))"

text \<open>
  The state of a new application. Its pointers to the DCS client, the shard, the cache and the reporter are nil;
  \<open>Run\<close> sets them before they are used.
\<close>
definition new_state :: st where
  "new_state = \<lparr> dcsDivergeTime = 0, replFailTime = 0, lostSince = 0, critical = False,
     splitTime = Map.empty, nodeFailTime = Map.empty, app_state = stateInit,
     shard_nodes = [], shard_local = None, heap = Map.empty, next_ptr = 0,
     zk = \<lparr> z_isConnected = False, z_closeTimer = NoTimer, z_lockHeld = Map.empty, z_callback = False \<rparr>,
     cache = \<lparr> scn_conn = False, scn_broken = False, scn_opts = zero_opts \<rparr>, timings = None, hist = [] \<rparr>"

text \<open>
  \<open>NewApp\<close>; \<open>read\<close> is the result of \<open>ReadFromFile\<close>. The parsed modes are read off the configuration by \<open>app_mode\<close>
  and \<open>app_aofMode\<close>.
\<close>
definition NewApp :: "goerr + Config \<Rightarrow> string \<Rightarrow> goerr + (Config \<times> st)" where
  "NewApp read logLevel = (case read of Inl e \<Rightarrow> Inl e
   | Inr conf \<Rightarrow>
      let effectiveLevel = (if logLevel = [] then c_LogLevel conf else logLevel) in
      (case parseLevel effectiveLevel of Inl e \<Rightarrow> Inl e
       | Inr logLevelN \<Rightarrow> (case parseMode (c_Mode conf) of Inl e \<Rightarrow> Inl e
       | Inr mode \<Rightarrow> (case parseAofMode (c_AofMode conf) of Inl e \<Rightarrow> Inl e
       | Inr aofMode \<Rightarrow> Inr (conf, new_state)))))"

section \<open>Init and candidate\<close>

definition handle_Init :: "env \<Rightarrow> Config \<Rightarrow> appState M" where
  "handle_Init E C = perform (WaitConnected E (c_DcsWaitTimeout C)) (\<lambda>ok.
     if \<not> ok
     then perform (doesMaintenanceFileExist E C) (\<lambda>b. ret (if b then stateMaintenance else stateInit))
     else andThen (Initialize E C) (perform (AcquireLock E C pathManagerLock) (\<lambda>locked.
       ret (if locked then stateManager else stateCandidate))))"

text \<open>The end of the candidate's round.\<close>
definition candidate_repair :: "env \<Rightarrow> Config \<Rightarrow> appState M" where
  "candidate_repair E C = perform (dcs_Get E C as_string pathMasterNode) (\<lambda>r. case optional r of
     Inl e \<Rightarrow> ret stateCandidate
   | Inr m \<Rightarrow> (let master = (case m of None \<Rightarrow> [] | Some x \<Rightarrow> x) in
       andThen (repairLocalNode E C master) (perform (AcquireLock E C pathManagerLock) (\<lambda>locked.
         ret (if locked then stateManager else stateCandidate)))))"

definition candidate_pill :: "env \<Rightarrow> Config \<Rightarrow> appState M" where
  "candidate_pill E C = perform (getPoisonPill E C) (\<lambda>r. case optional r of
     Inl e \<Rightarrow> ret stateCandidate
   | Inr None \<Rightarrow> candidate_repair E C
   | Inr (Some pill) \<Rightarrow> perform (applyPoisonPill E C pill) (\<lambda>(err, pill').
       if err \<noteq> None then ret stateCandidate
       else if pp_TargetHost pill = c_Hostname C then ret stateCandidate
       else candidate_repair E C))"

definition handle_Candidate :: "env \<Rightarrow> Config \<Rightarrow> appState M" where
  "handle_Candidate E C = perform (IsConnected E) (\<lambda>connected.
     if \<not> connected then ret stateLost
     else perform (UpdateHostsInfo E C) (\<lambda>e.
       if e \<noteq> None then ret stateCandidate
       else andThen (getShardStateFromDB E C) (perform (GetMaintenance E C) (\<lambda>r. case optional r of
         Inl e \<Rightarrow> ret stateCandidate
       | Inr m \<Rightarrow> if (case m of None \<Rightarrow> False | Some mt \<Rightarrow> mt_RdSyncPaused mt) then ret stateMaintenance
                else candidate_pill E C))))"

section \<open>Lost\<close>

definition connectDCS :: "env \<Rightarrow> Config \<Rightarrow> (goerr + zk_state) M" where
  "connectDCS E C = perform (NewZookeeper E C) (\<lambda>r.
     ret (case r of Inl e \<Rightarrow> Inl (Text ''failed to connect to zkDCS'' e) | Inr z \<Rightarrow> Inr z))"

text \<open>
  A new client replaces the old one, or the old one stays. (The pointer \<open>app.dcs\<close> is assigned nil in
  between when connecting fails.)
\<close>
definition reconnectDCS :: "env \<Rightarrow> Config \<Rightarrow> goerr option M" where
  "reconnectDCS E C = attempt_err (connectDCS E C) (\<lambda>z.
     andThen (upd_zk (\<lambda>old. z)) (andThen SetDisconnectCallback (andThen dcs_Close (ret None))))"

definition set_lostSince :: "time \<Rightarrow> unit M" where
  "set_lostSince t = modify (\<lambda>s. s\<lparr>lostSince := t\<rparr>)"

text \<open>The node goes offline unless it is.\<close>
definition lost_offline :: "env \<Rightarrow> Config \<Rightarrow> nodeP \<Rightarrow> appState M" where
  "lost_offline E C node = perform (IsOffline E node) (\<lambda>r. case r of
     Inl e \<Rightarrow> ret stateLost
   | Inr offline \<Rightarrow> if offline then ret stateLost
       else andThen (SetOffline E C node) (ret stateLost))"

text \<open>The node's connections are good: online it stays, or becomes.\<close>
definition lost_online :: "env \<Rightarrow> Config \<Rightarrow> nodeP \<Rightarrow> bool \<Rightarrow> appState M" where
  "lost_online E C node offline =
     (if offline then andThen (SetOnline E C node) (ret stateLost) else ret stateLost)"

definition lost_master :: "env \<Rightarrow> Config \<Rightarrow> nodeP \<Rightarrow> appState M" where
  "lost_master E C node = perform (checkHAReplicasRunning E C) (\<lambda>running.
     if \<not> running then lost_offline E C node
     else perform (IsOffline E node) (\<lambda>r. case r of
         Inl e \<Rightarrow> ret stateLost
       | Inr offline \<Rightarrow> lost_online E C node offline))"

text \<open>Does the local node replicate from the master as the shard itself shows it?\<close>
definition link_alive ::
  "env \<Rightarrow> Config \<Rightarrow> shard_state \<Rightarrow> string \<Rightarrow> string \<Rightarrow> bool M" where
  "link_alive E C shardState master fqdn =
     perform (state_at shardState master) (\<lambda>ms.
     if \<not> (hs_PingOk ms \<and> hs_PingStable ms) then ret False
     else perform (state_at shardState fqdn) (\<lambda>ls.
       perform (shard_Get master) (\<lambda>masterNode.
       perform (replicates E (Some ms) (hs_ReplicaState ls) fqdn masterNode False) (\<lambda>b.
       if \<not> b then ret False
       else perform (isReplicaStale E C (hs_ReplicaState ls) False) (\<lambda>stale. ret (\<not> stale))))))"

definition lost_replica :: "env \<Rightarrow> Config \<Rightarrow> nodeP \<Rightarrow> appState M" where
  "lost_replica E C node = perform (getShardStateFromDB E C) (\<lambda>r. case r of
     Inl e \<Rightarrow> ret stateLost
   | Inr shardState \<Rightarrow> perform (getMasterHost E C shardState) (\<lambda>m. case m of
       Inl e \<Rightarrow> lost_offline E C node
     | Inr master \<Rightarrow>
         if master = [] then lost_offline E C node
         else perform (shard_Local C) (\<lambda>local. perform (IsOffline E local) (\<lambda>q. case q of
           Inl e \<Rightarrow> ret stateLost
         | Inr offline \<Rightarrow> perform (FQDN local) (\<lambda>fqdn.
             perform (link_alive E C shardState master fqdn) (\<lambda>alive.
             if alive then lost_online E C node offline else lost_offline E C node))))))"

definition handle_Lost :: "env \<Rightarrow> Config \<Rightarrow> appState M" where
  "handle_Lost E C = perform (IsConnected E) (\<lambda>connected.
     if connected then ret stateCandidate
     else perform (gets lostSince) (\<lambda>t0.
     perform (if is_zero t0 then ret False
              else perform (time_since E t0) (\<lambda>age. ret (age \<ge> c_DcsReconnectTimeout C))) (\<lambda>overdue.
     if overdue
     then andThen (reconnectDCS E C) (perform (now E) (\<lambda>t.
            andThen (set_lostSince t) (ret stateLost)))
     else perform shard_Hosts (\<lambda>hs.
       if length hs = 1 then ret stateLost
       else perform (getLocalState E C) (\<lambda>local.
         perform (shard_Local C) (\<lambda>node.
         perform (deref local) (\<lambda>localNodeState.
           if hs_IsMaster localNodeState then lost_master E C node else lost_replica E C node)))))))"

section \<open>The main loop\<close>

definition state_handler :: "env \<Rightarrow> Config \<Rightarrow> appState \<Rightarrow> appState M" where
  "state_handler E C state = (case state of
     stateInit \<Rightarrow> handle_Init E C
   | stateManager \<Rightarrow> handle_Manager E C
   | stateCandidate \<Rightarrow> handle_Candidate E C
   | stateLost \<Rightarrow> handle_Lost E C
   | stateMaintenance \<Rightarrow> handle_Maintenance E C)"

text \<open>The bookkeeping of a change of state: when the connection was lost.\<close>
definition enter_state :: "env \<Rightarrow> appState \<Rightarrow> appState \<Rightarrow> unit M" where
  "enter_state E state nextState =
     andThen (if nextState = stateLost \<and> state \<noteq> stateLost then perform (now E) set_lostSince
              else if nextState \<noteq> stateLost \<and> state = stateLost then set_lostSince 0
              else ret ())
       (modify (\<lambda>s. s\<lparr>app_state := nextState\<rparr>))"

text \<open>One tick: handlers run until the state repeats. True: another handler runs.\<close>
definition tick_step :: "env \<Rightarrow> Config \<Rightarrow> unit \<Rightarrow> (unit + unit) M" where
  "tick_step E C u = perform (gets app_state) (\<lambda>state.
     perform (state_handler E C state) (\<lambda>nextState.
       if nextState = state then ret (Inr ())
       else andThen (enter_state E state nextState) (ret (Inl ()))))"

definition run_tick :: "env \<Rightarrow> Config \<Rightarrow> unit M" where
  "run_tick E C = iterate (e_fuel E) (tick_step E C) ()"

text \<open>What the loop of \<open>Run\<close> wakes up for.\<close>
datatype wakeup = SigHup | Tick | Stop

primrec run_loop :: "env \<Rightarrow> Config \<Rightarrow> wakeup list \<Rightarrow> int M" where
  "run_loop E C [] = halt OutOfFuel"
| "run_loop E C (w # ws) = (case w of
     SigHup \<Rightarrow> andThen (Reopen E C) (run_loop E C ws)
   | Tick \<Rightarrow> andThen (run_tick E C) (run_loop E C ws)
   | Stop \<Rightarrow> ret 0)"

definition lockDaemonFile :: "env \<Rightarrow> Config \<Rightarrow> unit M" where
  "lockDaemonFile E C = perform (file_action E (LockFile (c_DaemonLockFile C))) (\<lambda>e.
     if e \<noteq> None then halt (ProcExit 1) else ret ())"

definition unlockDaemonFile :: "env \<Rightarrow> Config \<Rightarrow> unit M" where
  "unlockDaemonFile E C = andThen (file_action E (UnlockFile (c_DaemonLockFile C))) (ret ())"

text \<open>\<open>Run\<close> up to its loop: \<open>Inl\<close> an exit code.\<close>
definition start_up :: "env \<Rightarrow> Config \<Rightarrow> (int + unit) M" where
  "start_up E C = perform (connectDCS E C) (\<lambda>r. case r of
     Inl e \<Rightarrow> ret (Inl 1)
   | Inr z \<Rightarrow> andThen (upd_zk (\<lambda>old. z)) (andThen SetDisconnectCallback
       (if app_mode C = modeSentinel
        then perform (NewSentiCacheNode E C) (\<lambda>c. case c of
               Inl e \<Rightarrow> andThen dcs_Close (ret (Inl 1))
             | Inr s \<Rightarrow> andThen (modify (\<lambda>st. st\<lparr>cache := s\<rparr>)) (ret (Inr ())))
        else ret (Inr ()))))"

definition Run :: "env \<Rightarrow> Config \<Rightarrow> wakeup list \<Rightarrow> int M" where
  "Run E C wakeups =
     andThen (lockDaemonFile E C)
     (andThen (newTimingReporter E C)
     (perform (start_up E C) (\<lambda>r.
      perform (case r of Inl code \<Rightarrow> ret code
               | Inr u \<Rightarrow> perform (run_loop E C wakeups) (\<lambda>code. andThen dcs_Close (ret code))) (\<lambda>code.
      andThen (Close_timings E C) (andThen (unlockDaemonFile E C) (ret code))))))"

section \<open>Ticks of the other goroutines\<close>

text \<open>One tick of \<open>healthChecker\<close>; the argument and the result are its variable \<open>hcCheckTime\<close>.\<close>
definition healthChecker_tick :: "env \<Rightarrow> Config \<Rightarrow> time \<Rightarrow> time M" where
  "healthChecker_tick E C hcCheckTime =
     (let path = JoinPath [pathHealthPrefix, c_Hostname C] in
      perform (getLocalState E C) (\<lambda>hc. case hc of
        Some state \<Rightarrow> andThen (dcs_SetEphemeral E C path (JHost state)) (ret (hs_CheckAt state))
      | None \<Rightarrow>
          if is_zero hcCheckTime then ret hcCheckTime
          else perform (time_since E hcCheckTime) (\<lambda>age.
            if age < 5 * c_HealthCheckInterval C then ret hcCheckTime
            else andThen (dcs_Delete E C path) (ret 0))))"

text \<open>
  One tick of \<open>stateFileHandler\<close>. The text of the tree is the argument \<open>marshal\<close>, its failure None;
  on any failure the file is removed.
\<close>
definition stateFileHandler_tick :: "env \<Rightarrow> Config \<Rightarrow> (tree \<Rightarrow> string option) \<Rightarrow> unit M" where
  "stateFileHandler_tick E C marshal =
     (let drop_file = andThen (file_action E (RemoveFile (c_InfoFile C))) (ret ()) in
      perform (dcs_GetTree (e_fuel E) E C []) (\<lambda>r. case r of
        Inl e \<Rightarrow> drop_file
      | Inr t \<Rightarrow> (case marshal t of
          None \<Rightarrow> drop_file
        | Some data \<Rightarrow> perform (file_action E (WriteFile (c_InfoFile C))) (\<lambda>e.
            if e \<noteq> None then drop_file else ret ()))))"

section \<open>Footprints\<close>

text \<open>
  A candidate acts on its own node; the keys it writes are the pill and the lock. A lost node acts on
  its own node and writes nothing.
\<close>

definition candidate_may :: "permit \<Rightarrow> Config \<Rightarrow> bool" where
  "candidate_may A C \<longleftrightarrow> local_may A C \<and> may_write A C pathPoisonPill \<and> may_write A C pathManagerLock \<and>
     p_hosts A (c_Hostname C)"

lemma candidate_mayD:
  assumes "candidate_may A C"
  shows "local_may A C" and "may_write A C pathPoisonPill" and "may_write A C pathManagerLock"
    and "p_hosts A (c_Hostname C)" and "p_ev A (EvExec a r)" and "host_may A (c_Hostname C) P"
  using assms by (auto simp: candidate_may_def intro: local_mayD)

lemma foot_handle_Init [foot_intros]:
  "may_write A C [] \<Longrightarrow> may_write A C pathManagerLock \<Longrightarrow> foot A (handle_Init E C)"
  unfolding handle_Init_def by (rule foot_intros | assumption)+

lemma foot_handle_Candidate [foot_intros]: "candidate_may A C \<Longrightarrow> foot A (handle_Candidate E C)"
  unfolding handle_Candidate_def candidate_pill_def candidate_repair_def Let_def
  by (rule foot_intros | erule candidate_mayD | assumption)+

lemma foot_connectDCS [foot_intros]: "foot A (connectDCS E C)"
  unfolding connectDCS_def by (intro foot_intros)

lemma foot_reconnect [foot_intros]: "p_crit A \<Longrightarrow> p_link A \<Longrightarrow> foot A (reconnectDCS E C)"
  unfolding reconnectDCS_def SetDisconnectCallback_def by (rule foot_intros | simp)+

definition lost_may :: "permit \<Rightarrow> Config \<Rightarrow> bool" where
  "lost_may A C \<longleftrightarrow> host_may A (c_Hostname C) (\<lambda>c. c \<in> set online_cmds \<or> c \<in> set offline_cmds)"

lemma lost_cmds:
  assumes "lost_may A C" and "ptr_to (c_Hostname C) p"
  shows "may_cmds A p online_cmds" and "may_cmds A p offline_cmds"
  using assms unfolding lost_may_def by (auto intro!: may_cmds_host simp: list_all_iff)

lemma foot_lost [foot_intros]:
  assumes "lost_may A C" and "ptr_to (c_Hostname C) p"
  shows "foot A (lost_master E C p)" and "foot A (lost_replica E C p)"
  unfolding lost_master_def lost_replica_def lost_offline_def lost_online_def link_alive_def
  by (rule foot_first foot_intros lost_cmds [OF assms] | assumption)+

lemma foot_handle_Maintenance [foot_intros]:
  "manager_may A C \<Longrightarrow> foot A (handle_Maintenance E C)"
  unfolding handle_Maintenance_def leaving_def
  by (rule foot_intros | erule manager_mayD | assumption)+

lemma foot_healthChecker_tick [foot_intros]:
  "may_write A C (JoinPath [pathHealthPrefix, c_Hostname C]) \<Longrightarrow> foot A (healthChecker_tick E C t)"
  unfolding healthChecker_tick_def Let_def by (rule foot_intros | assumption)+

end
