(* ===== verification/Cli.thy ===== *)
theory Cli
  imports App
begin

text \<open>
  The commands of the operator: internal/app/cli.go. Each returns the exit code. The text forms of
  times (\<open>ftime\<close>) and of documents (\<open>yaml\<close>, None for its error) are arguments; \<open>fmt.Print\<close> is the
  event \<open>EvPrint\<close>. A command has a client of its own, without disconnect callback.
\<close>

section \<open>A session with the DCS\<close>

text \<open>The first lines of every command, and its deferred close.\<close>
definition with_dcs :: "env \<Rightarrow> Config \<Rightarrow> int M \<Rightarrow> int M" where
  "with_dcs E C body = perform (connectDCS E C) (\<lambda>r. case r of
     Inl e \<Rightarrow> ret 1
   | Inr z \<Rightarrow> andThen (upd_zk (\<lambda>old. z)) (andThen (Initialize E C)
       (perform body (\<lambda>code. andThen dcs_Close (ret code)))))"

text \<open>\<open>if err != nil { return 1 }\<close>\<close>
definition or_exit :: "(goerr + 'a) M \<Rightarrow> ('a \<Rightarrow> int M) \<Rightarrow> int M" where
  "or_exit m k = perform m (\<lambda>r. case r of Inl e \<Rightarrow> ret 1 | Inr x \<Rightarrow> k x)"

definition ok_or_exit :: "goerr option M \<Rightarrow> int M \<Rightarrow> int M" where
  "ok_or_exit m k = perform m (\<lambda>e. if e \<noteq> None then ret 1 else k)"

text \<open>An optional document: an error other than a missing key exits.\<close>
definition get_opt :: "env \<Rightarrow> Config \<Rightarrow> (doc \<Rightarrow> 'a option) \<Rightarrow> string \<Rightarrow> ('a option \<Rightarrow> int M) \<Rightarrow> int M" where
  "get_opt E C dec path k = or_exit (perform (dcs_Get E C dec path) (\<lambda>r. ret (optional r))) k"

text \<open>\<open>fmt.Println\<close>\<close>
definition println :: "string \<Rightarrow> unit M" where
  "println t = print (t @ [CHR 0x0A])"

section \<open>info and state\<close>

datatype yaml_value = YStr string | YStrs "string list" | YMap "(string \<times> yaml_value) list"
  | YTree tree | YStates shard_state

definition print_yaml :: "(yaml_value \<Rightarrow> string option) \<Rightarrow> yaml_value \<Rightarrow> int M" where
  "print_yaml yaml v = (case yaml v of None \<Rightarrow> ret 1 | Some t \<Rightarrow> andThen (print t) (ret 0))"

text \<open>An entry of the map, when the document exists.\<close>
definition entry :: "string \<Rightarrow> ('a \<Rightarrow> string) \<Rightarrow> 'a option \<Rightarrow> (string \<times> yaml_value) list" where
  "entry path show_it x = (case x of None \<Rightarrow> [] | Some y \<Rightarrow> [(path, YStr (show_it y))])"

definition short_info ::
  "env \<Rightarrow> Config \<Rightarrow> (time \<Rightarrow> string) \<Rightarrow> (yaml_value \<Rightarrow> string option) \<Rightarrow> int M" where
  "short_info E C ftime yaml =
     or_exit (GetShardHostsFromDcs E C) (\<lambda>haNodes.
     or_exit (GetActiveNodes E C) (\<lambda>activeNodes.
     or_exit (getShardStateFromDcs E C) (\<lambda>shardState.
     get_opt E C as_switch pathLastSwitch (\<lambda>lastSwitch.
     get_opt E C as_switch pathCurrentSwitch (\<lambda>currentSwitch.
     get_opt E C as_switch pathLastRejectedSwitch (\<lambda>rejected.
     get_opt E C as_maint pathMaintenance (\<lambda>maintenance.
     get_opt E C as_pill pathPoisonPill (\<lambda>pill.
     get_opt E C as_owner pathManagerLock (\<lambda>manager.
     get_opt E C as_string pathMasterNode (\<lambda>master.
       print_yaml yaml (YMap (
         [(pathHANodes, YStrs haNodes), (pathActiveNodes, YStrs (sort activeNodes)),
          (pathHealthPrefix, YMap (map (\<lambda>(h, s). (h, YStr (HostState_String s))) shardState))]
         @ entry pathLastSwitch (Switchover_String ftime) lastSwitch
         @ entry pathCurrentSwitch (Switchover_String ftime) currentSwitch
         @ entry pathLastRejectedSwitch (Switchover_String ftime) rejected
         @ entry pathMaintenance (Maintenance_String ftime) maintenance
         @ entry pathPoisonPill (PoisonPill_String ftime) pill
         @ [(pathManagerLock, YStr (case manager of None \<Rightarrow> [] | Some owner \<Rightarrow> lo_Hostname owner)),
            (pathMasterNode, YStr (case master of None \<Rightarrow> [] | Some m \<Rightarrow> m))]))))))))))))"

definition CliInfo ::
  "env \<Rightarrow> Config \<Rightarrow> (time \<Rightarrow> string) \<Rightarrow> (yaml_value \<Rightarrow> string option) \<Rightarrow> bool \<Rightarrow> int M" where
  "CliInfo E C ftime yaml verbose = with_dcs E C (ok_or_exit (UpdateHostsInfo E C)
     (if \<not> verbose then short_info E C ftime yaml
      else or_exit (dcs_GetTree (e_fuel E) E C []) (\<lambda>t. print_yaml yaml (YTree t))))"

definition CliState :: "env \<Rightarrow> Config \<Rightarrow> (yaml_value \<Rightarrow> string option) \<Rightarrow> bool \<Rightarrow> int M" where
  "CliState E C yaml verbose = with_dcs E C (ok_or_exit (UpdateHostsInfo E C)
     (or_exit (getShardStateFromDB E C) (\<lambda>shardState.
       print_yaml yaml (if \<not> verbose
         then YMap (map (\<lambda>(h, s). (h, YStr (HostState_String s))) shardState)
         else YStates shardState))))"

section \<open>switch\<close>

definition matchPrefix :: "string list \<Rightarrow> string \<Rightarrow> string list" where
  "matchPrefix hosts pfx = filter (\<lambda>host. HasPrefix host pfx) hosts"

text \<open>The hosts of a request: \<open>Inl\<close> the exit code when there is nothing to ask for.\<close>
type_synonym request = "int + (string \<times> string)"

definition done_already :: "request M" where
  "done_already = andThen (println ''switchover done'') (ret (Inl 0))"

definition resolve_to :: "string list \<Rightarrow> string list \<Rightarrow> string \<Rightarrow> string \<Rightarrow> request M" where
  "resolve_to hosts activeNodes currentMaster switchTo = (case matchPrefix hosts switchTo of
     [toHost] \<Rightarrow>
       if toHost = currentMaster then done_already
       else if toHost \<notin> set activeNodes then ret (Inl 1)
       else ret (Inr ([], toHost))
   | _ \<Rightarrow> ret (Inl 1))"

definition resolve_from ::
  "env \<Rightarrow> Config \<Rightarrow> string list \<Rightarrow> string list \<Rightarrow> string \<Rightarrow> string \<Rightarrow> request M" where
  "resolve_from E C hosts activeNodes currentMaster switchFrom =
     (let notDesired = matchPrefix hosts switchFrom;
          candidates = filterOut activeNodes notDesired
      in if length notDesired = 0 then ret (Inl 1)
         else if currentMaster \<notin> set notDesired then done_already
         else if length candidates = 0 then ret (Inl 1)
         else (case notDesired of
             [fromHost] \<Rightarrow> ret (Inr (fromHost, []))
           | _ \<Rightarrow> perform (getShardStateFromDB E C) (\<lambda>r. case r of
               Inl e \<Rightarrow> ret (Inl 1)
             | Inr states \<Rightarrow> perform (getMostDesirableNode E C states switchFrom) (\<lambda>d. case d of
                 Inl e \<Rightarrow> ret (Inl 1)
               | Inr toHost \<Rightarrow> ret (Inr ([], toHost))))))"

text \<open>One tick of the wait: the last switchover is this one when initiator and second agree.\<close>
definition wait_switch_tick ::
  "env \<Rightarrow> Config \<Rightarrow> Switchover \<Rightarrow> unit \<Rightarrow> (unit + Switchover) M" where
  "wait_switch_tick E C switchover u = perform (getLastSwitchover E C) (\<lambda>lastSwitchover.
     ret (if sw_InitiatedBy lastSwitchover = sw_InitiatedBy switchover \<and>
             sw_InitiatedAt lastSwitchover div second = sw_InitiatedAt switchover div second
          then Inr lastSwitchover else Inl ()))"

definition wait_switch :: "env \<Rightarrow> Config \<Rightarrow> duration \<Rightarrow> Switchover \<Rightarrow> int M" where
  "wait_switch E C waitTimeout switchover =
     (if waitTimeout > 0
      then perform (now E) (\<lambda>t.
           perform (tick_loop E second (t + waitTimeout) (wait_switch_tick E C switchover)
             (\<lambda>u. zero_Switchover) ()) (\<lambda>lastSwitchover. case sw_Result lastSwitchover of
               None \<Rightarrow> ret 1
             | Some res \<Rightarrow> if \<not> sr_Ok res then ret 1
                 else andThen (println ''switchover done'') (ret 0)))
      else andThen (println ''switchover scheduled'') (ret 0))"

definition request_switch ::
  "env \<Rightarrow> Config \<Rightarrow> string \<Rightarrow> string \<Rightarrow> duration \<Rightarrow> bool \<Rightarrow> int M" where
  "request_switch E C fromHost toHost waitTimeout switchForce =
     perform (dcs_Get E C as_switch pathCurrentSwitch) (\<lambda>r. case optional r of
       Inr (Some sw) \<Rightarrow> ret 2
     | Inl e \<Rightarrow> ret 2
     | Inr None \<Rightarrow> perform (now E) (\<lambda>t.
         let switchover = zero_Switchover\<lparr>sw_From := fromHost, sw_To := toHost,
               sw_InitiatedBy := c_Hostname C, sw_InitiatedAt := t, sw_Cause := CauseManual,
               sw_RunCount := (if switchForce then 1 else 0)\<rparr> in
         ok_or_exit (if switchForce then dcs_Set E C pathActiveNodes (JStrings [toHost]) else ret None)
         (perform (dcs_Create E C pathCurrentSwitch (JSwitch switchover)) (\<lambda>e. case e of
            Some x \<Rightarrow> ret (if err_is x ErrExists then 2 else 1)
          | None \<Rightarrow> wait_switch E C waitTimeout switchover))))"

definition CliSwitch ::
  "env \<Rightarrow> Config \<Rightarrow> string \<Rightarrow> string \<Rightarrow> duration \<Rightarrow> bool \<Rightarrow> int M" where
  "CliSwitch E C switchFrom switchTo waitTimeout switchForce =
     (if switchFrom = [] \<and> switchTo = [] then ret 1
      else if switchFrom \<noteq> [] \<and> switchTo \<noteq> [] then ret 1
      else if switchFrom \<noteq> [] \<and> switchForce then ret 1
      else with_dcs E C (ok_or_exit (UpdateHostsInfo E C)
        (perform shard_Hosts (\<lambda>hosts.
         if length hosts = 1 then andThen (println ''switchover done'') (ret 0)
         else or_exit (dcs_Get E C as_string pathMasterNode) (\<lambda>currentMaster.
              or_exit (GetActiveNodes E C) (\<lambda>activeNodes.
              perform (if switchTo \<noteq> [] then resolve_to hosts activeNodes currentMaster switchTo
                       else resolve_from E C hosts activeNodes currentMaster switchFrom) (\<lambda>q. case q of
                Inl code \<Rightarrow> ret code
              | Inr (fromHost, toHost) \<Rightarrow>
                  request_switch E C fromHost toHost waitTimeout switchForce)))))))"

section \<open>maintenance\<close>

text \<open>A failed read leaves the document as it is.\<close>
definition wait_paused_tick :: "env \<Rightarrow> Config \<Rightarrow> Maintenance \<Rightarrow> (Maintenance + Maintenance) M" where
  "wait_paused_tick E C maintenance = perform (dcs_Get E C as_maint pathMaintenance) (\<lambda>r.
     let m = (case r of Inl e \<Rightarrow> maintenance | Inr x \<Rightarrow> x) in
     ret (if mt_RdSyncPaused m then Inr m else Inl m))"

definition CliEnableMaintenance :: "env \<Rightarrow> Config \<Rightarrow> duration \<Rightarrow> int M" where
  "CliEnableMaintenance E C waitTimeout = with_dcs E C (perform (now E) (\<lambda>t.
     let maintenance = zero_Maintenance\<lparr>mt_InitiatedBy := c_Hostname C, mt_InitiatedAt := t\<rparr> in
     perform (dcs_Create E C pathMaintenance (JMaint maintenance)) (\<lambda>e.
     if e \<noteq> None \<and> \<not> is_err e ErrExists then ret 1
     else if waitTimeout > 0
     then perform (now E) (\<lambda>t'.
          perform (tick_loop E second (t' + waitTimeout) (wait_paused_tick E C) id maintenance) (\<lambda>m.
            if \<not> mt_RdSyncPaused m then ret 1
            else andThen (println ''maintenance enabled'') (ret 0)))
     else andThen (println ''maintenance scheduled'') (ret 0))))"

text \<open>True: the document is gone.\<close>
definition wait_gone_tick :: "env \<Rightarrow> Config \<Rightarrow> unit \<Rightarrow> (unit + bool) M" where
  "wait_gone_tick E C u = perform (dcs_Get E C as_maint pathMaintenance) (\<lambda>r. case r of
     Inl e \<Rightarrow> ret (if err_is e ErrNotFound then Inr True else Inl ())
   | Inr m \<Rightarrow> ret (Inl ()))"

definition CliDisableMaintenance :: "env \<Rightarrow> Config \<Rightarrow> duration \<Rightarrow> int M" where
  "CliDisableMaintenance E C waitTimeout = with_dcs E C (get_opt E C as_maint pathMaintenance (\<lambda>m. case m of
     None \<Rightarrow> andThen (println ''maintenance disabled'') (ret 0)
   | Some maintenance \<Rightarrow>
       ok_or_exit (dcs_Set E C pathMaintenance (JMaint (maintenance\<lparr>mt_ShouldLeave := True\<rparr>)))
       (if waitTimeout > 0
        then perform (now E) (\<lambda>t.
             perform (tick_loop E second (t + waitTimeout) (wait_gone_tick E C) (\<lambda>u. False) ()) (\<lambda>gone.
               if \<not> gone then ret 1 else andThen (println ''maintenance disabled'') (ret 0)))
        else andThen (println ''maintenance disable scheduled'') (ret 0))))"

definition CliGetMaintenance :: "env \<Rightarrow> Config \<Rightarrow> int M" where
  "CliGetMaintenance E C = with_dcs E C (get_opt E C as_maint pathMaintenance (\<lambda>m.
     andThen (println (case m of None \<Rightarrow> ''off''
       | Some maintenance \<Rightarrow> if mt_RdSyncPaused maintenance then ''on'' else ''scheduled'')) (ret 0)))"

section \<open>abort\<close>

definition abort_phrase :: string where "abort_phrase = ''yes, abort switch''"

definition read_line :: "env \<Rightarrow> (goerr + string) M" where
  "read_line E = perform (gets (\<lambda>s. e_input E (hist s))) (\<lambda>r. andThen (record_event EvInput) (ret r))"

definition CliAbort :: "env \<Rightarrow> Config \<Rightarrow> int M" where
  "CliAbort E C = with_dcs E C (get_opt E C as_switch pathCurrentSwitch (\<lambda>sw. case sw of
     None \<Rightarrow> andThen (println ''no active switchover'') (ret 0)
   | Some x \<Rightarrow>
       andThen (println (''please, confirm aborting switchover by typing '' @ [CHR 0x27] @ abort_phrase @ [CHR 0x27]))
       (or_exit (read_line E) (\<lambda>response.
        if str_trim response \<noteq> abort_phrase
        then andThen (print ''doesn't match, do nothing'') (ret 1)
        else ok_or_exit (dcs_Delete E C pathCurrentSwitch)
               (andThen (println ''switchover aborted'') (ret 0))))))"

section \<open>host\<close>

definition CliHostList :: "env \<Rightarrow> Config \<Rightarrow> (yaml_value \<Rightarrow> string option) \<Rightarrow> int M" where
  "CliHostList E C yaml = with_dcs E C (or_exit (GetShardHostsFromDcs E C) (\<lambda>hosts.
     print_yaml yaml (YMap [(pathHANodes, YStrs (sort hosts))])))"

definition target_conf :: "int option \<Rightarrow> NodeConfiguration" where
  "target_conf priority = (case priority of None \<Rightarrow> DefaultNodeConfiguration
     | Some p \<Rightarrow> DefaultNodeConfiguration\<lparr>nc_Priority := p\<rparr>)"

text \<open>\<open>fptr\<close> is the text of a pointer printed as a number: the code prints the pointer \<open>priority\<close>.\<close>
definition processPriority ::
  "env \<Rightarrow> Config \<Rightarrow> (int option \<Rightarrow> string) \<Rightarrow> int option \<Rightarrow> bool \<Rightarrow> string \<Rightarrow> (goerr + bool) M" where
  "processPriority E C fptr priority dryRun host =
     (let targetConf = target_conf priority in
      if dryRun
      then attempt (GetShardHostsFromDcs E C) (\<lambda>hosts.
           if host \<notin> set hosts
           then andThen (println ''dry run: node can be created'') (ret (Inr True))
           else attempt (GetNodeConfiguration E C host) (\<lambda>nc.
             if nc_Priority nc = nc_Priority targetConf
             then andThen (println (''dry run: node already has priority '' @ fptr priority @ '' set'')) (ret (Inr False))
             else andThen (println (''dry run: node priority can be set to '' @ itoa (nc_Priority targetConf)
                    @ '' (current priority '' @ itoa (nc_Priority nc) @ '')'')) (ret (Inr True))))
      else perform (dcs_Set E C (JoinPath [pathHANodes, host]) (JNode targetConf)) (\<lambda>e. case e of
             Some x \<Rightarrow> ret (if err_is x ErrExists then Inr True else Inl x)
           | None \<Rightarrow> ret (Inr True)))"

text \<open>The node is alive: a connection of its own, outside the shard.\<close>
definition check_alive :: "env \<Rightarrow> Config \<Rightarrow> string \<Rightarrow> goerr option M" where
  "check_alive E C host = attempt_err (NewNode E C host) (\<lambda>n.
     perform (GetState E C (Some (host, n))) (\<lambda>(info, minReplicas, ro, off, paused, err). ret err))"

definition CliHostAdd ::
  "env \<Rightarrow> Config \<Rightarrow> (int option \<Rightarrow> string) \<Rightarrow> string \<Rightarrow> int option \<Rightarrow> bool \<Rightarrow> bool \<Rightarrow> int M" where
  "CliHostAdd E C fptr host priority dryRun skipValkeyCheck =
     (if (case priority of None \<Rightarrow> False | Some p \<Rightarrow> p < 0) then ret 1
      else with_dcs E C (perform (dcs_Create E C (JoinPath [pathHANodes]) JNull) (\<lambda>e.
        if e \<noteq> None \<and> \<not> is_err e ErrExists then ret 1
        else ok_or_exit (if skipValkeyCheck then ret None else check_alive E C host)
        (perform (if \<not> dryRun \<and> priority = None
                  then dcs_Set E C (JoinPath [pathHANodes, host]) (JNode DefaultNodeConfiguration)
                  else ret None) (\<lambda>e.
         if e \<noteq> None \<and> \<not> is_err e ErrExists then ret 1
         else or_exit (processPriority E C fptr priority dryRun host) (\<lambda>changes.
           if dryRun
           then if \<not> changes
                then andThen (println ''dry run finished: no changes detected'') (ret 0)
                else ret 2
           else andThen (println ''host has been added'') (ret 0)))))))"

definition CliHostRemove :: "env \<Rightarrow> Config \<Rightarrow> string \<Rightarrow> int M" where
  "CliHostRemove E C host = with_dcs E C (perform (dcs_Delete E C (JoinPath [pathHANodes, host])) (\<lambda>e.
     if e \<noteq> None \<and> \<not> is_err e ErrNotFound then ret 1
     else andThen (println ''host has been removed'') (ret 0)))"

end
