(* ===== verification/Program.thy ===== *)
theory Program
  imports Cli
begin

text \<open>
  The executable: the commands of cmd/rdsync/*.go. The cobra library parses the command line and sets the variables of the
  flags; they are the argument \<open>fl\<close>. Each command makes a new application and exits with the code of its method.
\<close>

section \<open>Flags\<close>

record flags =
  fl_configFile :: string
  fl_logLevel :: string
  fl_verbose :: bool
  fl_priority :: int
  fl_priority_given :: bool   \<comment> \<open>\<open>Flags().Visit\<close> visits the flags that were set\<close>
  fl_dryRun :: bool
  fl_skipValkeyCheck :: bool
  fl_maintWait :: duration
  fl_switchTo :: string
  fl_switchFrom :: string
  fl_switchWait :: duration
  fl_switchForce :: bool

text \<open>The defaults that the \<open>init\<close> functions register.\<close>
definition default_flags :: flags where
  "default_flags = \<lparr> fl_configFile = ''/etc/rdsync.yaml'', fl_logLevel = ''Warn'', fl_verbose = False,
     fl_priority = 100, fl_priority_given = False, fl_dryRun = False, fl_skipValkeyCheck = False,
     fl_maintWait = 30 * second, fl_switchTo = [], fl_switchFrom = [], fl_switchWait = 5 * minute,
     fl_switchForce = False \<rparr>"

section \<open>Commands\<close>

text \<open>
  The shape of every \<open>Run\<close>: a new application, or its error and exit code 1; the method; \<open>CloseLogger\<close>, which has no
  state here; \<open>os.Exit\<close>. \<open>read\<close> is \<open>ReadFromFile\<close> for the file of the flag.
\<close>
definition run_command :: "(string \<Rightarrow> goerr + Config) \<Rightarrow> string \<Rightarrow> string \<Rightarrow> (Config \<Rightarrow> int M) \<Rightarrow> unit M" where
  "run_command read configFile logLevel body = (case NewApp (read configFile) logLevel of
     Inl e \<Rightarrow> andThen (println (err_msg e)) (halt (ProcExit 1))
   | Inr (C, app) \<Rightarrow> andThen (modify (\<lambda>s. app\<lparr>hist := hist s\<rparr>)) (perform (body C) (\<lambda>code. halt (ProcExit code))))"

definition rootCmd :: "env \<Rightarrow> (string \<Rightarrow> goerr + Config) \<Rightarrow> wakeup list \<Rightarrow> flags \<Rightarrow> unit M" where
  "rootCmd E read wakeups fl = run_command read (fl_configFile fl) [] (\<lambda>C. Run E C wakeups)"

definition abortCmd :: "env \<Rightarrow> (string \<Rightarrow> goerr + Config) \<Rightarrow> flags \<Rightarrow> unit M" where
  "abortCmd E read fl = run_command read (fl_configFile fl) (fl_logLevel fl) (CliAbort E)"

definition hostListCmd ::
  "env \<Rightarrow> (string \<Rightarrow> goerr + Config) \<Rightarrow> (yaml_value \<Rightarrow> string option) \<Rightarrow> flags \<Rightarrow> unit M" where
  "hostListCmd E read yaml fl =
     run_command read (fl_configFile fl) (fl_logLevel fl) (\<lambda>C. CliHostList E C yaml)"

definition hostAddCmd ::
  "env \<Rightarrow> (string \<Rightarrow> goerr + Config) \<Rightarrow> (int option \<Rightarrow> string) \<Rightarrow> flags \<Rightarrow> string \<Rightarrow> unit M" where
  "hostAddCmd E read fptr fl arg =
     run_command read (fl_configFile fl) (fl_logLevel fl) (\<lambda>C.
       let priorityVal = (if fl_priority_given fl then Some (fl_priority fl) else None) in
       CliHostAdd E C fptr arg priorityVal (fl_dryRun fl) (fl_skipValkeyCheck fl))"

definition hostRemoveCmd :: "env \<Rightarrow> (string \<Rightarrow> goerr + Config) \<Rightarrow> flags \<Rightarrow> string \<Rightarrow> unit M" where
  "hostRemoveCmd E read fl arg =
     run_command read (fl_configFile fl) (fl_logLevel fl) (\<lambda>C. CliHostRemove E C arg)"

definition infoCmd ::
  "env \<Rightarrow> (string \<Rightarrow> goerr + Config) \<Rightarrow> (time \<Rightarrow> string) \<Rightarrow> (yaml_value \<Rightarrow> string option) \<Rightarrow> flags \<Rightarrow> unit M" where
  "infoCmd E read ftime yaml fl =
     run_command read (fl_configFile fl) (fl_logLevel fl) (\<lambda>C. CliInfo E C ftime yaml (fl_verbose fl))"

definition stateCmd ::
  "env \<Rightarrow> (string \<Rightarrow> goerr + Config) \<Rightarrow> (yaml_value \<Rightarrow> string option) \<Rightarrow> flags \<Rightarrow> unit M" where
  "stateCmd E read yaml fl =
     run_command read (fl_configFile fl) (fl_logLevel fl) (\<lambda>C. CliState E C yaml (fl_verbose fl))"

definition maintCmd :: "env \<Rightarrow> (string \<Rightarrow> goerr + Config) \<Rightarrow> flags \<Rightarrow> unit M" where
  "maintCmd E read fl = run_command read (fl_configFile fl) (fl_logLevel fl) (CliGetMaintenance E)"

definition maintOnCmd :: "env \<Rightarrow> (string \<Rightarrow> goerr + Config) \<Rightarrow> flags \<Rightarrow> unit M" where
  "maintOnCmd E read fl =
     run_command read (fl_configFile fl) (fl_logLevel fl) (\<lambda>C. CliEnableMaintenance E C (fl_maintWait fl))"

definition maintOffCmd :: "env \<Rightarrow> (string \<Rightarrow> goerr + Config) \<Rightarrow> flags \<Rightarrow> unit M" where
  "maintOffCmd E read fl =
     run_command read (fl_configFile fl) (fl_logLevel fl) (\<lambda>C. CliDisableMaintenance E C (fl_maintWait fl))"

definition switchCmd :: "env \<Rightarrow> (string \<Rightarrow> goerr + Config) \<Rightarrow> flags \<Rightarrow> unit M" where
  "switchCmd E read fl =
     run_command read (fl_configFile fl) (fl_logLevel fl) (\<lambda>C.
       CliSwitch E C (fl_switchFrom fl) (fl_switchTo fl) (fl_switchWait fl) (fl_switchForce fl))"

end
