(* ===== verification/Diagnostics.thy ===== *)
theory Diagnostics
  imports App
begin

text \<open>
  What the process shows of itself: the loggers of internal/app/logger.go, as the options they hand to the zerolog library, and
  the profiling endpoint of internal/app/pprof.go. Writing a line and serving a request are the libraries'.
\<close>

section \<open>Loggers\<close>

definition upper_char :: "char \<Rightarrow> char" where
  "upper_char c = (let k = of_char c :: nat in if 97 \<le> k \<and> k \<le> 122 then char_of (k - 32) else c)"

text \<open>\<open>strings.ToUpper\<close> of an ASCII text, and the padding of \<open>%-5s\<close>.\<close>
definition ToUpper :: "string \<Rightarrow> string" where
  "ToUpper s = map upper_char s"

definition pad_right :: "nat \<Rightarrow> string \<Rightarrow> string" where
  "pad_right n s = s @ replicate (n - length s) CHR '' ''"

text \<open>The level of a line, as \<open>%s\<close> prints it; None is a line without one (a nil interface).\<close>
definition levelToUpper :: "string option \<Rightarrow> string" where
  "levelToUpper i = (case i of None \<Rightarrow> [] | Some level \<Rightarrow> ToUpper (pad_right 5 level))"

text \<open>Where lines go: the standard error of the process, or a file.\<close>
datatype log_sink = Stderr | LogFile string

text \<open>The options of a \<open>zerolog.ConsoleWriter\<close> that the code sets; a formatter that is not set is None.\<close>
record ConsoleWriter =
  cw_Out :: log_sink
  cw_NoColor :: bool
  cw_TimeFormat :: string
  cw_FieldsOrder :: "string list"
  cw_FormatLevel :: "(string option \<Rightarrow> string) option"
  cw_FormatTimestamp :: "(string \<Rightarrow> string) option"
  cw_FormatMessage :: "(string \<Rightarrow> string) option"
  cw_FormatFieldName :: "(string \<Rightarrow> string) option"
  cw_FormatFieldValue :: "(string \<Rightarrow> string) option"

text \<open>A logger behind a diode: its writer, the size of the queue, how often it is polled, and the lowest level it passes on.\<close>
record logger =
  lg_Writer :: ConsoleWriter
  lg_BufSize :: int
  lg_Poll :: duration
  lg_Level :: logLevel

definition RFC3339 :: string where "RFC3339 = ''2006-01-02T15:04:05Z07:00''"

definition newMainLogger :: "logLevel \<Rightarrow> int \<Rightarrow> duration \<Rightarrow> logger" where
  "newMainLogger level bufSize poll = \<lparr>
     lg_Writer = \<lparr> cw_Out = Stderr, cw_NoColor = True, cw_TimeFormat = RFC3339, cw_FieldsOrder = [],
       cw_FormatLevel = Some levelToUpper, cw_FormatTimestamp = None, cw_FormatMessage = None,
       cw_FormatFieldName = None, cw_FormatFieldValue = None \<rparr>,
     lg_BufSize = bufSize, lg_Poll = poll, lg_Level = level \<rparr>"

text \<open>What \<open>%s\<close> prints of a nil interface.\<close>
definition nil_text :: string where "nil_text = ''%!s(<nil>)''"

definition newEventLogger :: "string \<Rightarrow> int \<Rightarrow> duration \<Rightarrow> logger" where
  "newEventLogger f bufSize poll = \<lparr>
     lg_Writer = \<lparr> cw_Out = LogFile f, cw_NoColor = True, cw_TimeFormat = RFC3339,
       cw_FieldsOrder = [''event'', ''duration_ms''],
       cw_FormatLevel = Some (\<lambda>i. ''level='' @ ToUpper (case i of None \<Rightarrow> nil_text | Some level \<Rightarrow> level)),
       cw_FormatTimestamp = Some (\<lambda>i. ''time='' @ i),
       cw_FormatMessage = Some (\<lambda>i. ''msg='' @ i),
       cw_FormatFieldName = Some (\<lambda>i. i @ ''=''),
       cw_FormatFieldValue = Some (\<lambda>i. i) \<rparr>,
     lg_BufSize = bufSize, lg_Poll = poll, lg_Level = InfoLevel \<rparr>"

text \<open>Levels shorter than five characters keep their columns: the text of a level is at least that long.\<close>
lemma level_width: "5 \<le> length (levelToUpper (Some level))"
  by (simp add: levelToUpper_def ToUpper_def pad_right_def)

section \<open>Profiling\<close>

definition pprof_routes :: "string list" where
  "pprof_routes = [''/pprof/'', ''/pprof/cmdline'', ''/pprof/profile'', ''/pprof/symbol'', ''/pprof/trace'', ''/pprof/heap'',
     ''/pprof/goroutine'']"

text \<open>
  \<open>listen\<close> is \<open>http.ListenAndServe\<close> for an address and the routes served there: an error when it stops. The handler is a
  goroutine of its own, and its error is the end of the process.
\<close>
definition pprofHandler :: "(history \<Rightarrow> string \<Rightarrow> string list \<Rightarrow> goerr option) \<Rightarrow> Config \<Rightarrow> unit M" where
  "pprofHandler listen C =
     (if c_PprofAddr C = [] then ret ()
      else perform (gets (\<lambda>s. listen (hist s) (c_PprofAddr C) pprof_routes)) (\<lambda>err.
        if err \<noteq> None then halt (ProcExit 1) else ret ()))"

lemma foot_pprofHandler: "c_PprofAddr C = [] \<Longrightarrow> foot A (pprofHandler listen C)"
  unfolding pprofHandler_def by (simp add: foot_intros)

end
