(* ===== verification/Through.thy ===== *)
theory Through
  imports Shard
begin

text \<open>
  Reasoning about every moment of a run, also of a run that ends in the middle: the history a
  process has made when it stops is any of the histories between that of its start and that of its end.
\<close>

section \<open>Properties of every point of a run\<close>

definition between :: "history \<Rightarrow> history \<Rightarrow> history \<Rightarrow> bool" where
  "between h0 h h1 \<longleftrightarrow> suffix h0 h \<and> suffix h h1"

text \<open>
  \<open>via I P m Q\<close>: from a state with \<open>P\<close>, every history on the way has \<open>I\<close> (also when the run
  ends in the middle), and a value comes with a state that has \<open>Q\<close>.
\<close>

definition via ::
  "(history \<Rightarrow> bool) \<Rightarrow> (st \<Rightarrow> bool) \<Rightarrow> 'a M \<Rightarrow> ('a \<Rightarrow> st \<Rightarrow> bool) \<Rightarrow> bool" where
  "via I P m Q \<longleftrightarrow> (\<forall>s r s'. P s \<longrightarrow> m s = (r, s') \<longrightarrow>
     suffix (hist s) (hist s') \<and> (\<forall>h. between (hist s) h (hist s') \<longrightarrow> I h) \<and>
     (\<forall>x. r = Ok x \<longrightarrow> Q x s'))"

lemma viaD:
  assumes "via I P m Q" and "P s" and "m s = (r, s')"
  shows "suffix (hist s) (hist s')" and "between (hist s) h (hist s') \<Longrightarrow> I h"
    and "r = Ok x \<Longrightarrow> Q x s'"
  using assms by (simp_all add: via_def)

lemma via_moment:
  "via I P m Q \<Longrightarrow> P s \<Longrightarrow> between (hist s) h (hist (snd (m s))) \<Longrightarrow> I h"
  by (rule viaD(2) [where P = P and Q = Q and m = m and s = s and r = "fst (m s)" and s' = "snd (m s)"]) simp_all

lemma viaI:
  assumes "\<And>s r s'. P s \<Longrightarrow> m s = (r, s') \<Longrightarrow> suffix (hist s) (hist s')"
    and "\<And>s r s' h. P s \<Longrightarrow> m s = (r, s') \<Longrightarrow> between (hist s) h (hist s') \<Longrightarrow> I h"
    and "\<And>s x s'. P s \<Longrightarrow> m s = (Ok x, s') \<Longrightarrow> Q x s'"
  shows "via I P m Q"
  using assms unfolding via_def by simp

lemma via_perform:
  assumes "via I P m Q'" and "\<And>x. via I (Q' x) (k x) Q"
  shows "via I P (perform m k) Q"
proof -
  have "suffix (hist s) (hist s') \<and> (\<forall>h. between (hist s) h (hist s') \<longrightarrow> I h) \<and> (\<forall>x. r = Ok x \<longrightarrow> Q x s')"
    if P: "P s" and run: "perform m k s = (r, s')" for s r s'
  proof -
    obtain r0 t where ms: "m s = (r0, t)" by (cases "m s")
    note m = viaD [OF assms(1) P ms]
    show ?thesis
    proof (cases r0)
      case (Ok x)
      with run ms have ks: "k x t = (r, s')" by (simp add: perform_def)
      note k = viaD [OF assms(2) m(3) [OF Ok] ks]
      have "I h" if "between (hist s) h (hist s')" for h
      proof -
        from that have h: "suffix (hist s) h" "suffix h (hist s')" by (simp_all add: between_def)
        show ?thesis
        proof (cases "suffix h (hist t)")
          case True
          with h(1) show ?thesis by (intro m(2)) (simp add: between_def)
        next
          case False
          with suffix_same_cases [OF h(2) k(1)] have "suffix (hist t) h" by blast
          with h(2) show ?thesis by (intro k(2)) (simp add: between_def)
        qed
      qed
      with suffix_order.order_trans [OF m(1) k(1)] k(3) show ?thesis by simp
    next
      case (Halt h)
      with run ms have "r = Halt h" "t = s'" by (simp_all add: perform_def)
      with m(1,2) show ?thesis by simp
    qed
  qed
  then show ?thesis by (intro viaI) blast+
qed

lemma via_weaken:
  assumes "via I' P' m Q'" and "\<And>s. P s \<Longrightarrow> P' s" and "\<And>x s. Q' x s \<Longrightarrow> Q x s"
    and "\<And>h. I' h \<Longrightarrow> I h"
  shows "via I P m Q"
proof (rule viaI)
  fix s r s'
  assume P: "P s" and run: "m s = (r, s')"
  note m = viaD [OF assms(1) assms(2) [OF P] run]
  show "suffix (hist s) (hist s')" by (rule m(1))
  show "I h" if "between (hist s) h (hist s')" for h using m(2) [OF that] by (rule assms(4))
next
  fix s x s'
  assume P: "P s" and run: "m s = (Ok x, s')"
  show "Q x s'" using viaD(3) [OF assms(1) assms(2) [OF P] run] assms(3) by simp
qed

lemma between_refl [simp]: "between h0 h h0 \<longleftrightarrow> h = h0"
  by (auto simp: between_def dest: suffix_order.antisym)

lemma via_ret: "(\<And>s. P s \<Longrightarrow> I (hist s)) \<Longrightarrow> (\<And>s. P s \<Longrightarrow> Q x s) \<Longrightarrow> via I P (ret x) Q"
  by (rule viaI) (auto simp: ret_def)

lemma via_halt: "(\<And>s. P s \<Longrightarrow> I (hist s)) \<Longrightarrow> via I P (halt e) Q"
  by (rule viaI) (auto simp: halt_def)

lemma via_gets: "(\<And>s. P s \<Longrightarrow> I (hist s)) \<Longrightarrow> via I P (gets f) (\<lambda>x s. P s \<and> x = f s)"
  by (rule viaI) (auto simp: gets_def)

lemma via_if:
  "(b \<Longrightarrow> via I P m Q) \<Longrightarrow> (\<not> b \<Longrightarrow> via I P m' Q) \<Longrightarrow> via I P (if b then m else m') Q"
  by simp

lemma via_checked:
  assumes "via I P m Q'" and "via I (Q' None) k Q"
    and "\<And>e s. Q' (Some e) s \<Longrightarrow> I (hist s)" and "\<And>e s. Q' (Some e) s \<Longrightarrow> Q (Some e) s"
  shows "via I P (checked m k) Q"
  unfolding checked_def
proof (rule via_perform [OF assms(1)])
  fix e
  show "via I (Q' e) (case e of None \<Rightarrow> k | Some x \<Rightarrow> ret (Some x)) Q"
    by (cases e) (simp_all add: assms(2-4) via_ret)
qed

lemma via_when: "(b \<Longrightarrow> via I P m Q) \<Longrightarrow> via I (\<lambda>s. P s \<and> b) m Q"
  by (cases b) (simp_all add: via_def)

lemma via_never: "(\<And>s. \<not> P s) \<Longrightarrow> via I P m Q"
  by (simp add: via_def)

text \<open>The same for properties of the history.\<close>

definition through ::
  "(history \<Rightarrow> bool) \<Rightarrow> (history \<Rightarrow> bool) \<Rightarrow> 'a M \<Rightarrow> ('a \<Rightarrow> history \<Rightarrow> bool) \<Rightarrow> bool" where
  "through I P m Q \<longleftrightarrow> via I (\<lambda>s. P (hist s)) m (\<lambda>x s. Q x (hist s))"

lemma throughD:
  assumes "through I P m Q" and "P (hist s)" and "m s = (r, s')"
  shows "suffix (hist s) (hist s')" and "between (hist s) h (hist s') \<Longrightarrow> I h"
    and "r = Ok x \<Longrightarrow> Q x (hist s')"
  using viaD [OF assms(1) [unfolded through_def] _ assms(3)] assms(2) by auto

lemma through_perform:
  assumes "through I P m Q'" and "\<And>x. through I (Q' x) (k x) Q"
  shows "through I P (perform m k) Q"
  using assms unfolding through_def by (rule via_perform)

lemma through_weaken:
  assumes "through I' P' m Q'" and "\<And>h. P h \<Longrightarrow> P' h" and "\<And>x h. Q' x h \<Longrightarrow> Q x h"
    and "\<And>h. I' h \<Longrightarrow> I h"
  shows "through I P m Q"
  using assms unfolding through_def by (rule via_weaken)

lemma through_ret: "(\<And>h. P h \<Longrightarrow> I h) \<Longrightarrow> (\<And>h. P h \<Longrightarrow> Q x h) \<Longrightarrow> through I P (ret x) Q"
  unfolding through_def by (rule via_ret)

lemma through_gets: "(\<And>h. P h \<Longrightarrow> I h) \<Longrightarrow> through I P (gets f) (\<lambda>x. P)"
  unfolding through_def by (rule via_weaken [OF via_gets]) auto

lemma through_if:
  "(b \<Longrightarrow> through I P m Q) \<Longrightarrow> (\<not> b \<Longrightarrow> through I P m' Q) \<Longrightarrow> through I P (if b then m else m') Q"
  by simp

lemma through_checked:
  assumes "through I P m Q'" and "through I (Q' None) k Q"
    and "\<And>e h. Q' (Some e) h \<Longrightarrow> I h \<and> Q (Some e) h"
  shows "through I P (checked m k) Q"
  using assms(1,2) unfolding through_def by (rule via_checked) (use assms(3) in auto)

lemma through_checked_or:
  assumes "through I P m (\<lambda>e. P)" and "through I P k Q" and "\<And>h. P h \<Longrightarrow> I h" and "\<And>e h. P h \<Longrightarrow> Q (Inl e) h"
  shows "through I P (checked_or m k) Q"
  unfolding checked_or_def
proof (rule through_perform [OF assms(1)])
  show "through I P (case e of None \<Rightarrow> k | Some x \<Rightarrow> ret (Inl x)) Q" for e
    by (cases e) (simp_all add: assms(2-4) through_ret)
qed

lemma through_attempt:
  assumes "through I P m Q'" and "\<And>x. through I (Q' (Inr x)) (k x) Q"
    and "\<And>e h. Q' (Inl e) h \<Longrightarrow> I h \<and> Q (Inl e) h"
  shows "through I P (attempt m k) Q"
  unfolding attempt_def
proof (rule through_perform [OF assms(1)])
  show "through I (Q' r) (case r of Inl e \<Rightarrow> ret (Inl e) | Inr x \<Rightarrow> k x) Q" for r
    by (cases r) (auto intro: assms(2) through_ret dest: assms(3))
qed

lemma through_attempt_err:
  assumes "through I P m Q'" and "\<And>x. through I (Q' (Inr x)) (k x) Q"
    and "\<And>e h. Q' (Inl e) h \<Longrightarrow> I h \<and> Q (Some e) h"
  shows "through I P (attempt_err m k) Q"
  unfolding attempt_err_def
proof (rule through_perform [OF assms(1)])
  show "through I (Q' r) (case r of Inl e \<Rightarrow> ret (Some e) | Inr x \<Rightarrow> k x) Q" for r
    by (cases r) (auto intro: assms(2) through_ret dest: assms(3))
qed

text \<open>What only does things that keep \<open>P\<close>, keeps \<open>P\<close> at every point.\<close>
lemma through_foot:
  assumes "foot A m" and "\<And>e h. quiet e \<or> p_ev A e \<Longrightarrow> P h \<Longrightarrow> P (e # h)" and "\<And>h. P h \<Longrightarrow> I h"
  shows "through I P m (\<lambda>x. P)"
proof -
  have "suffix (hist s) (hist s') \<and> (\<forall>h. between (hist s) h (hist s') \<longrightarrow> I h) \<and>
      (\<forall>x. r = Ok x \<longrightarrow> P (hist s'))"
    if P: "P (hist s)" and run: "m s = (r, s')" for s r s'
  proof -
    obtain new where new: "hist s' = new @ hist s" "\<forall>e \<in> set new. quiet e \<or> p_ev A e"
      using foot_hist [OF assms(1) run] by (auto simp: extends_by_def)
    have P': "P (u @ hist s)" if "\<forall>e \<in> set u. quiet e \<or> p_ev A e" for u
      using that by (induction u) (auto intro: assms(2) P)
    have "P h" if "between (hist s) h (hist s')" for h
    proof -
      from that obtain u v where u: "h = u @ hist s" and "new = v @ u"
        using new(1) by (auto simp: between_def suffix_def)
      with P' [of u] new(2) show ?thesis by simp
  qed
    with assms(3) P' [OF new(2)] new(1) show ?thesis by (auto simp: suffix_def)
  qed
  then show ?thesis unfolding through_def by (intro viaI) blast+
qed

text \<open>One recorded event.\<close>
lemma between_one: "between h0 h (e # h0) \<longleftrightarrow> h = h0 \<or> h = e # h0"
  by (auto simp: between_def suffix_Cons dest: suffix_order.antisym)

lemma through_do_cmd:
  assumes "\<And>h. P h \<Longrightarrow> I h" and "\<And>r h. P h \<Longrightarrow> I (EvCmd host c r # h) \<and> Q r (EvCmd host c r # h)"
  shows "through I P (do_cmd E host c) Q"
  using assms by (auto simp: through_def via_def do_cmd_def comp_defs record_event_def between_one suffix_Cons)

text \<open>One command through a node pointer.\<close>
lemma through_conn_do:
  assumes m: "ptr_to m p" and P: "\<And>e h. quiet e \<Longrightarrow> P h \<Longrightarrow> P (e # h)" and I: "\<And>h. P h \<Longrightarrow> I h"
    and cmd: "\<And>r h. P h \<Longrightarrow> I (EvCmd m c r # h) \<and> G r (EvCmd m c r # h)"
  shows "through I P (conn_do E p c) G"
proof (cases p)
  case None
  then show ?thesis
    by (auto simp: conn_do_def get_node_def deref_def through_def intro!: via_halt I)
next
  case (Some q)
  with m have q: "fst q = m" by (simp add: ptr_to_def)
  have "through I P (do_cmd E m c) G" by (rule through_do_cmd) (auto intro: I dest: cmd)
  moreover have "through I P (get_node p) (\<lambda>n. P)"
    by (rule through_foot [of nothing]) (auto simp: nothing_def intro: P I foot_intros)
  moreover have "conn_do E (Some q) c = perform (get_node (Some q)) (\<lambda>n.
      if n_conn n then do_cmd E m c else halt (Panic ''nil pointer dereference''))"
    by (simp add: conn_do_def deref_def q cong: if_cong)
  ultimately show ?thesis
    unfolding Some
    by (simp only:, intro through_perform [where Q' = "\<lambda>n. P"] through_if)
      (auto simp: through_def intro: I via_halt)
qed

lemma through_ensureConn:
  assumes "\<And>e h. quiet e \<Longrightarrow> P h \<Longrightarrow> P (e # h)" and "\<And>h. P h \<Longrightarrow> I h"
  shows "through I P (ensureConn E p) (\<lambda>e. P)"
  by (rule through_foot [of nothing]) (auto simp: nothing_def intro: assms foot_intros)

text \<open>What holds after a command when it succeeds.\<close>
lemma through_send:
  assumes m: "ptr_to m p" and P: "\<And>e h. quiet e \<Longrightarrow> P h \<Longrightarrow> P (e # h)" and I: "\<And>h. P h \<Longrightarrow> I h"
    and cmd: "\<And>r h. P h \<Longrightarrow> P (EvCmd m c r # h)"
    and D: "\<And>r h. reply_err r = None \<Longrightarrow> P h \<Longrightarrow> D (EvCmd m c r # h)"
  shows "through I P (send E p c) (\<lambda>e h. P h \<and> (e = None \<longrightarrow> D h))"
  unfolding send_def
proof (rule through_checked [OF through_ensureConn])
  have "through I P (conn_do E p c) (\<lambda>r h. P h \<and> (reply_err r = None \<longrightarrow> D h))"
    by (rule through_conn_do [OF m]) (auto intro: P I cmd D)
  then show "through I P (conn_err E p c) (\<lambda>e h. P h \<and> (e = None \<longrightarrow> D h))"
    unfolding conn_err_def by (rule through_perform) (auto intro: through_ret I)
qed (auto intro: P I)

lemma through_zk_write:
  assumes "\<And>h. P h \<Longrightarrow> I h"
    and "\<And>r h. P h \<Longrightarrow> I (EvZkWrite w r # h) \<and>
        Q (case r of None \<Rightarrow> Inr () | Some e \<Rightarrow> Inl e) (EvZkWrite w r # h)"
  shows "through I P (zk_write E w) Q"
  using assms by (auto simp: through_def via_def zk_write_def comp_defs record_event_def between_one suffix_Cons)

text \<open>A request that is repeated while it fails: \<open>P\<close> holds before every attempt.\<close>
lemma through_retry:
  assumes "through I P operation (\<lambda>(r, again) h. P h \<and> I h \<and> Q r h)"
  shows "through I P (retry E n operation) Q"
proof (induction n)
  case 0
  show ?case unfolding retry.simps
    by (rule through_perform [OF assms]) (auto intro!: through_ret)
next
  case (Suc n)
  show ?case unfolding retry.simps
  proof (rule through_perform [OF assms])
    fix x :: "(goerr + 'a) \<times> bool"
    obtain r again where x: "x = (r, again)" by (cases x)
    show "through I (case x of (r, again) \<Rightarrow> \<lambda>h. P h \<and> I h \<and> Q r h)
        (case x of (r, again) \<Rightarrow> if again then perform (gets (\<lambda>s. e_backoff E (hist s))) (\<lambda>more.
           if more then retry E n operation else ret r) else ret r) Q"
      unfolding x prod.case
      by (intro through_if through_perform [OF through_gets] through_ret through_weaken [OF Suc.IH]) auto
  qed
qed

lemma through_request:
  assumes "through I P (zk_write E w) (\<lambda>r h. P h \<and> I h \<and> Q r h)"
    and "\<And>e h. quiet e \<Longrightarrow> P h \<Longrightarrow> P (e # h)" and "\<And>h. P h \<Longrightarrow> I h"
    and "\<And>r e h. quiet e \<Longrightarrow> Q r h \<Longrightarrow> Q r (e # h)"
  shows "through I P (retryRequest E C (zk_write E w)) Q"
  unfolding retryRequest_def
proof (rule through_retry)
  have q: "through I R m (\<lambda>x. R)" if "foot nothing m" "\<And>e h. quiet e \<Longrightarrow> R h \<Longrightarrow> R (e # h)" "\<And>h. R h \<Longrightarrow> I h"
    for R and m :: "'x M"
    using that by (intro through_foot [OF that(1)]) (auto simp: nothing_def)
  have code: "through I P (andThen (handleEvents E) (zk_write E w)) (\<lambda>r h. P h \<and> I h \<and> Q r h)"
    unfolding andThen_def
    by (rule through_perform [OF q assms(1)]) (use assms(2,3) foot_handleEvents in auto)
  show "through I P (retryRequestInternal E (andThen (handleEvents E) (zk_write E w)))
      (\<lambda>(r, again) h. P h \<and> I h \<and> Q r h)"
    unfolding retryRequestInternal_def
  proof (rule through_perform [OF code])
    fix r :: "goerr + unit"
    have "through I (\<lambda>h. P h \<and> Q r h) (IsConnected E) (\<lambda>x h. P h \<and> Q r h)"
      by (rule q [OF foot_IsConnected]) (use assms in auto)
    then have "through I (\<lambda>h. P h \<and> I h \<and> Q r h) (IsConnected E) (\<lambda>x h. P h \<and> I h \<and> Q r h)"
      by (rule through_weaken) (use assms(3) in auto)
    then show "through I (\<lambda>h. P h \<and> I h \<and> Q r h) (case r of Inl e \<Rightarrow>
          if \<not> err_is e ZkConnectionClosed then ret (Inl e, False)
          else perform (IsConnected E) (\<lambda>c. ret (Inl e, c))
        | Inr x \<Rightarrow> ret (Inr x, False)) (\<lambda>(r, again) h. P h \<and> I h \<and> Q r h)"
      by (cases r) (auto intro!: through_if through_ret elim!: through_perform)
  qed
qed

section \<open>Keeping a property of the history\<close>

text \<open>\<open>keeps I m\<close>: \<open>m\<close> keeps \<open>I\<close>, also when it stops in the middle.\<close>

definition keeps :: "(history \<Rightarrow> bool) \<Rightarrow> 'a M \<Rightarrow> bool" where
  "keeps I m \<longleftrightarrow> through I I m (\<lambda>x. I)"

named_theorems keeps_intros "rules for keeping a property"

lemma keeps_hist:
  assumes "keeps I m" and "I (hist s)"
  shows "I (hist (snd (m s)))"
proof -
  have run: "m s = (fst (m s), snd (m s))" by simp
  note t = throughD [OF assms(1) [unfolded keeps_def] assms(2) run]
  show ?thesis by (rule t(2)) (simp add: between_def t(1))
qed

lemma keeps_foot:
  "foot A m \<Longrightarrow> (\<And>e h. quiet e \<or> p_ev A e \<Longrightarrow> I h \<Longrightarrow> I (e # h)) \<Longrightarrow> keeps I m"
  unfolding keeps_def by (rule through_foot)

lemma keeps_perform [keeps_intros]: "keeps I m \<Longrightarrow> (\<And>x. keeps I (k x)) \<Longrightarrow> keeps I (perform m k)"
  unfolding keeps_def by (rule through_perform)

lemma keeps_andThen [keeps_intros]: "keeps I m \<Longrightarrow> keeps I k \<Longrightarrow> keeps I (andThen m k)"
  unfolding andThen_def by (rule keeps_perform)

lemma keeps_ret [keeps_intros]: "keeps I (ret x)"
  unfolding keeps_def by (rule through_ret)

lemma keeps_if [keeps_intros]:
  "(b \<Longrightarrow> keeps I m) \<Longrightarrow> (\<not> b \<Longrightarrow> keeps I m') \<Longrightarrow> keeps I (if b then m else m')"
  by simp

lemma keeps_sum [keeps_intros]:
  "(\<And>e. keeps I (l e)) \<Longrightarrow> (\<And>x. keeps I (k x)) \<Longrightarrow> keeps I (case r of Inl e \<Rightarrow> l e | Inr x \<Rightarrow> k x)"
  by (cases r) auto

lemma keeps_option [keeps_intros]:
  "keeps I m \<Longrightarrow> (\<And>x. keeps I (k x)) \<Longrightarrow> keeps I (case p of None \<Rightarrow> m | Some x \<Rightarrow> k x)"
  by (cases p) auto

lemma keeps_prod [keeps_intros]:
  "(\<And>x y. keeps I (k x y)) \<Longrightarrow> keeps I (case p of (x, y) \<Rightarrow> k x y)"
  by (cases p) auto

lemma keeps_prod_app [keeps_intros]:
  "(\<And>x y. keeps I (k x y z)) \<Longrightarrow> keeps I ((case p of (x, y) \<Rightarrow> k x y) z)"
  by (cases p) simp

section \<open>A successful write\<close>

text \<open>The writes that store \<open>d\<close> at a key.\<close>
fun stores :: "Config \<Rightarrow> string \<Rightarrow> doc \<Rightarrow> event \<Rightarrow> bool" where
  "stores C path d (EvZkWrite (ZCreate p x eph) r) = (p = fullPath C path \<and> x = d \<and> r = None)"
| "stores C path d (EvZkWrite (ZSet p x v) r) = (p = fullPath C path \<and> x = d \<and> r = None)"
| "stores C path d e = False"

text \<open>The writes \<open>Set\<close> may try: the document at its key, and missing parents.\<close>
fun set_writes :: "Config \<Rightarrow> string \<Rightarrow> doc \<Rightarrow> zkwrite \<Rightarrow> bool" where
  "set_writes C path d (ZCreate p x eph) = (p = fullPath C path \<and> x = d \<or> x = JBytes [] \<and> \<not> eph)"
| "set_writes C path d (ZSet p x v) = (p = fullPath C path \<and> x = d)"
| "set_writes C path d (ZDelete p v) = False"

text \<open>When \<open>Set\<close> returns no error, the document has been stored.\<close>
lemma through_dcs_Set:
  assumes P: "\<And>e h. quiet e \<Longrightarrow> P h \<Longrightarrow> P (e # h)"
    and W: "\<And>w r h. set_writes C path d w \<Longrightarrow> P h \<Longrightarrow> P (EvZkWrite w r # h)"
    and I: "\<And>h. P h \<Longrightarrow> I h"
    and D: "\<And>e h. stores C path d e \<Longrightarrow> P h \<Longrightarrow> D (e # h)" "\<And>e h. quiet e \<Longrightarrow> D h \<Longrightarrow> D (e # h)"
  shows "through I P (dcs_Set E C path d) (\<lambda>r h. P h \<and> (r = None \<longrightarrow> D h))"
proof -
  let ?done = "\<lambda>r h. P h \<and> (r = None \<longrightarrow> D h)"
  have read: "through I P m (\<lambda>x. P)" if "foot nothing m" for m :: "'x M"
    using that by (rule through_foot) (auto simp: nothing_def intro: P I)
  have request: "through I P (err_of (retryRequest E C (zk_write E w))) ?done"
    if "set_writes C path d w" "stores C path d (EvZkWrite w None)" for w
    unfolding err_of_def
  proof (rule through_perform)
    show "through I P (retryRequest E C (zk_write E w)) (\<lambda>r h. P h \<and> (r = Inr () \<longrightarrow> D h))"
    proof (rule through_request)
      show "through I P (zk_write E w) (\<lambda>r h. P h \<and> I h \<and> P h \<and> (r = Inr () \<longrightarrow> D h))"
        by (rule through_zk_write) (auto intro: W I D(1) that split: option.splits)
    qed (auto intro: P I D(2))
    show "through I (\<lambda>h. P h \<and> (r = Inr () \<longrightarrow> D h)) (case r of Inl e \<Rightarrow> ret (Some e) | Inr x \<Rightarrow> ret None) ?done" for r
      by (cases r) (auto intro!: through_ret I)
  qed
  have dirs: "through I P (makePath E C q) (\<lambda>x. P)" for q
  proof (rule through_foot)
    let ?A = "\<lparr>p_ev = (\<lambda>e. \<exists>p r. e = EvZkWrite (ZCreate p (JBytes []) False) r), p_crit = False, p_spin = False, p_link = True, p_hosts = (\<lambda>h. True)\<rparr>"
    show "foot ?A (makePath E C q)"
      unfolding makePath_def create_missing_def by (rule foot_intros | simp)+
  qed (auto intro: P W I)
  have fail: "through I P (ret (Some e)) ?done" for e by (rule through_ret) (auto intro: I)
  show ?thesis
    unfolding dcs_Set_def dcs_set_def Let_def
  proof (rule through_perform [OF read])
    fix r
    show "through I P (case r of Inl e \<Rightarrow>
          if err_is e ZkNoNode
          then checked (makePath E C (str_join [sep] (butlast (str_split sep (fullPath C path)))))
                 (err_of (retryCreate E C (fullPath C path) d False))
          else ret (Some e)
        | Inr (data, ver, owned) \<Rightarrow>
            if False \<and> \<not> owned
            then ret (Some (Errorf (''node '' @ path @ '' exists, but not ephemeral, can't make it ephemeral'')))
            else err_of (retrySet E C (fullPath C path) d ver)) ?done"
      by (auto simp: retryCreate_def retrySet_def split: sum.split prod.split
          intro!: through_if fail request through_checked [OF dirs] I)
  qed (simp add: retryGet_def, intro foot_intros)
qed

end
