(* ===== verification/Dialers.thy ===== *)
theory Dialers
  imports Through Sample
begin

text \<open>
  How a process that is configured for TLS connects to ZooKeeper (internal/dcs/zk.go, zk_tls.go).
\<close>

text \<open>The configuration that \<open>CreateTLSConfig\<close> makes of a CA file it could read.\<close>
definition zk_tls :: "env \<Rightarrow> string \<Rightarrow> string \<Rightarrow> tls_config option" where
  "zk_tls E pem cert =
     (if e_pem E pem then Some \<lparr> tl_ServerName = [], tl_RootCAs = Some [pem], tl_Certificates = [cert] \<rparr> else None)"

text \<open>Since the history \<open>h0\<close>, every connection was tried with that configuration.\<close>
definition pinned :: "env \<Rightarrow> string \<Rightarrow> history \<Rightarrow> history \<Rightarrow> bool" where
  "pinned E pem h0 h \<longleftrightarrow> (\<exists>new. h = new @ h0 \<and>
     (\<forall>d r. EvZkConnect d r \<in> set new \<longrightarrow> (\<exists>cert. d = TLSDialer (zk_tls E pem cert))))"

lemma pinned_refl [simp]: "pinned E pem h h"
  by (simp add: pinned_def)

lemma pinned_step:
  "pinned E pem h0 h \<Longrightarrow> (\<And>d r. e = EvZkConnect d r \<Longrightarrow> \<exists>cert. d = TLSDialer (zk_tls E pem cert)) \<Longrightarrow>
   pinned E pem h0 (e # h)"
  unfolding pinned_def by (metis append_Cons set_ConsD)

lemma through_load_key_pair:
  "through (pinned E pem h0) (pinned E pem h0) (load_key_pair E c k) (\<lambda>r. pinned E pem h0)"
  by (auto simp: through_def via_def load_key_pair_def comp_defs record_event_def between_def suffix_Cons
      dest: suffix_order.antisym intro!: pinned_step)

lemma through_CreateTLSConfig:
  assumes "e_readfile E h0 ca = Inr pem"
  shows "through (pinned E pem h0) (\<lambda>h. h = h0) (CreateTLSConfig E ca c k)
    (\<lambda>r h. pinned E pem h0 h \<and> (\<forall>t. r = Inr t \<longrightarrow> (\<exists>cert. t = zk_tls E pem cert)))"
  unfolding CreateTLSConfig_def
proof (rule through_attempt)
  show "through (pinned E pem h0) (\<lambda>h. h = h0) (read_file E ca) (\<lambda>r h. r = Inr pem \<and> pinned E pem h0 h)"
    by (auto simp: through_def via_def read_file_def comp_defs record_event_def between_one suffix_Cons assms intro!: pinned_step)
  fix pem' :: string
  let ?G = "\<lambda>r h. pinned E pem h0 h \<and> (\<forall>t. r = Inr t \<longrightarrow> (\<exists>cert. t = zk_tls E pem cert))"
  have "through (pinned E pem h0) (pinned E pem h0) (if \<not> e_pem E pem then ret (Inr None)
      else attempt (load_key_pair E c k) (\<lambda>cert.
        ret (Inr (Some \<lparr> tl_ServerName = [], tl_RootCAs = Some [pem], tl_Certificates = [cert] \<rparr>)))) ?G"
    by (auto simp: zk_tls_def intro!: through_if through_ret through_attempt [OF through_load_key_pair])
  then show "through (pinned E pem h0) (\<lambda>h. Inr pem' = Inr pem \<and> pinned E pem h0 h) (if \<not> e_pem E pem' then ret (Inr None)
      else attempt (load_key_pair E c k) (\<lambda>cert.
        ret (Inr (Some \<lparr> tl_ServerName = [], tl_RootCAs = Some [pem'], tl_Certificates = [cert] \<rparr>)))) ?G"
    by (cases "pem' = pem") (simp_all only: through_def via_never simp_thms sum.inject)
qed simp_all

lemma through_connect:
  assumes "\<exists>cert. d = TLSDialer (zk_tls E pem cert)"
  shows "through (pinned E pem h0) (pinned E pem h0) (retry E n (connect_once E d)) (\<lambda>r. pinned E pem h0)"
proof (rule through_retry)
  have "through (pinned E pem h0) (pinned E pem h0) (zk_connect E d) (\<lambda>r. pinned E pem h0)"
    using assms by (auto simp: through_def via_def zk_connect_def comp_defs record_event_def between_one suffix_Cons
        intro!: pinned_step)
  then show "through (pinned E pem h0) (pinned E pem h0) (connect_once E d)
      (\<lambda>(r, again) h. pinned E pem h0 h \<and> pinned E pem h0 h \<and> pinned E pem h0 h)"
    unfolding connect_once_def by (rule through_perform) (auto intro!: through_ret split: option.split)
qed

lemma through_NewZookeeper:
  assumes "zc_UseSSL (c_Zookeeper C)" and "e_readfile E h0 (zc_CACert (c_Zookeeper C)) = Inr pem"
  shows "through (pinned E pem h0) (\<lambda>h. h = h0) (NewZookeeper E C) (\<lambda>r. pinned E pem h0)"
proof -
  let ?Z = "c_Zookeeper C" and ?P = "pinned E pem h0"
  have dialer: "through ?P (\<lambda>h. h = h0) (attempt (CreateTLSConfig E (zc_CACert ?Z) (zc_CertFile ?Z) (zc_KeyFile ?Z))
      (\<lambda>t. ret (Inr (GetTLSDialer t)))) (\<lambda>r h. ?P h \<and> (\<forall>d. r = Inr d \<longrightarrow> (\<exists>cert. d = TLSDialer (zk_tls E pem cert))))"
    by (auto simp: GetTLSDialer_def intro!: through_attempt [OF through_CreateTLSConfig [OF assms(2)]] through_ret)
  have auth: "through ?P ?P (if b then ret (Inr z) else if b' then ret (Inl e) else perform (gets f)
      (\<lambda>a. case a of Some e \<Rightarrow> ret (Inl e) | None \<Rightarrow> ret (Inr z))) (\<lambda>r. ?P)" for b b' z e f
    by (intro through_if through_ret through_perform [OF through_gets]) (auto split: option.split intro!: through_ret)
  have connect: "through ?P (\<lambda>h. ?P h \<and> (\<forall>d'. Inr d = Inr d' \<longrightarrow> (\<exists>cert. d' = TLSDialer (zk_tls E pem cert))))
      (attempt (retry E n (connect_once E d)) k) (\<lambda>r. ?P)" if "\<And>u. through ?P ?P (k u) (\<lambda>r. ?P)"
    for d n and k :: "unit \<Rightarrow> (goerr + zk_state) M"
  proof (cases "\<exists>cert. d = TLSDialer (zk_tls E pem cert)")
    case True
    then show ?thesis by (intro through_weaken [OF through_attempt [OF through_connect that]]) auto
  qed (simp add: through_def via_never)
  show ?thesis
    unfolding NewZookeeper_def Let_def using assms(1)
    by (intro through_if through_ret) (simp_all add: through_attempt [OF dialer connect] auth)
qed


definition ssl_config :: Config where
  "ssl_config = sample_config\<lparr>c_Zookeeper := sample_zookeeper\<lparr>zc_UseSSL := True, zc_CACert := ''ca.pem'',
     zc_CertFile := ''cert.pem'', zc_KeyFile := ''key.pem''\<rparr>\<rparr>"

text \<open>The file is not in PEM: the connection is made all the same.\<close>
definition no_pem_env :: env where
  "no_pem_env = sample_env\<lparr>e_pem := (\<lambda>t. False)\<rparr>"

lemma no_pem_run:
  "hist (snd (NewZookeeper no_pem_env ssl_config sample_state)) =
     [EvZkConnect (TLSDialer None) None, EvReadFile ''ca.pem''] @ hist sample_state"
  by (simp add: NewZookeeper_def CreateTLSConfig_def GetTLSDialer_def connect_once_def read_file_def zk_connect_def
      record_event_def comp_defs no_pem_env_def ssl_config_def sample_env_def sample_config_def sample_zookeeper_def
      HasPrefix_def second_def sep_def sample_state_def eval_nat_numeral)


end
