(* ===== verification/HostProvider.thy ===== *)
theory HostProvider
  imports Zk
begin

text \<open>
  The choice of a ZooKeeper server: internal/dcs/zk_host_provider.go. The provider has a state of
  its own, which its operations take and return. The functions of the net package that split and
  join addresses are written out.
\<close>

section \<open>Addresses\<close>

text \<open>The position of the last occurrence of a character.\<close>
fun last_index :: "char \<Rightarrow> string \<Rightarrow> nat option" where
  "last_index c [] = None"
| "last_index c (x # xs) = (case last_index c xs of
     Some i \<Rightarrow> Some (Suc i) | None \<Rightarrow> if x = c then Some 0 else None)"

text \<open>\<open>net.SplitHostPort\<close>: None is its error.\<close>
definition SplitHostPort :: "string \<Rightarrow> (string \<times> string) option" where
  "SplitHostPort hp = (case last_index CHR '':'' hp of
     None \<Rightarrow> None
   | Some i \<Rightarrow>
       if hd hp = CHR ''['' then
         (case str_index hp '']'' of
            None \<Rightarrow> None
          | Some end_pos \<Rightarrow>
              if Suc end_pos \<noteq> i then None
              else if CHR ''['' \<in> set (drop 1 hp) \<or> CHR '']'' \<in> set (drop (Suc end_pos) hp) then None
              else Some (drop 1 (take end_pos hp), drop (Suc i) hp))
       else if CHR '':'' \<in> set (take i hp) then None
       else if CHR ''['' \<in> set hp \<or> CHR '']'' \<in> set hp then None
       else Some (take i hp, drop (Suc i) hp))"

section \<open>The provider\<close>

record zkhost =
  zh_lastLookup :: time
  zh_resolved :: "string list"

record host_provider =
  hp_hosts :: "string \<rightharpoonup> zkhost"
  hp_hostsKeys :: "string list"
  hp_tried :: "string list"
  hp_useAddrs :: bool
  hp_isRetry :: bool

definition NewRandomHostProvider :: "bool \<Rightarrow> host_provider" where
  "NewRandomHostProvider useAddrs = \<lparr> hp_hosts = Map.empty, hp_hostsKeys = [], hp_tried = [],
     hp_useAddrs = useAddrs, hp_isRetry = False \<rparr>"

definition resolveHost :: "env \<Rightarrow> string \<Rightarrow> (goerr + string list) M" where
  "resolveHost E pair = (case SplitHostPort pair of
     None \<Rightarrow> ret (Inl (Raw ''invalid address''))
   | Some (host, port) \<Rightarrow> perform (lookup_ip E host) (\<lambda>r. case r of
       Inl e \<Rightarrow> ret (Inr [])
     | Inr addrs \<Rightarrow> ret (Inr (map (\<lambda>addr. JoinHostPort addr port) addrs))))"

definition store_host :: "string \<Rightarrow> time \<Rightarrow> string list \<Rightarrow> host_provider \<Rightarrow> host_provider" where
  "store_host host t resolved p = p\<lparr>hp_hosts := (hp_hosts p)(host \<mapsto>
     \<lparr> zh_lastLookup = t, zh_resolved = resolved \<rparr>)\<rparr>"

text \<open>One server of the loop of \<open>Init\<close>.\<close>
definition init_host ::
  "env \<Rightarrow> string \<Rightarrow> string list \<times> host_provider \<Rightarrow> (string list \<times> host_provider) M" where
  "init_host E host acc = (let (resolved_all, p) = acc in
     perform (resolveHost E host) (\<lambda>r. case r of
       Inl e \<Rightarrow> ret acc
     | Inr resolved \<Rightarrow> perform (now E) (\<lambda>t.
         let p' = store_host host t resolved p in
         ret (resolved_all @ resolved, p'\<lparr>hp_hostsKeys := hp_hostsKeys p' @ [host]\<rparr>))))"

text \<open>The first server that accepts a connection ends the check.\<close>
primrec try_servers :: "env \<Rightarrow> string list \<Rightarrow> goerr option M" where
  "try_servers E [] = ret (Some (Errorf
     ''failed to connect to any zk server: all attempts timed out or refused''))"
| "try_servers E (server # rest) = perform (tcp_check E server) (\<lambda>e.
     if e = None then ret None else try_servers E rest)"

definition checkZKConnectivity :: "env \<Rightarrow> string list \<Rightarrow> goerr option M" where
  "checkZKConnectivity E servers =
     (if servers = [] then ret (Some (Errorf ''no servers available for connectivity check''))
      else try_servers E servers)"

text \<open>\<open>Init\<close>; the goroutine it starts is \<open>resolveHosts_tick\<close>.\<close>
definition Init_provider ::
  "env \<Rightarrow> string list \<Rightarrow> host_provider \<Rightarrow> (goerr option \<times> host_provider) M" where
  "Init_provider E servers p0 =
     perform (foldM (init_host E) servers ([], p0)) (\<lambda>(allResolvedServers, p).
     if length allResolvedServers = 0 then ret (Some (Errorf (''unable to resolve any host from '' @ list_text servers)), p)
     else perform (checkZKConnectivity E allResolvedServers) (\<lambda>e. ret (e, p)))"

text \<open>One host of a tick of \<open>resolveHosts\<close>: a result that is empty or an error changes nothing.\<close>
definition refresh_host :: "env \<Rightarrow> Config \<Rightarrow> string \<Rightarrow> host_provider \<Rightarrow> host_provider M" where
  "refresh_host E C pair p = perform (deref (hp_hosts p pair)) (\<lambda>zhost.
     perform (if zh_resolved zhost = [] then ret True
              else perform (time_since E (zh_lastLookup zhost)) (\<lambda>age.
                ret (age > rc_LookupTTL (zc_RandomHostProvider (c_Zookeeper C))))) (\<lambda>due.
     if \<not> due then ret p
     else perform (resolveHost E pair) (\<lambda>r. case r of
       Inl e \<Rightarrow> ret p
     | Inr resolved \<Rightarrow> if resolved = [] then ret p
         else perform (now E) (\<lambda>t. ret (store_host pair t resolved p)))))"

definition resolveHosts_tick :: "env \<Rightarrow> Config \<Rightarrow> host_provider \<Rightarrow> host_provider M" where
  "resolveHosts_tick E C p = foldM (refresh_host E C) (hp_hostsKeys p) p"

definition Len :: "host_provider \<Rightarrow> nat" where
  "Len p = length (hp_hostsKeys p)"

definition not_tried :: "host_provider \<Rightarrow> string list" where
  "not_tried p = filter (\<lambda>host. host \<notin> set (hp_tried p)) (hp_hostsKeys p)"

text \<open>
  One round of the loop of \<open>Next\<close>. Its state is the provider and \<open>needRetry\<close>; it ends with the
  server. When every host has been tried the record of tried hosts is emptied first.
\<close>
definition next_round ::
  "env \<Rightarrow> host_provider \<times> bool \<Rightarrow> ((host_provider \<times> bool) + (string \<times> host_provider \<times> bool)) M" where
  "next_round E x = (let (p, needRetry) = x; notTried = not_tried p;
         needRetry' = (needRetry \<or> notTried = []);
         pool = (if notTried = [] then hp_hostsKeys p else notTried);
         tried = (if notTried = [] then [] else hp_tried p) in
     perform (rand_intn E (length pool)) (\<lambda>k.
     let selected = pool ! k; p' = p\<lparr>hp_tried := selected # tried\<rparr> in
     perform (deref (hp_hosts p' selected)) (\<lambda>zhost.
     if zh_resolved zhost \<noteq> []
     then if hp_useAddrs p'
          then perform (rand_intn E (length (zh_resolved zhost))) (\<lambda>j.
                 let server = zh_resolved zhost ! j in
                 ret (if server \<noteq> [] then Inr (server, p', needRetry') else Inl (p', needRetry')))
          else ret (if selected \<noteq> [] then Inr (selected, p', needRetry') else Inl (p', needRetry'))
     else ret (Inl (p', needRetry')))))"

text \<open>The pause before a retry: a random part of the configured jitter.\<close>
definition retry_jitter :: "env \<Rightarrow> Config \<Rightarrow> unit M" where
  "retry_jitter E C = (let jitter = rc_RetryJitter (zc_RandomHostProvider (c_Zookeeper C)) in
     if jitter \<le> 0 then sleep 0
     else perform (rand_intn E (nat jitter)) (\<lambda>v. sleep (int v)))"

definition Next :: "env \<Rightarrow> Config \<Rightarrow> host_provider \<Rightarrow> (string \<times> bool \<times> host_provider) M" where
  "Next E C p = andThen (if hp_isRetry p then retry_jitter E C else ret ())
     (perform (iterate (e_fuel E) (next_round E) (p\<lparr>hp_isRetry := False\<rparr>, False))
       (\<lambda>(server, p', needRetry). ret (server, needRetry,
          if needRetry then p'\<lparr>hp_isRetry := True\<rparr> else p')))"

definition Connected :: "host_provider \<Rightarrow> host_provider" where
  "Connected p = p\<lparr>hp_tried := []\<rparr>"

end
