(* ===== verification/Hosts.thy ===== *)
theory Hosts
  imports HostProvider Sample
begin

text \<open>
  Laws of the choice of a ZooKeeper server: addresses split into what they were joined from, the provider's
  invariant, and \<open>Next\<close>, which always comes back with a server that has been resolved.
\<close>

section \<open>Addresses\<close>

lemma last_index_app: "c \<notin> set ys \<Longrightarrow> last_index c (xs @ c # ys) = Some (length xs)"
proof -
  assume "c \<notin> set ys"
  then have "last_index c ys = None" by (induction ys) auto
  then show ?thesis by (induction xs) auto
qed

text \<open>A part of an address: no bracket; a port has no colon.\<close>
definition address_part :: "string \<Rightarrow> bool" where
  "address_part t \<longleftrightarrow> list_all (\<lambda>c. c \<noteq> CHR ''['' \<and> c \<noteq> CHR '']'') t"

lemma address_part_set: "address_part t \<longleftrightarrow> CHR ''['' \<notin> set t \<and> CHR '']'' \<notin> set t"
  unfolding address_part_def list_all_iff by blast

lemma split_join_address:
  assumes "address_part host" and "address_part port" and "CHR '':'' \<notin> set port"
  shows "SplitHostPort (JoinHostPort host port) = Some (host, port)"
proof (cases "CHR '':'' \<in> set host")
  case True
  let ?hp = "CHR ''['' # host @ CHR '']'' # CHR '':'' # port"
  have "last_index CHR '':'' ((CHR ''['' # host @ '']'') @ CHR '':'' # port) = Some (length (CHR ''['' # host @ '']''))"
    by (rule last_index_app [OF assms(3)])
  then have i: "last_index CHR '':'' ?hp = Some (length host + 2)" by simp
  have "str_index (host @ CHR '']'' # rest) '']'' = Some (length host)" if "CHR '']'' \<notin> set host" for rest
    using that by (induction host) (auto simp: HasPrefix_def)
  then have e: "str_index ?hp '']'' = Some (length host + 1)" using assms(1) by (simp add: address_part_set HasPrefix_def)
  have brackets: "CHR ''['' \<notin> set (drop 1 ?hp)" "CHR '']'' \<notin> set (drop (Suc (length host + 1)) ?hp)"
    using assms(1,2) by (simp_all add: address_part_set)
  have "SplitHostPort ?hp = Some (host, port)"
    using brackets unfolding SplitHostPort_def i e by simp
  with True show ?thesis by (simp add: JoinHostPort_def)
next
  case False
  have "last_index CHR '':'' (host @ CHR '':'' # port) = Some (length host)"
    by (rule last_index_app [OF assms(3)])
  then show ?thesis
    using assms False by (cases host) (auto simp: JoinHostPort_def SplitHostPort_def address_part_set)
qed

text \<open>
  The addresses of a server keep its port: a configured address, of a host name, an IPv4 or a (bracketed) IPv6
  address, is looked up by its host, and each resulting address splits into a found address and the configured port.
\<close>
theorem resolveHost_keeps_port:
  assumes "address_part host" and "address_part port" and "CHR '':'' \<notin> set port"
    and "e_lookup E (hist s) host = Inr addrs" and "list_all address_part addrs"
  shows "\<exists>rs. resolveHost E (JoinHostPort host port) s = (Ok (Inr rs), s\<lparr>hist := EvLookup host # hist s\<rparr>) \<and>
    map SplitHostPort rs = map (\<lambda>a. Some (a, port)) addrs"
proof -
  have "SplitHostPort (JoinHostPort a port) = Some (a, port)" if "a \<in> set addrs" for a
    using that assms(2,3,5) by (intro split_join_address) (auto simp: list_all_iff)
  moreover have "resolveHost E (JoinHostPort host port) s =
      (Ok (Inr (map (\<lambda>a. JoinHostPort a port) addrs)), s\<lparr>hist := EvLookup host # hist s\<rparr>)"
    using assms(4) by (simp add: resolveHost_def split_join_address [OF assms(1-3)] lookup_ip_def record_event_def comp_defs)
  ultimately show ?thesis by simp
qed

theorem resolveHost_keeps_port_witness:
  "\<exists>rs. fst (resolveHost (sample_env\<lparr>e_lookup := (\<lambda>h a. Inr [''10.0.0.1'', ''::1''])\<rparr>) ''zk1:2181'' sample_state) = Ok (Inr rs) \<and>
     map SplitHostPort rs = [Some (''10.0.0.1'', ''2181''), Some (''::1'', ''2181'')]"
proof -
  have parts: "address_part ''zk1''" "address_part ''2181''" "CHR '':'' \<notin> set ''2181''" "list_all address_part [''10.0.0.1'', ''::1'']"
    and join: "JoinHostPort ''zk1'' ''2181'' = ''zk1:2181''"
    by code_simp+
  from resolveHost_keeps_port [OF parts(1-3) _ parts(4), of "sample_env\<lparr>e_lookup := (\<lambda>h a. Inr [''10.0.0.1'', ''::1''])\<rparr>" sample_state]
  show ?thesis unfolding join by auto
qed

section \<open>The provider's invariant\<close>

text \<open>Every key has an entry, no key twice, no empty name or address, and only known hosts have been tried.\<close>
definition provider_ok :: "host_provider \<Rightarrow> bool" where
  "provider_ok p \<longleftrightarrow> distinct (hp_hostsKeys p) \<and> set (hp_tried p) \<subseteq> set (hp_hostsKeys p) \<and>
     list_all (\<lambda>h. h \<noteq> [] \<and> (\<exists>z. hp_hosts p h = Some z \<and> [] \<notin> set (zh_resolved z))) (hp_hostsKeys p)"

definition has_addresses :: "host_provider \<Rightarrow> string \<Rightarrow> bool" where
  "has_addresses p h \<longleftrightarrow> (case hp_hosts p h of None \<Rightarrow> False | Some z \<Rightarrow> zh_resolved z \<noteq> [])"

text \<open>What \<open>Next\<close> may return.\<close>
definition servers_of :: "host_provider \<Rightarrow> string set" where
  "servers_of p = (if hp_useAddrs p
     then (\<Union>h \<in> set (hp_hostsKeys p). case hp_hosts p h of None \<Rightarrow> {} | Some z \<Rightarrow> set (zh_resolved z))
     else {h \<in> set (hp_hostsKeys p). has_addresses p h})"

lemma provider_okD:
  assumes "provider_ok p" and "h \<in> set (hp_hostsKeys p)"
  obtains z where "hp_hosts p h = Some z" and "[] \<notin> set (zh_resolved z)" and "h \<noteq> []"
  using assms by (auto simp: provider_ok_def list_all_iff)

section \<open>Next\<close>

lemma rand_run: "0 < n \<Longrightarrow> \<exists>k < n. rand_intn E n s = (Ok k, s\<lparr>hist := EvRand k # hist s\<rparr>)"
  by (auto simp: rand_intn_def record_event_def comp_defs)

text \<open>The hosts a round chooses from, and the record after it.\<close>
definition pool_of :: "host_provider \<Rightarrow> string list" where
  "pool_of p = (if not_tried p = [] then hp_hostsKeys p else not_tried p)"

definition tried_with :: "string \<Rightarrow> host_provider \<Rightarrow> host_provider" where
  "tried_with h p = p\<lparr>hp_tried := h # (if not_tried p = [] then [] else hp_tried p)\<rparr>"

definition pick_server :: "env \<Rightarrow> string \<Rightarrow> host_provider \<Rightarrow> bool \<Rightarrow>
    ((host_provider \<times> bool) + (string \<times> host_provider \<times> bool)) M" where
  "pick_server E h p again = perform (deref (hp_hosts p h)) (\<lambda>zhost.
     if zh_resolved zhost = [] then ret (Inl (p, again))
     else perform (if hp_useAddrs p then perform (rand_intn E (length (zh_resolved zhost))) (\<lambda>j. ret (zh_resolved zhost ! j))
                   else ret h) (\<lambda>server. ret (if server \<noteq> [] then Inr (server, p, again) else Inl (p, again))))"

lemma next_round_pick:
  "next_round E (p, again) = perform (rand_intn E (length (pool_of p))) (\<lambda>k.
     pick_server E (pool_of p ! k) (tried_with (pool_of p ! k) p) (again \<or> not_tried p = []))"
proof -
  let ?pool = "if not_tried p = [] then hp_hostsKeys p else not_tried p"
  let ?tried = "if not_tried p = [] then [] else hp_tried p"
  have "next_round E (p, again) = perform (rand_intn E (length ?pool)) (\<lambda>k.
      pick_server E (?pool ! k) (p\<lparr>hp_tried := ?pool ! k # ?tried\<rparr>) (again \<or> not_tried p = []))"
    unfolding next_round_def Let_def prod.case pick_server_def
    by (intro arg_cong [of _ _ "perform _"] ext) (simp add: perform_assoc)
  then show ?thesis unfolding pool_of_def tried_with_def .
qed

lemma pick_server_run:
  assumes "provider_ok p" and "h \<in> set (hp_hostsKeys p)"
  shows "if has_addresses p h
    then \<exists>server s'. pick_server E h (tried_with h p) again s = (Ok (Inr (server, tried_with h p, again)), s') \<and> server \<in> servers_of p
    else pick_server E h (tried_with h p) again s = (Ok (Inl (tried_with h p, again)), s)"
proof -
  obtain z where z: "hp_hosts p h = Some z" "[] \<notin> set (zh_resolved z)" "h \<noteq> []"
    using provider_okD [OF assms] .
  show ?thesis
  proof (cases "zh_resolved z = [] \<or> \<not> hp_useAddrs p")
    case True
    then show ?thesis using z assms(2)
      by (auto simp: pick_server_def has_addresses_def tried_with_def servers_of_def deref_def perform_def ret_def)
  next
    case False
    then obtain k where k: "k < length (zh_resolved z)"
      "rand_intn E (length (zh_resolved z)) s = (Ok k, s\<lparr>hist := EvRand k # hist s\<rparr>)"
      using rand_run [of "length (zh_resolved z)" E s] by auto
    then have "zh_resolved z ! k \<in> set (zh_resolved z)" by simp
    moreover from this z(2) have "zh_resolved z ! k \<noteq> []" by metis
    ultimately show ?thesis using False k z assms(2)
      by (auto simp: pick_server_def has_addresses_def tried_with_def servers_of_def deref_def perform_def ret_def intro!: bexI [of _ h])
  qed
qed

text \<open>A round chooses a host of the pool; it ends the loop with one of its servers, or it had none.\<close>
lemma next_round_run:
  assumes "provider_ok p" and "hp_hostsKeys p \<noteq> []"
  shows "\<exists>h s'. h \<in> set (pool_of p) \<and> (if has_addresses p h
    then \<exists>server. next_round E (p, again) s = (Ok (Inr (server, tried_with h p, again \<or> not_tried p = [])), s') \<and>
      server \<in> servers_of p
    else next_round E (p, again) s = (Ok (Inl (tried_with h p, again \<or> not_tried p = [])), s'))"
proof -
  have pool: "pool_of p \<noteq> []" "set (pool_of p) \<subseteq> set (hp_hostsKeys p)"
    using assms(2) by (auto simp: pool_of_def not_tried_def)
  obtain k where k: "k < length (pool_of p)"
    "rand_intn E (length (pool_of p)) s = (Ok k, s\<lparr>hist := EvRand k # hist s\<rparr>)"
    using rand_run [of "length (pool_of p)" E s] pool(1) by auto
  then have h: "pool_of p ! k \<in> set (pool_of p)" by simp
  with pool(2) have "pool_of p ! k \<in> set (hp_hostsKeys p)" by blast
  from pick_server_run [OF assms(1) this, of E "again \<or> not_tried p = []" "s\<lparr>hist := EvRand k # hist s\<rparr>"] h k(2)
  show ?thesis unfolding next_round_pick
    by (intro exI [of _ "pool_of p ! k"]) (auto simp: perform_def split: if_splits)
qed

section \<open>Next ends\<close>

lemma tried_with_ok:
  assumes "provider_ok p" and "h \<in> set (hp_hostsKeys p)"
  shows "provider_ok (tried_with h p)" and "hp_hostsKeys (tried_with h p) = hp_hostsKeys p"
    and "has_addresses (tried_with h p) = has_addresses p" and "servers_of (tried_with h p) = servers_of p"
  using assms by (auto simp: provider_ok_def tried_with_def has_addresses_def fun_eq_iff servers_of_def)

lemma not_tried_with:
  assumes "provider_ok p" and "h \<in> set (pool_of p)"
  shows "not_tried (tried_with h p) = remove1 h (pool_of p)"
proof -
  have "distinct (pool_of p)" using assms(1) by (simp add: pool_of_def not_tried_def provider_ok_def)
  moreover have "not_tried (tried_with h p) = filter (\<lambda>x. x \<noteq> h) (pool_of p)"
    by (auto simp: not_tried_def tried_with_def pool_of_def intro: filter_cong)
  ultimately show ?thesis by (simp add: distinct_remove1_removeAll removeAll_filter_not_eq) (metis)
qed

text \<open>While a host with an address has not been tried, the loop ends without a new start.\<close>
lemma next_untried:
  assumes "provider_ok p" and "g \<in> set (not_tried p)" and "has_addresses p g" and "length (not_tried p) \<le> n"
  shows "\<exists>server p' s'. iterate n (next_round E) (p, again) s = (Ok (server, p', again), s') \<and>
    server \<in> servers_of p \<and> provider_ok p' \<and> hp_isRetry p' = hp_isRetry p"
  using assms
proof (induction n arbitrary: p s)
  case (Suc n)
  have ne: "not_tried p \<noteq> []" using Suc.prems(2) by auto
  then have pool: "not_tried p \<noteq> []" "pool_of p = not_tried p" by (simp_all add: pool_of_def)
  have keys: "set (not_tried p) \<subseteq> set (hp_hostsKeys p)" by (auto simp: not_tried_def)
  obtain h t where h: "h \<in> set (not_tried p)" and run: "if has_addresses p h
      then \<exists>server. next_round E (p, again) s = (Ok (Inr (server, tried_with h p, again)), t) \<and> server \<in> servers_of p
      else next_round E (p, again) s = (Ok (Inl (tried_with h p, again)), t)"
    using next_round_run [OF Suc.prems(1), of E again s] pool keys by fastforce
  note q = tried_with_ok [OF Suc.prems(1), of h] not_tried_with [OF Suc.prems(1), of h]
  have h': "h \<in> set (hp_hostsKeys p)" "h \<in> set (pool_of p)" using h pool keys by auto
  show ?case
  proof (cases "has_addresses p h")
    case True
    with run q(1) [OF h'(1)] show ?thesis by (auto simp: perform_def ret_def tried_with_def)
  next
    case False
    have "g \<in> set (not_tried (tried_with h p))"
      using Suc.prems(2,3) False q(5) [OF h'(2)] pool(2) by (cases "g = h") (auto simp: in_set_remove1)
    moreover have "length (not_tried (tried_with h p)) \<le> n"
      using Suc.prems(4) q(5) [OF h'(2)] pool h by (simp add: length_remove1)
    moreover have "has_addresses (tried_with h p) g" using Suc.prems(3) q(3) [OF h'(1)] by simp
    ultimately obtain server p' s' where "iterate n (next_round E) (tried_with h p, again) t = (Ok (server, p', again), s')"
        "server \<in> servers_of (tried_with h p)" "provider_ok p'" "hp_isRetry p' = hp_isRetry (tried_with h p)"
      using Suc.IH [OF q(1) [OF h'(1)]] by blast
    with run False q(4) [OF h'(1)] show ?thesis by (auto simp: perform_def tried_with_def)
  qed
qed simp

text \<open>Otherwise the hosts that are left are tried in vain, and then it starts anew.\<close>
lemma next_ends:
  assumes "provider_ok p" and "g \<in> set (hp_hostsKeys p)" and "has_addresses p g"
    and "length (not_tried p) + length (hp_hostsKeys p) \<le> n"
  shows "\<exists>server p' a s'. iterate n (next_round E) (p, again) s = (Ok (server, p', a), s') \<and>
    server \<in> servers_of p \<and> provider_ok p' \<and> hp_isRetry p' = hp_isRetry p"
  using assms
proof (induction n arbitrary: p again s)
  case (Suc n)
  have keys: "hp_hostsKeys p \<noteq> []" "set (pool_of p) \<subseteq> set (hp_hostsKeys p)"
    using Suc.prems(2) by (auto simp: pool_of_def not_tried_def)
  let ?a = "again \<or> not_tried p = []"
  obtain h t where h: "h \<in> set (pool_of p)" and run: "if has_addresses p h
      then \<exists>server. next_round E (p, again) s = (Ok (Inr (server, tried_with h p, ?a)), t) \<and> server \<in> servers_of p
      else next_round E (p, again) s = (Ok (Inl (tried_with h p, ?a)), t)"
    using next_round_run [OF Suc.prems(1) keys(1), of E again s] by blast
  with keys(2) have h': "h \<in> set (hp_hostsKeys p)" by blast
  note q = tried_with_ok [OF Suc.prems(1) h'] not_tried_with [OF Suc.prems(1) h]
  show ?case
  proof (cases "has_addresses p h")
    case True
    with run q(1) show ?thesis by (auto simp: perform_def ret_def tried_with_def)
  next
    case False
    have step: "iterate (Suc n) (next_round E) (p, again) s = iterate n (next_round E) (tried_with h p, ?a) t"
      using run False by (simp add: perform_def)
    show ?thesis
    proof (cases "not_tried p = []")
      case True
      then have pool: "pool_of p = hp_hostsKeys p" by (simp add: pool_of_def)
      have "g \<in> set (not_tried (tried_with h p))"
        using Suc.prems(2,3) False q(5) pool by (cases "g = h") (auto simp: in_set_remove1)
      moreover have "length (not_tried (tried_with h p)) \<le> n"
        using Suc.prems(4) q(5) pool True h by (simp add: length_remove1)
      ultimately show ?thesis
        using next_untried [of "tried_with h p" g n E ?a t] q(1,3,4) Suc.prems(3)
        unfolding step by (auto simp: tried_with_def)
    next
      case nonempty: False
      then have "pool_of p = not_tried p" by (simp add: pool_of_def)
      then have "length (not_tried (tried_with h p)) + length (hp_hostsKeys (tried_with h p)) \<le> n"
        using Suc.prems(4) q(2,5) nonempty h by (simp add: length_remove1) (metis Suc_le_mono Suc_pred add_Suc length_greater_0_conv)
      then show ?thesis
        using Suc.IH [of "tried_with h p" ?a t] q(1,2,3,4) Suc.prems(2,3) unfolding step by (auto simp: tried_with_def)
    qed
  qed
next
  case 0
  then show ?case by (auto simp: provider_ok_def)
qed

lemma retry_jitter_run: "\<exists>t. retry_jitter E C s = (Ok (), t)"
proof (cases "rc_RetryJitter (zc_RandomHostProvider (c_Zookeeper C)) \<le> 0")
  case False
  then show ?thesis
    using rand_run [of "nat (rc_RetryJitter (zc_RandomHostProvider (c_Zookeeper C)))" E s]
    by (auto simp: retry_jitter_def Let_def sleep_def record_event_def comp_defs)
qed (simp add: retry_jitter_def Let_def sleep_def record_event_def comp_defs)

text \<open>
  C34 \<open>Next\<close> comes back: when some host has an address, its loop ends with the address of a known host, within two
  rounds for each host; it announces a new start exactly when it will pause before the next call, and not while a host
  with an address is left untried.
\<close>
theorem Next_serves:
  assumes "provider_ok p" and "h \<in> set (hp_hostsKeys p)" and "has_addresses p h" and "2 * Len p \<le> e_fuel E"
  shows "\<exists>server retryStart p' s'. Next E C p s = (Ok (server, retryStart, p'), s') \<and>
    server \<in> servers_of p \<and> provider_ok p' \<and> hp_isRetry p' = retryStart \<and>
    (h \<in> set (not_tried p) \<longrightarrow> \<not> retryStart)"
proof -
  let ?p = "p\<lparr>hp_isRetry := False\<rparr>"
  let ?pause = "if hp_isRetry p then retry_jitter E C else ret ()"
  have p: "provider_ok ?p" "h \<in> set (hp_hostsKeys ?p)" "has_addresses ?p h" "servers_of ?p = servers_of p"
    "not_tried ?p = not_tried p"
    using assms(1-3) by (simp_all add: provider_ok_def has_addresses_def servers_of_def not_tried_def)
  have fuel: "length (not_tried ?p) + length (hp_hostsKeys ?p) \<le> e_fuel E"
    using assms(4) by (simp add: Len_def not_tried_def) (metis add_mono le_trans length_filter_le mult_2 order_refl)
  obtain t where pause: "?pause s = (Ok (), t)"
    using retry_jitter_run [of E C s] by (cases "hp_isRetry p") (auto simp: ret_def)
  have run: "Next E C p s = perform (iterate (e_fuel E) (next_round E) (?p, False)) (\<lambda>(server, p', needRetry).
      ret (server, needRetry, if needRetry then p'\<lparr>hp_isRetry := True\<rparr> else p')) t"
    using pause by (simp add: Next_def andThen_def perform_def)
  show ?thesis
  proof (cases "h \<in> set (not_tried p)")
    case True
    with next_untried [OF p(1), of h "e_fuel E" E False t] p fuel show ?thesis
      unfolding run by (auto simp: perform_def ret_def)
  next
    case False
    from next_ends [OF p(1-3) fuel, of E False t] obtain server p' a s' where
      "iterate (e_fuel E) (next_round E) (?p, False) t = (Ok (server, p', a), s')"
      "server \<in> servers_of p" "provider_ok p'" "\<not> hp_isRetry p'"
      using p(4) by auto
    with False show ?thesis unfolding run by (cases a) (auto simp: perform_def ret_def provider_ok_def)
  qed
qed

definition sample_provider :: host_provider where
  "sample_provider = \<lparr> hp_hosts = [''zk1:2181'' \<mapsto> \<lparr> zh_lastLookup = 1, zh_resolved = [] \<rparr>,
       ''zk2:2181'' \<mapsto> \<lparr> zh_lastLookup = 1, zh_resolved = [''10.0.0.2:2181''] \<rparr>],
     hp_hostsKeys = [''zk1:2181'', ''zk2:2181''], hp_tried = [''zk1:2181''], hp_useAddrs = True, hp_isRetry = False \<rparr>"

theorem Next_serves_witness:
  "\<exists>server p' s'. Next sample_env sample_config sample_provider sample_state = (Ok (server, False, p'), s') \<and>
     server \<in> servers_of sample_provider"
proof -
  have ok: "provider_ok sample_provider" "''zk2:2181'' \<in> set (hp_hostsKeys sample_provider)"
    "has_addresses sample_provider ''zk2:2181''" "2 * Len sample_provider \<le> e_fuel sample_env"
    "''zk2:2181'' \<in> set (not_tried sample_provider)"
    by (simp_all add: provider_ok_def sample_provider_def has_addresses_def Len_def sample_env_def not_tried_def)
  from Next_serves [OF ok(1-4), of sample_config sample_state] ok(5) show ?thesis by auto
qed

section \<open>The invariant holds\<close>

lemma JoinHostPort_nonempty: "JoinHostPort h p \<noteq> []" "[] \<noteq> JoinHostPort h p"
  by (simp_all add: JoinHostPort_def)

lemma resolveHost_yields: "resolveHost E pair s = (Ok (Inr rs), s') \<Longrightarrow> pair \<noteq> [] \<and> [] \<notin> set rs"
  by (auto simp: resolveHost_def SplitHostPort_def perform_def ret_def JoinHostPort_nonempty
      split: option.splits prod.splits outcome.splits sum.splits if_splits)

lemma store_host_ok:
  "provider_ok p \<Longrightarrow> [] \<notin> set rs \<Longrightarrow> provider_ok (store_host h t rs p)"
  by (auto simp: provider_ok_def store_host_def list_all_iff)

lemma init_host_ok:
  assumes "init_host E host (rs, p) s = (Ok (rs', p'), s')" and "provider_ok p" and "host \<notin> set (hp_hostsKeys p)"
  shows "provider_ok p' \<and> set (hp_hostsKeys p') \<subseteq> insert host (set (hp_hostsKeys p))"
  using assms
  by (auto simp: init_host_def perform_def ret_def now_def record_event_def comp_defs provider_ok_def store_host_def
      list_all_iff Let_def dest: resolveHost_yields
      split: prod.splits outcome.splits sum.splits)

lemma init_hosts_ok:
  assumes "foldM (init_host E) hosts (rs, p) s = (Ok (rs', p'), s')" and "provider_ok p" and "distinct hosts"
    and "set hosts \<inter> set (hp_hostsKeys p) = {}"
  shows "provider_ok p'"
  using assms
proof (induction hosts arbitrary: rs p s)
  case (Cons host hosts)
  obtain rs1 p1 s1 where step: "init_host E host (rs, p) s = (Ok (rs1, p1), s1)"
      "foldM (init_host E) hosts (rs1, p1) s1 = (Ok (rs', p'), s')"
    using Cons.prems(1) by (auto elim: perform_Ok)
  with init_host_ok [OF step(1) Cons.prems(2)] Cons.prems(3,4) show ?case
    by (intro Cons.IH [OF step(2)]) auto
qed (simp add: ret_def)

lemma Init_ok:
  assumes "distinct servers" and "Init_provider E servers (NewRandomHostProvider useAddrs) s = (Ok (e, p), s')"
  shows "provider_ok p"
proof -
  have "provider_ok (NewRandomHostProvider useAddrs)" "hp_hostsKeys (NewRandomHostProvider useAddrs) = []"
    by (simp_all add: NewRandomHostProvider_def provider_ok_def)
  with assms show ?thesis
    unfolding Init_provider_def
    by (auto elim!: perform_Ok split: prod.splits if_splits simp: ret_def dest: init_hosts_ok)
qed

text \<open>A tick of the background goroutine keeps it.\<close>
lemma refresh_host_ok:
  "refresh_host E C pair p s = (Ok p', s') \<Longrightarrow> provider_ok p \<Longrightarrow>
   provider_ok p' \<and> hp_hostsKeys p' = hp_hostsKeys p"
  by (auto simp: refresh_host_def perform_def ret_def comp_defs now_def record_event_def store_host_ok store_host_def
      dest: resolveHost_yields intro!: store_host_ok [unfolded store_host_def]
      split: prod.splits outcome.splits sum.splits if_splits option.splits)

lemma refresh_hosts_ok:
  "foldM (refresh_host E C) hosts p s = (Ok p', s') \<Longrightarrow> provider_ok p \<Longrightarrow>
   provider_ok p' \<and> hp_hostsKeys p' = hp_hostsKeys p"
proof (induction hosts arbitrary: p s)
  case (Cons host hosts)
  then obtain p1 s1 where "refresh_host E C host p s = (Ok p1, s1)" "foldM (refresh_host E C) hosts p1 s1 = (Ok p', s')"
    by (auto elim: perform_Ok)
  with refresh_host_ok Cons show ?case by metis
qed (simp add: ret_def)

text \<open>
  The provider is well formed after its start with different servers and after every tick of its background
  goroutine, whatever was resolved: every key has an entry, no key is empty or twice there, no address is
  empty; the keys stay.
\<close>
theorem provider_stays_ok:
  assumes "distinct servers" and "Init_provider E servers (NewRandomHostProvider useAddrs) s = (Ok (e, p), s1)"
    and "resolveHosts_tick E C p s2 = (Ok q, s3)"
  shows "provider_ok p \<and> provider_ok q \<and> hp_hostsKeys q = hp_hostsKeys p"
  using Init_ok [OF assms(1,2)] refresh_hosts_ok [OF assms(3) [unfolded resolveHosts_tick_def]] by simp

theorem provider_stays_ok_witness:
  "\<exists>e p s1 q s3. Init_provider sample_env [''zk1:2181'', ''zk2:2181''] (NewRandomHostProvider True) sample_state = (Ok (e, p), s1) \<and>
     resolveHosts_tick sample_env sample_config p s1 = (Ok q, s3) \<and> provider_ok q"
proof -
  let ?init = "Init_provider sample_env [''zk1:2181'', ''zk2:2181''] (NewRandomHostProvider True)"
  have "returns (fst (perform ?init (\<lambda>(e, p). resolveHosts_tick sample_env sample_config p) sample_state))"
    by code_simp
  then obtain e p s1 q s3 where run: "?init sample_state = (Ok (e, p), s1)"
      "resolveHosts_tick sample_env sample_config p s1 = (Ok q, s3)"
    by (auto simp: perform_def returns_def split: prod.splits outcome.splits) (metis prod.collapse)
  from provider_stays_ok [OF _ run] run show ?thesis by auto
qed

end
