(* ===== verification/Reach.thy ===== *)
theory Reach
  imports App Through
begin

text \<open>
  What each state of the process can reach: the commands, keys and files that a round of a candidate,
  of a lost node, of the manager or of a repair touches at most, in every run, complete or cut anywhere.
\<close>

section \<open>Traces\<close>

text \<open>The events since \<open>h0\<close> all have \<open>P\<close>.\<close>
definition trace_of :: "(event \<Rightarrow> bool) \<Rightarrow> history \<Rightarrow> history \<Rightarrow> bool" where
  "trace_of P h0 h \<longleftrightarrow> (\<exists>new. h = new @ h0 \<and> list_all P new)"

text \<open>\<open>only P m\<close>: all events of \<open>m\<close> have \<open>P\<close>.\<close>
definition only :: "(event \<Rightarrow> bool) \<Rightarrow> 'a M \<Rightarrow> bool" where
  "only P m \<longleftrightarrow> (\<forall>h0. keeps (trace_of P h0) m)"

lemma trace_cons: "P e \<Longrightarrow> trace_of P h0 h \<Longrightarrow> trace_of P h0 (e # h)"
  unfolding trace_of_def by (metis append_Cons list.pred_inject(2))

lemma only_trace:
  assumes "only P m"
  shows "\<exists>new. hist (snd (m s)) = new @ hist s \<and> list_all P new"
  using keeps_hist [of "trace_of P (hist s)" m s] assms by (simp add: only_def trace_of_def)

lemma only_foot:
  assumes "foot A m" and "\<And>e. quiet e \<or> p_ev A e \<Longrightarrow> P e"
  shows "only P m"
  unfolding only_def using assms by (blast intro: keeps_foot trace_cons)

lemma only_perform [keeps_intros]: "only P m \<Longrightarrow> (\<And>x. only P (k x)) \<Longrightarrow> only P (perform m k)"
  by (simp add: only_def keeps_perform)

lemma only_andThen [keeps_intros]: "only P m \<Longrightarrow> only P k \<Longrightarrow> only P (andThen m k)"
  by (simp add: only_def keeps_andThen)

lemma only_ret [keeps_intros]: "only P (ret x)"
  by (simp add: only_def keeps_ret)

lemma only_gets [keeps_intros]: "only P (gets f)"
  unfolding only_def keeps_def by (blast intro: through_gets)

lemma only_if [keeps_intros]:
  "(b \<Longrightarrow> only P m) \<Longrightarrow> (\<not> b \<Longrightarrow> only P m') \<Longrightarrow> only P (if b then m else m')"
  by simp

text \<open>Changing fields of the process makes no event.\<close>
lemma only_modify: "(\<And>s. hist (f s) = hist s) \<Longrightarrow> only P (modify f)"
  by (auto simp: only_def keeps_def through_def modify_def intro!: viaI)

lemma quiet_read_only: "quiet (EvCmd h c r) \<Longrightarrow> read_only_cmd c"
  by simp

section \<open>A candidate\<close>

text \<open>A candidate commands its own node only, and writes the poison pill and the lock only.\<close>
fun candidate_event :: "Config \<Rightarrow> event \<Rightarrow> bool" where
  "candidate_event C (EvCmd h c r) = (h = c_Hostname C \<or> read_only_cmd c)"
| "candidate_event C (EvSenti h c r) = read_only_cmd c"
| "candidate_event C (EvZkWrite w r) = (writes_at C pathPoisonPill w \<or> writes_at C pathManagerLock w)"
| "candidate_event C e = True"

definition permit_of :: "(event \<Rightarrow> bool) \<Rightarrow> permit" where
  "permit_of P = \<lparr> p_ev = P, p_crit = True, p_spin = True, p_link = True, p_hosts = (\<lambda>h. True) \<rparr>"

lemma permit_of_simps [simp]:
  "p_ev (permit_of P) = P" "p_crit (permit_of P)" "p_spin (permit_of P)" "p_link (permit_of P)" "p_hosts (permit_of P) h"
  by (simp_all add: permit_of_def)

lemma only_permit: "foot (permit_of P) m \<Longrightarrow> (\<And>e. quiet e \<Longrightarrow> P e) \<Longrightarrow> only P m"
  by (rule only_foot) auto

lemma candidate_quiet: "quiet e \<Longrightarrow> candidate_event C e"
  by (cases e) auto

text \<open>
  A candidate acts on its own node: in a round of the candidate state every command to another
  server only reads, and every write to the DCS is at the poison pill or at the manager's lock.
\<close>
theorem candidate_acts_locally:
  "\<exists>new. hist (snd (handle_Candidate E C s)) = new @ hist s \<and> list_all (candidate_event C) new"
proof -
  have "candidate_may (permit_of (candidate_event C)) C"
    by (simp add: candidate_may_def local_may_def host_may_def may_write_def)
  then have "foot (permit_of (candidate_event C)) (handle_Candidate E C)" by (rule foot_handle_Candidate)
  from only_trace [OF only_permit [OF this candidate_quiet]] show ?thesis .
qed

section \<open>A lost node\<close>

fun lost_event :: "Config \<Rightarrow> event \<Rightarrow> bool" where
  "lost_event C (EvCmd h c r) =
     (read_only_cmd c \<or> h = c_Hostname C \<and> (c \<in> set online_cmds \<or> c \<in> set offline_cmds))"
| "lost_event C e = quiet e"

lemma lost_quiet: "quiet e \<Longrightarrow> lost_event C e"
  by (cases e) auto

lemma only_lost: "only (lost_event C) (handle_Lost E C)"
proof -
  let ?A = "permit_of (lost_event C)"
  have may: "lost_may ?A C" by (simp add: lost_may_def host_may_def)
  have q: "only (lost_event C) m" if "foot ?A m" for m :: "'x M"
    using that by (rule only_permit) (rule lost_quiet)
  have set: "only (lost_event C) (set_lostSince t)" for t
    unfolding set_lostSince_def by (rule only_modify) simp
  have node: "only (lost_event C) (perform (shard_Local C) (\<lambda>node. perform (deref local) (\<lambda>st.
      if hs_IsMaster st then lost_master E C node else lost_replica E C node)))" for local
    by (rule q) (rule foot_first foot_intros may | assumption)+
  show ?thesis
    unfolding handle_Lost_def
    by (rule node set keeps_intros | (rule q; (rule foot_intros | simp)+))+
qed

text \<open>
  C17 A process without a session leaves the shard alone: in a round of the lost state it writes
  nothing to the DCS, runs no command and touches no file; the only commands that change something
  open or close its own node.
\<close>
theorem lost_acts_locally:
  "\<exists>new. hist (snd (handle_Lost E C s)) = new @ hist s \<and> list_all (lost_event C) new"
  by (rule only_trace [OF only_lost])

section \<open>The manager\<close>

fun manager_event :: "Config \<Rightarrow> event \<Rightarrow> bool" where
  "manager_event C (EvZkWrite w r) = list_ex (\<lambda>p. writes_at C p w) manager_paths"
| "manager_event C e = True"

lemma manager_quiet: "quiet e \<Longrightarrow> manager_event C e"
  by (cases e) auto

text \<open>
  The manager owns its keys only: a round of the manager never writes the list of hosts, the
  configuration of a host or the health of a host; its writes are at the lock, the master, the
  active nodes, the three switchover documents, maintenance and the poison pill.
\<close>
theorem manager_writes_its_keys:
  "\<exists>new. hist (snd (handle_Manager E C s)) = new @ hist s \<and> list_all (manager_event C) new"
proof -
  have "manager_may (permit_of (manager_event C)) C"
    by (simp add: manager_may_def local_may_def host_may_def senti_may_def may_write_def manager_paths_def)
  then have "foot (permit_of (manager_event C)) (handle_Manager E C)" by (rule foot_handle_Manager)
  from only_trace [OF only_permit [OF this manager_quiet]] show ?thesis .
qed



section \<open>Repair\<close>

fun repair_event :: "event \<Rightarrow> bool" where
  "repair_event (EvCmd h c r) = (read_only_cmd c \<or> repair_cmd c)"
| "repair_event (EvExec a r) = True"
| "repair_event e = quiet e"

lemma repair_quiet: "quiet e \<Longrightarrow> repair_event e"
  by (cases e) auto

text \<open>
  C31 Repairing the shard promotes nobody: its commands set the replication and quorum parameters,
  rewrite the configuration, and attach replicas; it closes or opens no node, kills no client and
  writes nothing to the DCS.
\<close>
theorem repair_promotes_nobody:
  "\<exists>new. hist (snd (repairShard E C ss active master s)) = new @ hist s \<and> list_all repair_event new \<and>
     list_all (\<lambda>e. case e of EvCmd h c r \<Rightarrow> \<not> promote_cmd c | _ \<Rightarrow> True) new"
proof -
  have "foot (permit_of repair_event) (repairShard E C ss active master)"
    by (rule foot_repairShard) (simp_all add: host_may_def)
  from only_trace [OF only_permit [OF this repair_quiet]]
  obtain new where n: "hist (snd (repairShard E C ss active master s)) = new @ hist s" "list_all repair_event new"
    by blast
  have "\<not> promote_cmd c" if "read_only_cmd c \<or> repair_cmd c" for c
    using that repair_not_promote by (cases c) auto
  with n(2) have "list_all (\<lambda>e. case e of EvCmd h c r \<Rightarrow> \<not> promote_cmd c | _ \<Rightarrow> True) new"
    by (auto simp: list_all_iff split: event.splits)
  with n show ?thesis by blast
qed

end
