(* ===== verification/Commands.thy ===== *)
theory Commands
  imports Cli Reach
begin

text \<open>
  What the operator's commands can reach (internal/app/cli.go), in every run, complete or cut anywhere.
\<close>

section \<open>Footprints of a command\<close>

text \<open>Making the empty persistent nodes on the way to a key.\<close>
definition may_make_parents :: "permit \<Rightarrow> bool" where
  "may_make_parents A \<longleftrightarrow> (\<forall>p r. p_ev A (EvZkWrite (ZCreate p (JBytes []) False) r))"

lemma foot_parents:
  assumes "may_make_parents A"
  shows "foot A (makePath E C q)" and "foot A (Initialize E C)"
    and "(\<And>r. p_ev A (EvZkWrite (ZCreate (fullPath C path) d False) r)) \<Longrightarrow> foot A (dcs_Create E C path d)"
proof -
  show make: "foot A (makePath E C q)" for q
    unfolding makePath_def create_missing_def using assms by (intro foot_intros) (simp add: may_make_parents_def)
  show "foot A (Initialize E C)"
    unfolding Initialize_def by (rule make foot_intros)+
  show "(\<And>r. p_ev A (EvZkWrite (ZCreate (fullPath C path) d False) r)) \<Longrightarrow> foot A (dcs_Create E C path d)"
    unfolding dcs_Create_def dcs_create_def by (rule make foot_intros | assumption)+
qed

lemma foot_with_dcs:
  assumes "p_crit A" and "p_link A" and "may_make_parents A" and "foot A body"
  shows "foot A (with_dcs E C body)"
  unfolding with_dcs_def by (rule foot_parents foot_intros assms | simp add: assms(1,2))+

lemma foot_exits [foot_intros]:
  "foot A m \<Longrightarrow> (\<And>x. foot A (k x)) \<Longrightarrow> foot A (or_exit m k)"
  "foot A m' \<Longrightarrow> foot A k' \<Longrightarrow> foot A (ok_or_exit m' k')"
  "(\<And>x. foot A (f x)) \<Longrightarrow> foot A (get_opt E C dec path f)"
  unfolding or_exit_def ok_or_exit_def get_opt_def by (rule foot_intros | assumption)+

lemma foot_println [foot_intros]: "foot A (println t)"
  unfolding println_def by (intro foot_intros)

text \<open>What is typed is a value of the environment.\<close>
lemma foot_read_line:
  assumes "\<And>l h. e_input E h = Inr l \<Longrightarrow> foot A (k l)"
  shows "foot A (or_exit (read_line E) k)"
proof -
  let ?go = "\<lambda>r. andThen (record_event EvInput) (case r of Inl e \<Rightarrow> ret 1 | Inr l \<Rightarrow> k l)"
  have go: "foot A (?go (e_input E h))" for h
    using assms [of h] by (intro foot_intros foot_record) simp_all
  have run: "or_exit (read_line E) k s = ?go (e_input E (hist s)) s" for s
    by (simp add: or_exit_def read_line_def perform_def gets_def andThen_def ret_def record_event_def modify_def)
  show ?thesis
    by (rule footI) (use footD [OF go] run in metis)
qed

section \<open>abort\<close>

text \<open>Nothing but empty nodes may be made: the root of the tree.\<close>
fun root_event :: "event \<Rightarrow> bool" where
  "root_event (EvZkWrite (ZCreate p d eph) r) = (d = JBytes [] \<and> \<not> eph)"
| "root_event e = quiet e"

lemma root_quiet: "quiet e \<Longrightarrow> root_event e"
  by (cases e rule: root_event.cases) auto

text \<open>
  A switchover is aborted only by the phrase: when the operator types anything else, the command removes or changes
  nothing in the DCS (it may make the root), and commands no server.
\<close>
theorem abort_needs_phrase:
  assumes "\<And>h l. e_input E h = Inr l \<Longrightarrow> str_trim l \<noteq> abort_phrase"
  shows "\<exists>new. hist (snd (CliAbort E C s)) = new @ hist s \<and> list_all root_event new"
proof -
  have "foot (permit_of root_event) (CliAbort E C)"
    unfolding CliAbort_def
    by (rule foot_with_dcs foot_read_line foot_intros | simp add: may_make_parents_def assms)+
  from only_trace [OF only_permit [OF this root_quiet]] show ?thesis .
qed

theorem abort_needs_phrase_witness:
  "\<exists>new. hist (snd (CliAbort (sample_env\<lparr>e_input := (\<lambda>h. Inr ''no'')\<rparr>) sample_config sample_state)) = new @ hist sample_state \<and>
     list_all root_event new"
  by (rule abort_needs_phrase) (auto simp: abort_phrase_def, code_simp)

section \<open>switch\<close>

text \<open>A request is created; the active nodes are written when it is forced.\<close>
fun switch_event :: "Config \<Rightarrow> bool \<Rightarrow> event \<Rightarrow> bool" where
  "switch_event C force (EvZkWrite (ZCreate p d eph) r) =
     (p = fullPath C pathCurrentSwitch \<and> \<not> eph \<or> d = JBytes [] \<and> \<not> eph \<or>
      force \<and> writes_at C pathActiveNodes (ZCreate p d eph))"
| "switch_event C force (EvZkWrite w r) = (force \<and> writes_at C pathActiveNodes w)"
| "switch_event C force e = quiet e"

lemma switch_quiet: "quiet e \<Longrightarrow> switch_event C force e"
  by (cases "(C, force, e)" rule: switch_event.cases) auto

lemma switch_may:
  "may_make_parents (permit_of (switch_event C force))"
  "force \<Longrightarrow> may_write (permit_of (switch_event C force)) C pathActiveNodes"
proof -
  have "force \<and> writes_at C pathActiveNodes w \<Longrightarrow> switch_event C force (EvZkWrite w r)" for w r
    by (cases w) auto
  then show "force \<Longrightarrow> may_write (permit_of (switch_event C force)) C pathActiveNodes"
    by (auto simp: may_write_def)
qed (simp add: may_make_parents_def)

lemma foot_create_request: "foot (permit_of (switch_event C force)) (dcs_Create E C pathCurrentSwitch d)"
  by (rule foot_parents switch_may | simp)+

lemma foot_request_switch:
  "foot (permit_of (switch_event C force)) (request_switch E C from to wait force)"
  unfolding request_switch_def wait_switch_def wait_switch_tick_def Let_def
  by (rule foot_create_request foot_intros switch_may | simp)+

text \<open>
  The switch command only asks: it commands no server, and of the keys of the shard it writes these two. A request
  is created, so that a pending one is never overwritten or removed, and the active nodes are written only when the
  switch is forced (the empty nodes on the way to a key apart).
\<close>
theorem switch_only_asks:
  "\<exists>new. hist (snd (CliSwitch E C switchFrom switchTo waitTimeout switchForce s)) = new @ hist s \<and>
     list_all (switch_event C switchForce) new"
proof -
  have "foot (permit_of (switch_event C switchForce)) (CliSwitch E C switchFrom switchTo waitTimeout switchForce)"
    unfolding CliSwitch_def resolve_to_def resolve_from_def done_already_def Let_def
    by (rule foot_with_dcs foot_request_switch foot_intros switch_may | simp)+
  from only_trace [OF only_permit [OF this switch_quiet]] show ?thesis .
qed

section \<open>host add\<close>

fun dry_event :: "Config \<Rightarrow> event \<Rightarrow> bool" where
  "dry_event C (EvZkWrite (ZCreate p d eph) r) =
     (\<not> eph \<and> (d = JBytes [] \<or> d = JNull \<and> p = fullPath C (JoinPath [pathHANodes])))"
| "dry_event C e = quiet e"

lemma dry_quiet: "quiet e \<Longrightarrow> dry_event C e"
  by (cases "(C, e)" rule: dry_event.cases) auto

text \<open>
  A dry run of adding a host changes nothing: at most the empty nodes up to the list of hosts are made; neither the
  host nor its configuration is written and no server is commanded.
\<close>
theorem dry_run_changes_nothing:
  "\<exists>new. hist (snd (CliHostAdd E C fptr host priority True skipValkeyCheck s)) = new @ hist s \<and> list_all (dry_event C) new"
proof -
  have "foot (permit_of (dry_event C)) (CliHostAdd E C fptr host priority True skipValkeyCheck)"
    unfolding CliHostAdd_def processPriority_def check_alive_def Let_def
    by (rule foot_with_dcs foot_parents foot_intros | simp add: may_make_parents_def)+
  from only_trace [OF only_permit [OF this dry_quiet]] show ?thesis .
qed

end
