(* ===== verification/Members.thy ===== *)
theory Members
  imports ActiveNodes Sample
begin

text \<open>
  Laws of the set of active nodes (internal/app/active_nodes.go): which hosts \<open>calcActiveNodes\<close> takes, in any order
  in which Go visits the map.
\<close>

section \<open>Which nodes are active\<close>

text \<open>What it takes to be active: an unreachable node was it before, a reachable one is a replica.\<close>
definition may_be_active :: "string list \<Rightarrow> string \<Rightarrow> HostState \<Rightarrow> bool" where
  "may_be_active old host hs \<longleftrightarrow> (if hs_PingOk hs then hs_ReplicaState hs \<noteq> None else host \<in> set old)"

lemma node_active_yields:
  assumes "node_active E C stateDcs old masterState masterNode host hs s = (Ok b, s')"
  shows "b \<Longrightarrow> may_be_active old host hs"
    and "\<not> (hs_PingOk masterState \<and> hs_PingStable masterState) \<Longrightarrow> hs_PingOk hs \<Longrightarrow> hs_ReplicaState hs \<noteq> None \<Longrightarrow> b"
  using assms unfolding node_active_def may_be_active_def
  by (auto elim!: perform_Ok simp: andThen_def ret_def split: if_splits option.splits)

text \<open>One visit of every entry.\<close>
lemma calc_steps:
  assumes "foldM (calc_step E C stateDcs old master masterState masterNode) visited acc s = (Ok nodes, s')"
    and "distinct (map fst visited)"
  shows "\<exists>new. nodes = acc @ new \<and> distinct new \<and> set new \<subseteq> fst ` set visited - {master} \<and>
    (\<forall>(h, hs) \<in> set visited. (h \<in> set new \<longrightarrow> may_be_active old h hs) \<and>
      (h \<noteq> master \<and> \<not> (hs_PingOk masterState \<and> hs_PingStable masterState) \<and> hs_PingOk hs \<and> hs_ReplicaState hs \<noteq> None
       \<longrightarrow> h \<in> set new))"
  using assms
proof (induction visited arbitrary: acc s)
  case (Cons entry visited)
  obtain h hs where entry: "entry = (h, hs)" by (cases entry)
  obtain acc1 t where step: "calc_step E C stateDcs old master masterState masterNode entry acc s = (Ok acc1, t)"
      "foldM (calc_step E C stateDcs old master masterState masterNode) visited acc1 t = (Ok nodes, s')"
    using Cons.prems(1) by (auto elim: perform_Ok)
  obtain new where new: "nodes = acc1 @ new" "distinct new" "set new \<subseteq> fst ` set visited - {master}"
    "\<forall>(h, hs) \<in> set visited. (h \<in> set new \<longrightarrow> may_be_active old h hs) \<and>
      (h \<noteq> master \<and> \<not> (hs_PingOk masterState \<and> hs_PingStable masterState) \<and> hs_PingOk hs \<and> hs_ReplicaState hs \<noteq> None
       \<longrightarrow> h \<in> set new)"
    using Cons.IH [OF step(2)] Cons.prems(2) by auto
  have fresh: "h \<notin> fst ` set visited" "\<And>x. (h, x) \<notin> set visited" using Cons.prems(2) entry by force+
  show ?case
  proof (cases "h = master")
    case True
    then have "acc1 = acc" using step(1) entry by (simp add: calc_step_def ret_def)
    with new True fresh show ?thesis unfolding entry by (intro exI [of _ new]) auto
  next
    case False
    then obtain b t' where b: "node_active E C stateDcs old masterState masterNode h hs s = (Ok b, t')"
        "acc1 = (if b then acc @ [h] else acc)"
      using step(1) entry by (auto simp: calc_step_def ret_def elim!: perform_Ok)
    have here: "(h \<in> set (if b then [h] else [])) = b" by simp
    show ?thesis
      unfolding entry
      using new fresh False b(2) node_active_yields [OF b(1)]
      by (intro exI [of _ "(if b then [h] else []) @ new"]) (auto 0 4 simp: here)
  qed
qed (simp add: ret_def)

text \<open>
  C14 The calculated active nodes are a sorted list of known hosts, none twice. The master is one of them when it is known.
  An unreachable replica is among them only if it was before; a reachable host that is no replica is not; while the master
  is not alive every reachable replica is.
\<close>
theorem calcActiveNodes_members:
  assumes "distinct (map fst state)" and "calcActiveNodes E C state stateDcs old master s = (Ok nodes, s')"
  shows "sorted nodes \<and> distinct nodes \<and> set nodes \<subseteq> fst ` set state \<and> (master \<in> set nodes \<longleftrightarrow> master \<in> fst ` set state) \<and>
    (\<forall>(h, hs) \<in> set state. h \<noteq> master \<longrightarrow>
      (h \<in> set nodes \<longrightarrow> (if hs_PingOk hs then hs_ReplicaState hs \<noteq> None else h \<in> set old)) \<and>
      ((case map_of state master of None \<Rightarrow> True | Some ms \<Rightarrow> \<not> (hs_PingOk ms \<and> hs_PingStable ms)) \<and>
        hs_PingOk hs \<and> hs_ReplicaState hs \<noteq> None \<longrightarrow> h \<in> set nodes))"
proof -
  define ms where "ms = (case map_of state master of None \<Rightarrow> zero_HostState | Some ms \<Rightarrow> ms)"
  define acc where "acc = (case map_of state master of None \<Rightarrow> [] | Some ms \<Rightarrow> [master])"
  obtain node t where run: "perform (range_states E state) (\<lambda>visited.
     perform (foldM (calc_step E C stateDcs old master ms node) visited acc) (\<lambda>activeNodes. ret (sort activeNodes))) t = (Ok nodes, s')"
    using assms(2) unfolding calcActiveNodes_def ms_def acc_def
    by (cases "map_of state master") (auto elim: perform_Ok)
  obtain v q where v: "range_states E state t = (Ok v, t\<lparr>hist := EvOrder q # hist t\<rparr>)" "set v = set state" "distinct (map fst v)"
    using range_states_run [OF assms(1)] by blast
  obtain ns t' where ns: "foldM (calc_step E C stateDcs old master ms node) v acc (t\<lparr>hist := EvOrder q # hist t\<rparr>) = (Ok ns, t')"
      "nodes = sort ns"
    using run v(1) by (auto simp: perform_def ret_def split: prod.splits outcome.splits)
  obtain new where new: "ns = acc @ new" "distinct new" "set new \<subseteq> fst ` set state - {master}"
    "\<forall>(h, hs) \<in> set state. (h \<in> set new \<longrightarrow> may_be_active old h hs) \<and>
      (h \<noteq> master \<and> \<not> (hs_PingOk ms \<and> hs_PingStable ms) \<and> hs_PingOk hs \<and> hs_ReplicaState hs \<noteq> None \<longrightarrow> h \<in> set new)"
    using calc_steps [OF ns(1) v(3)] unfolding v(2) by blast
  have "master \<in> fst ` set state \<longleftrightarrow> map_of state master \<noteq> None" by (simp add: map_of_eq_None_iff)
  then have acc: "set acc = {master} \<inter> fst ` set state" "distinct acc"
    unfolding acc_def by (cases "map_of state master"; simp)+
  have ms: "(case map_of state master of None \<Rightarrow> True | Some ms \<Rightarrow> \<not> (hs_PingOk ms \<and> hs_PingStable ms)) =
      (\<not> (hs_PingOk ms \<and> hs_PingStable ms))"
    by (cases "map_of state master") (simp_all add: ms_def zero_HostState_def)
  from acc new(2,3) have "distinct nodes" "set nodes = {master} \<inter> fst ` set state \<union> set new" unfolding ns(2) new(1) by auto
  then show ?thesis
    using new(3,4) unfolding ms may_be_active_def ns(2) by (auto 0 3)
qed

theorem calcActiveNodes_members_witness:
  "\<exists>nodes s'. calcActiveNodes sample_env sample_config sample_states sample_states [''h1'', ''h2''] ''h1'' sample_state = (Ok nodes, s') \<and>
     sorted nodes \<and> distinct nodes \<and> ''h1'' \<in> set nodes"
proof -
  let ?run = "calcActiveNodes sample_env sample_config sample_states sample_states [''h1'', ''h2''] ''h1'' sample_state"
  have "returns (fst ?run)" by code_simp
  then obtain nodes s' where run: "?run = (Ok nodes, s')" by (cases ?run) (auto simp: returns_def split: outcome.splits)
  have "distinct (map fst sample_states)" "''h1'' \<in> fst ` set sample_states" by (simp_all add: sample_states_def)
  from calcActiveNodes_members [OF this(1) run] this(2) run show ?thesis by auto
qed

end
