(* ===== verification/Faults.thy ===== *)
theory Faults
  imports LocalRepair Sample
begin

text \<open>
  Two places of the local repair (internal/app/repair.go) at which the process panics: after a successful SCRIPT KILL,
  and when the states of the DCS cannot be read for a stale offline replica.
\<close>

text \<open>
  C40 SCRIPT KILL that succeeds ends the process: the local node has been busy for longer than the timeout, the script is
  killed, and the text of the error, which is nil then, is read.
\<close>
theorem script_kill_panics:
  assumes "nodeFailTime s (fst q) = Some t" and "t \<noteq> 0"
    and "vc_BusyTimeout (c_Valkey C) < since (e_now E (hist s)) t" and "HasPrefix (err_msg err) ''BUSY ''"
    and "fst (perform (time_since E t) (\<lambda>age. NodeScriptKill E (Some q)) s) = Ok None"
  shows "\<exists>msg. fst (local_failed E C (Some q) err s) = Halt (Panic msg)"
proof -
  have age: "time_since E t s = (Ok (since (e_now E (hist s)) t), s\<lparr>hist := EvNow (e_now E (hist s)) # hist s\<rparr>)"
    by (simp add: time_since_def now_def record_event_def comp_defs)
  obtain s' where "NodeScriptKill E (Some q) (s\<lparr>hist := EvNow (e_now E (hist s)) # hist s\<rparr>) = (Ok None, s')"
    using assms(5) by (simp add: perform_def age) (metis prod.collapse)
  with assms(1-4) age show ?thesis
    by (cases q) (simp add: is_zero_def local_failed_def FQDN_def deref_def time_of_def perform_def andThen_def gets_def ret_def halt_def)
qed

theorem script_kill_panics_witness:
  "\<exists>msg. fst (local_failed sample_env sample_config (Some (''h1'', 0)) (Raw ''BUSY script'')
     (sample_state\<lparr>nodeFailTime := [''h1'' \<mapsto> 1]\<rparr>)) = Halt (Panic msg)"
proof (rule script_kill_panics)
  let ?s = "sample_state\<lparr>nodeFailTime := [''h1'' \<mapsto> 1]\<rparr>"
  show "nodeFailTime ?s (fst (''h1'', 0)) = Some 1" "(1::int) \<noteq> 0" by simp_all
  show "vc_BusyTimeout (c_Valkey sample_config) < since (e_now sample_env (hist ?s)) 1" by code_simp
  show "HasPrefix (err_msg (Raw ''BUSY script'')) ''BUSY ''" by code_simp
  show "fst (perform (time_since sample_env 1) (\<lambda>age. NodeScriptKill sample_env (Some (''h1'', 0))) ?s) = Ok None"
    by code_simp
qed

text \<open>
  A stale offline replica is not repaired when the states of the DCS cannot be read: the error is only logged, and the
  function does not return, since it reads the entry of the master in a map that is nil.
\<close>
theorem repair_stale_panics:
  assumes "getShardStateFromDcs E C s = (Ok (Inl e), s')"
  shows "\<not> returns (fst (repair_stale E C local master replPaused state s))"
proof
  assume "returns (fst (repair_stale E C local master replPaused state s))"
  then obtain b t where "repair_stale E C local master replPaused state s = (Ok b, t)"
    by (cases "repair_stale E C local master replPaused state s") (auto simp: returns_def split: outcome.splits)
  then show False
    using assms unfolding repair_stale_def
    by (auto simp: andThen_def state_at_def deref_def halt_def Let_def elim!: perform_Ok)
qed

definition deaf_env :: env where
  "deaf_env = sample_env\<lparr>e_zk_get := (\<lambda>h p. Inl (Raw ''zk: no auth''))\<rparr>"

theorem repair_stale_panics_witness:
  "\<not> returns (fst (repair_stale deaf_env sample_config (Some (''h2'', 1)) ''h1'' False sample_replica sample_state))"
proof -
  have "(case fst (getShardStateFromDcs deaf_env sample_config sample_state) of Ok (Inl e) \<Rightarrow> True | _ \<Rightarrow> False)"
    by code_simp
  then obtain e s' where "getShardStateFromDcs deaf_env sample_config sample_state = (Ok (Inl e), s')"
    by (cases "getShardStateFromDcs deaf_env sample_config sample_state") (auto split: outcome.splits sum.splits)
  from repair_stale_panics [OF this] show ?thesis .
qed

end
