(* ===== verification/ZkLaws.thy ===== *)
theory ZkLaws
  imports Zk Sample
begin

text \<open>
  The client of ZooKeeper: paths in normal form, the number of attempts of a request, and the
  session as a state machine of three phases.
\<close>

section \<open>The full path of a key\<close>

text \<open>The reference: drop every separator that follows one, then one trailing separator.\<close>

fun squeeze_after :: "char \<Rightarrow> string \<Rightarrow> string" where
  "squeeze_after p [] = []"
| "squeeze_after p (c # cs) =
     (if p = sep \<and> c = sep then squeeze_after c cs else c # squeeze_after c cs)"

fun squeeze :: "string \<Rightarrow> string" where
  "squeeze [] = []"
| "squeeze (c # cs) = c # squeeze_after c cs"

definition strip_sep :: "string \<Rightarrow> string" where
  "strip_sep r = (if r \<noteq> [] \<and> last r = sep then butlast r else r)"

lemma squeeze_after_snoc:
  "squeeze_after p (xs @ [c]) =
   squeeze_after p xs @ (if last (p # xs) = sep \<and> c = sep then [] else [c])"
  by (induction xs arbitrary: p) auto

lemma squeeze_snoc:
  "squeeze (xs @ [c]) =
   squeeze xs @ (if xs \<noteq> [] \<and> last xs = sep \<and> c = sep then [] else [c])"
  by (cases xs) (auto simp: squeeze_after_snoc)

lemma squeeze_length: "length (squeeze xs) \<le> length xs"
proof -
  have "length (squeeze_after p ys) \<le> length ys" for p ys
    by (induction ys arbitrary: p) (auto simp: le_SucI)
  then show ?thesis by (cases xs) auto
qed

text \<open>The loop's invariant after \<open>i\<close> bytes: what is written, and that the rest is untouched.\<close>
lemma squeeze_loop:
  assumes "i \<le> length s" and "foldl squeeze_step (s, 0) [0..<i] = (res, j)"
  shows "length res = length s \<and> j \<le> i \<and> take j res = squeeze (take i s) \<and>
     (\<forall>k. j \<le> k \<longrightarrow> k < length s \<longrightarrow> res ! k = s ! k) \<and>
     (j = i \<longrightarrow> take i res = take i s)"
  using assms
proof (induction i arbitrary: res j)
  case (Suc i)
  obtain r0 j0 where 0: "foldl squeeze_step (s, 0) [0..<i] = (r0, j0)" by fastforce
  have inv: "length r0 = length s" "j0 \<le> i" "take j0 r0 = squeeze (take i s)"
      "\<And>k. j0 \<le> k \<Longrightarrow> k < length s \<Longrightarrow> r0 ! k = s ! k" "j0 = i \<Longrightarrow> take i r0 = take i s"
    using Suc.IH [OF _ 0] Suc.prems(1) by auto
  have i: "i < length s" using Suc.prems(1) by simp
  have cur: "r0 ! i = s ! i" using inv(2,4) i by simp
  have prev: "r0 ! (i - 1) = s ! (i - 1)" if "0 < i"
  proof (cases "j0 = i")
    case True
    then have "r0 ! (i - 1) = take i r0 ! (i - 1)" using that by simp
    also have "\<dots> = s ! (i - 1)" using inv(5) [OF True] that by simp
    finally show ?thesis .
  next
    case False
    then show ?thesis using inv(2,4) i by simp
  qed
  have sq: "squeeze (take (Suc i) s) = squeeze (take i s) @
      (if 0 < i \<and> s ! (i - 1) = sep \<and> s ! i = sep then [] else [s ! i])"
  proof -
    have "last (take i s) = s ! (i - 1)" if "0 < i"
      using that i by (cases i) (simp_all add: take_Suc_conv_app_nth)
    moreover have "take i s \<noteq> [] \<longleftrightarrow> 0 < i" using i by auto
    ultimately show ?thesis using i by (auto simp: take_Suc_conv_app_nth squeeze_snoc)
  qed
  have step: "(res, j) = squeeze_step (r0, j0) i" using Suc.prems(2) 0 by simp
  show ?case
  proof (cases "0 < i \<and> s ! i = sep \<and> s ! (i - 1) = sep")
    case True
    then have "res = r0" "j = j0" using step cur prev by (auto simp: squeeze_step_def)
    with inv sq True show ?thesis by auto
  next
    case False
    then have "\<not> (0 < i \<and> r0 ! i = sep \<and> r0 ! (i - 1) = sep)" using cur prev by auto
    then have rj: "res = r0[j0 := s ! i]" "j = Suc j0"
      using step cur by (auto simp: squeeze_step_def simp del: One_nat_def split: if_splits)
    have "take (Suc j0) res = take j0 r0 @ [s ! i]"
      using inv(1,2) i by (simp add: rj take_Suc_conv_app_nth)
    moreover have "take (Suc i) res = take (Suc i) s" if "j0 = i"
      using inv(1) inv(5) [OF that] i that by (simp add: rj take_Suc_conv_app_nth)
    ultimately show ?thesis using inv False sq by (auto simp: rj)
  qed
qed simp

lemma fullPath_squeeze:
  "buildFullPath ns path = strip_sep (squeeze (JoinPath [ns, path]))"
proof -
  let ?s = "JoinPath [ns, path]"
  obtain res j where rj: "foldl squeeze_step (?s, 0) [0..<length ?s] = (res, j)" by fastforce
  have "take j res = squeeze ?s" "j \<le> length res"
    using squeeze_loop [OF order_refl rj] by auto
  moreover have "squeeze ?s \<noteq> []" by (cases ?s) (auto simp: JoinPath_def)
  ultimately have j: "take j res = squeeze ?s" "0 < j" "j \<le> length res" by (auto intro: Nat.gr0I)
  have nth: "take j res ! (j - 1) = last (squeeze ?s)"
  proof -
    have "take j res \<noteq> []" and len: "length (take j res) = j" using j(2,3) by auto
    then have "last (take j res) = take j res ! (j - 1)" using last_conv_nth by metis
    then show ?thesis by (simp only: j(1))
  qed
  have len: "length (squeeze ?s) = j" using j(3) by (simp flip: j(1))
  have "take (j - 1) (take j res) = butlast (squeeze ?s)"
    using j by (simp add: butlast_conv_take flip: j(1))
  then show ?thesis
    using nth j \<open>squeeze ?s \<noteq> []\<close> len by (simp add: buildFullPath_def rj Let_def strip_sep_def)
qed

definition no_double :: "string \<Rightarrow> bool" where
  "no_double r \<longleftrightarrow> (\<forall>i. Suc i < length r \<longrightarrow> \<not> (r ! i = sep \<and> r ! Suc i = sep))"

lemma no_double_Cons:
  "no_double (a # b # r) \<longleftrightarrow> \<not> (a = sep \<and> b = sep) \<and> no_double (b # r)"
  unfolding no_double_def by (auto simp: nth_Cons' less_Suc_eq_0_disj split: if_splits) 

lemma no_double_squeeze: "no_double (squeeze s)"
proof -
  have "no_double (p # squeeze_after p cs)" for p cs
  proof (induction cs arbitrary: p)
    case (Cons c cs)
    then show ?case by (auto simp: no_double_Cons)
  qed (simp add: no_double_def)
  then show ?thesis by (cases s) (auto simp: no_double_def)
qed

lemma fullPath_normal:
  "no_double (buildFullPath ns path) \<and>
   (buildFullPath ns path \<noteq> [] \<longrightarrow> last (buildFullPath ns path) \<noteq> sep)"
proof -
  let ?r = "squeeze (JoinPath [ns, path])"
  have nd: "no_double ?r" by (rule no_double_squeeze)
  have "no_double (butlast ?r)" using nd by (simp add: no_double_def nth_butlast)
  moreover have "last (butlast ?r) \<noteq> sep" if "last ?r = sep" "butlast ?r \<noteq> []"
  proof -
    have "?r \<noteq> []" using that(2) by auto
    then obtain xs b where xs: "?r = xs @ [b]" by (metis append_butlast_last_id)
    with that(2) have "xs \<noteq> []" by simp
    then obtain ys a where "xs = ys @ [a]" by (metis append_butlast_last_id)
    with xs have r: "?r = ys @ [a, b]" by simp
    have "\<not> (a = sep \<and> b = sep)"
      using nd unfolding r no_double_def by (auto dest: spec [of _ "length ys"] simp: nth_append)
    with that(1) show ?thesis unfolding r by (simp add: butlast_append)
  qed
  ultimately show ?thesis using nd by (auto simp: fullPath_squeeze strip_sep_def)
qed

text \<open>
  C32 The path of a key: the loop of \<open>buildFullPath\<close>, which squeezes the joined path in place, computes
  the text with every repeated separator dropped and one trailing separator cut; the result
  never has two separators in a row.
\<close>
theorem buildFullPath_correct:
  "buildFullPath ns path = strip_sep (squeeze (JoinPath [ns, path])) \<and> no_double (buildFullPath ns path)"
  using fullPath_squeeze fullPath_normal by blast

section \<open>Retries\<close>

definition count_ev :: "(event \<Rightarrow> bool) \<Rightarrow> history \<Rightarrow> nat" where
  "count_ev P h = length (filter P h)"

definition emits :: "(event \<Rightarrow> bool) \<Rightarrow> nat \<Rightarrow> 'a M \<Rightarrow> bool" where
  "emits P n m \<longleftrightarrow> (\<forall>s. count_ev P (hist (snd (m s))) \<le> count_ev P (hist s) + n)"

lemma emits_perform:
  assumes "emits P n m" and "\<And>x. emits P k (f x)"
  shows "emits P (n + k) (perform m f)"
  unfolding emits_def
proof
  fix s
  obtain r t where ms: "m s = (r, t)" by (cases "m s")
  have 1: "count_ev P (hist t) \<le> count_ev P (hist s) + n"
    using assms(1) ms unfolding emits_def by (metis snd_conv)
  show "count_ev P (hist (snd (perform m f s))) \<le> count_ev P (hist s) + (n + k)"
  proof (cases r)
    case (Ok x)
    have "count_ev P (hist (snd (f x t))) \<le> count_ev P (hist t) + k"
      using assms(2) unfolding emits_def by blast
    with 1 ms Ok show ?thesis by (simp add: perform_def)
  qed (use 1 ms in \<open>simp add: perform_def\<close>)
qed

lemma emits_mono: "emits P n m \<Longrightarrow> n \<le> k \<Longrightarrow> emits P k m"
  unfolding emits_def by (meson add_left_mono le_trans)

text \<open>What is allowed by the footprint only is not counted.\<close>
lemma emits_foot:
  assumes "foot A m" and "\<And>e. quiet e \<or> p_ev A e \<Longrightarrow> \<not> P e"
  shows "emits P 0 m"
  unfolding emits_def
proof
  fix s
  obtain r s' where ms: "m s = (r, s')" by (cases "m s")
  from foot_hist [OF assms(1) ms] obtain new where "hist s' = new @ hist s" "\<forall>e \<in> set new. quiet e \<or> p_ev A e"
    by (auto simp: extends_by_def)
  with assms(2) have "count_ev P (hist s') = count_ev P (hist s)"
    by (auto simp: count_ev_def filter_empty_conv)
  with ms show "count_ev P (hist (snd (m s))) \<le> count_ev P (hist s) + 0" by simp
qed

lemma emits_zk_write: "emits (\<lambda>e. case e of EvZkWrite w r \<Rightarrow> True | _ \<Rightarrow> False) 1 (zk_write E w)"
  by (auto simp: emits_def zk_write_def comp_defs record_event_def count_ev_def)


definition is_write :: "event \<Rightarrow> bool" where
  "is_write e = (case e of EvZkWrite w r \<Rightarrow> True | _ \<Rightarrow> False)"

lemma emits_ret: "emits P n (ret x)" and emits_gets: "emits P n (gets f)"
  by (simp_all add: emits_def ret_def gets_def)

lemma emits_retry:
  assumes "emits P 1 operation"
  shows "emits P (Suc n) (retry E n operation)"
proof (induction n)
  case 0
  have "emits P (1 + 0) (retry E 0 operation)"
    unfolding retry.simps by (rule emits_perform [OF assms]) (simp add: emits_ret split: prod.split)
  then show ?case by simp
next
  case (Suc n)
  have again: "emits P (Suc n) (perform (gets (\<lambda>s. e_backoff E (hist s))) (\<lambda>more.
       if more then retry E n operation else ret r))" for r
  proof -
    have "emits P (0 + Suc n) (perform (gets (\<lambda>s. e_backoff E (hist s))) (\<lambda>more.
       if more then retry E n operation else ret r))"
      by (rule emits_perform [OF emits_gets]) (simp add: Suc.IH emits_ret)
    then show ?thesis by simp
  qed
  have "emits P (1 + Suc n) (retry E (Suc n) operation)"
    unfolding retry.simps
    by (rule emits_perform [OF assms]) (simp add: again emits_ret split: prod.split)
  then show ?case by simp
qed

text \<open>
  C33 A retried write reaches the server at most \<open>BackoffMaxRetries + 1\<close> times, whatever the server answers
  and whatever happens to the session in between.
\<close>
theorem writes_bounded:
  "emits is_write (Suc (zc_BackoffMaxRetries (c_Zookeeper C))) (retryRequest E C (zk_write E w))"
proof -
  let ?code = "andThen (handleEvents E) (zk_write E w)"
  have 0: "emits is_write 0 m" if "foot nothing m" for m :: "'x M"
    using that by (rule emits_foot) (auto simp: is_write_def nothing_def split: event.splits)
  have w: "emits is_write 1 (zk_write E w)"
    using emits_zk_write [of E w] by (simp add: is_write_def [abs_def])
  have "emits is_write (0 + 1) (perform (handleEvents E) (\<lambda>x. zk_write E w))"
    by (rule emits_perform [OF 0 w]) (rule foot_intros)
  then have "emits is_write (1 + 0) (retryRequestInternal E ?code)"
    unfolding retryRequestInternal_def andThen_def
    by (intro emits_perform 0) (auto intro!: foot_intros)
  then show ?thesis unfolding retryRequest_def by (intro emits_retry) simp
qed

section \<open>The session as a state machine\<close>

text \<open>
  The specification: a session is live, in its grace period (the close timer runs) or off. The
  refinement: the fields of the client follow it.
\<close>

datatype session_phase = Off | Live | Grace

fun next_phase :: "session_phase \<Rightarrow> session_event \<Rightarrow> session_phase" where
  "next_phase ph HasSession = Live"
| "next_phase ph NoSession = (if ph = Live then Grace else ph)"
| "next_phase ph TimerFired = (if ph = Grace then Off else ph)"

definition phase_of :: "zk_state \<Rightarrow> session_phase" where
  "phase_of z = (if \<not> z_isConnected z then Off
     else if z_closeTimer z = NoTimer then Live else Grace)"

definition session_wf :: "zk_state \<Rightarrow> bool" where
  "session_wf z \<longleftrightarrow> (z_isConnected z \<longrightarrow> z_closeTimer z \<noteq> Fired)"

inductive session_step :: "zk_state \<Rightarrow> session_event \<Rightarrow> zk_state \<Rightarrow> bool" where
  "handleSessionEvent ev s = (Ok (), s') \<Longrightarrow> session_step (zk s) ev (zk s')"

inductive session_run :: "zk_state \<Rightarrow> session_event list \<Rightarrow> zk_state \<Rightarrow> bool" where
  start: "session_run z [] z"
| step: "session_run z tr z1 \<Longrightarrow> session_step z1 ev z2 \<Longrightarrow> session_run z (tr @ [ev]) z2"

inductive_cases session_stepE: "session_step z ev z'"

lemma session_step_phase:
  assumes "session_step z ev z'" and "session_wf z"
  shows "phase_of z' = next_phase (phase_of z) ev \<and> session_wf z'"
proof -
  obtain s s' where "z = zk s" "z' = zk s'" "handleSessionEvent ev s = (Ok (), s')"
    using assms(1) by (auto elim: session_stepE)
  with assms(2) show ?thesis
    by (cases ev; cases "z_closeTimer (zk s)") (auto simp: upd_zk_def handleCritical_def comp_defs phase_of_def session_wf_def
        split: if_splits timer.splits)
qed

text \<open>
  C16 The session's state machine: after any sequence of session events and expiries of the close
  timer, the fields of the client are in the phase of the specification (live, grace period, off).
\<close>
theorem session_refines_spec:
  assumes "session_run fresh_zk trace z"
  shows "phase_of z = foldl next_phase Off trace"
proof -
  have "phase_of z = foldl next_phase (phase_of z0) trace \<and> session_wf z"
    if "session_run z0 trace z" and "session_wf z0" for z0
    using that by (induction rule: session_run.induct) (auto dest: session_step_phase)
  from this [OF assms] show ?thesis by (simp add: phase_of_def session_wf_def fresh_zk_def)
qed

theorem session_refines_spec_witness:
  "\<exists>z. session_run fresh_zk [HasSession, NoSession, TimerFired] z \<and> phase_of z = Off"
proof -
  let ?s = "\<lambda>z. sample_state\<lparr>zk := z\<rparr>"
  let ?z1 = "fresh_zk\<lparr>z_isConnected := True\<rparr>" and ?z2 = "fresh_zk\<lparr>z_isConnected := True, z_closeTimer := Armed\<rparr>"
  let ?z3 = "fresh_zk\<lparr>z_isConnected := False, z_closeTimer := Fired\<rparr>"
  note run = upd_zk_def modify_def fresh_zk_def comp_defs
  have "session_step fresh_zk HasSession ?z1"
    using session_step.intros [of HasSession "?s fresh_zk" "?s ?z1"] by (simp add: run)
  moreover have "session_step ?z1 NoSession ?z2"
    using session_step.intros [of NoSession "?s ?z1" "?s ?z2"] by (simp add: run)
  moreover have "session_step ?z2 TimerFired ?z3"
    using session_step.intros [of TimerFired "?s ?z2" "?s ?z3"] by (simp add: run)
  ultimately have "session_run fresh_zk ((([] @ [HasSession]) @ [NoSession]) @ [TimerFired]) ?z3"
    by - (rule session_run.step, rule session_run.step, rule session_run.step, rule session_run.start, assumption+)
  then have "session_run fresh_zk [HasSession, NoSession, TimerFired] ?z3" by simp
  with session_refines_spec [OF this] show ?thesis by (intro exI [of _ ?z3]) simp
qed

text \<open>Losing the session empties the cache of held locks.\<close>
lemma session_loss_drops_locks:
  "handleSessionEvent NoSession s = (Ok (), s\<lparr>zk := (zk s)\<lparr>z_lockHeld := Map.empty,
     z_closeTimer := (if z_closeTimer (zk s) = NoTimer then Armed else z_closeTimer (zk s))\<rparr>\<rparr>)"
  by (simp add: upd_zk_def modify_def)

end
