(* ===== verification/ZkServer.thy ===== *)
theory ZkServer
  imports ZkLaws
begin

text \<open>
  What rdsync relies on of a ZooKeeper server, as hypotheses on the environment (locale
  \<open>zk_server\<close>): the server keeps a tree of nodes, a request succeeds or fails as the documentation
  of ZooKeeper says, and nothing interrupts the session. Under them the operations of zk.go are a
  key-value store (locale \<open>dcs_store\<close>): the store reads what was written, and the lock is exclusive.
  \<open>server_env\<close> is an environment with such a server.
\<close>

section \<open>The tree of the server\<close>

type_synonym ztree = "string \<rightharpoonup> doc \<times> int \<times> bool"

fun apply_write :: "zkwrite \<Rightarrow> ztree \<Rightarrow> ztree" where
  "apply_write (ZCreate p d eph) T = T(p \<mapsto> (d, 0, eph))"
| "apply_write (ZSet p d v) T = (case T p of None \<Rightarrow> T | Some (d', v', eph) \<Rightarrow> T(p \<mapsto> (d, v' + 1, eph)))"
| "apply_write (ZDelete p v) T = T(p := None)"

text \<open>The tree after a history (newest event first), from the tree it started with.\<close>
fun zk_tree :: "ztree \<Rightarrow> history \<Rightarrow> ztree" where
  "zk_tree B [] = B"
| "zk_tree B (EvZkWrite w None # h) = apply_write w (zk_tree B h)"
| "zk_tree B (e # h) = zk_tree B h"

definition parent_of :: "string \<Rightarrow> string" where
  "parent_of p = str_join [sep] (butlast (str_split sep p))"

text \<open>The answers of the server, by the tree.\<close>

definition server_get :: "ztree \<Rightarrow> string \<Rightarrow> goerr + (doc \<times> int \<times> bool)" where
  "server_get T p = (case T p of None \<Rightarrow> Inl ZkNoNode | Some x \<Rightarrow> Inr x)"

fun server_write :: "ztree \<Rightarrow> zkwrite \<Rightarrow> goerr option" where
  "server_write T (ZCreate p d eph) =
     (if T p \<noteq> None then Some ZkNodeExists
      else if parent_of p \<noteq> [] \<and> T (parent_of p) = None then Some ZkNoNode else None)"
| "server_write T (ZSet p d v) = (case T p of None \<Rightarrow> Some ZkNoNode
     | Some (d', v', eph) \<Rightarrow> if v = v' then None else Some (Raw ''zk: version conflict''))"
| "server_write T (ZDelete p v) = (case T p of None \<Rightarrow> Some ZkNoNode
     | Some (d', v', eph) \<Rightarrow> if v = v' then None else Some (Raw ''zk: version conflict''))"

text \<open>A namespace in normal form, and a key of one component.\<close>

definition plain :: "string \<Rightarrow> bool" where
  "plain k \<longleftrightarrow> k \<noteq> [] \<and> sep \<notin> set k"

definition normal_ns :: "string \<Rightarrow> bool" where
  "normal_ns ns \<longleftrightarrow> (case str_split sep ns of
     x # parts \<Rightarrow> x = [] \<and> parts \<noteq> [] \<and> list_all plain parts | [] \<Rightarrow> False)"

section \<open>Paths in normal form\<close>

lemma no_double_squeeze_id: "no_double s \<Longrightarrow> squeeze s = s"
proof -
  have "no_double (p # cs) \<Longrightarrow> squeeze_after p cs = cs" for p cs
    by (induction cs arbitrary: p) (auto simp: no_double_Cons)
  then show "no_double s \<Longrightarrow> squeeze s = s" by (cases s) auto
qed

lemma split_snoc: "sep \<notin> set k \<Longrightarrow> str_split sep (p @ sep # k) = str_split sep p @ [k]"
  by (induction p) (auto simp: str_split_one split: list.splits)


text \<open>Paths written as their parts, each with its separator in front.\<close>
definition slashes :: "string list \<Rightarrow> string" where
  "slashes parts = concat (map (\<lambda>p. sep # p) parts)"

lemma slashes_simps [simp]:
  "slashes [] = []" "slashes (p # ps) = sep # p @ slashes ps" "slashes (ps @ qs) = slashes ps @ slashes qs"
  by (simp_all add: slashes_def)

lemma join_slashes: "str_join [sep] (x # parts) = x @ slashes parts"
  by (induction parts arbitrary: x) auto

lemma normal_nsE:
  assumes "normal_ns ns"
  obtains parts where "ns = slashes parts" and "parts \<noteq> []" and "list_all plain parts"
proof (cases "str_split sep ns")
  case (Cons x parts)
  with assms have "x = []" "parts \<noteq> []" "list_all plain parts" by (simp_all add: normal_ns_def)
  moreover from Cons have "ns = str_join [sep] (x # parts)" by (metis str_join_split)
  ultimately show thesis by (intro that) (simp_all add: join_slashes)
qed simp

lemma no_double_short [simp]: "no_double []" "no_double [a]"
  by (simp_all add: no_double_def)

lemma no_double_append: "sep \<notin> set p \<Longrightarrow> p \<noteq> [] \<Longrightarrow> no_double rest \<Longrightarrow> no_double (p @ rest)"
proof (induction p)
  case (Cons a p)
  show ?case
  proof (cases p)
    case Nil
    with Cons.prems show ?thesis by (cases rest) (auto simp: no_double_Cons)
  next
    case (Cons b q)
    with Cons.prems Cons.IH show ?thesis by (auto simp: no_double_Cons)
  qed
qed simp

lemma no_double_slashes: "list_all plain parts \<Longrightarrow> no_double (slashes parts)"
proof (induction parts)
  case (Cons p parts)
  then have "no_double (p @ slashes parts)" "p \<noteq> []" "sep \<notin> set p"
    by (auto simp: plain_def intro: no_double_append)
  then show ?case by (cases p) (auto simp: no_double_Cons)
qed (simp add: no_double_def)

lemma split_slashes: "list_all plain parts \<Longrightarrow> str_split sep (p @ slashes parts) = str_split sep p @ parts"
  by (induction parts rule: rev_induct) (auto simp: plain_def split_snoc simp flip: append_assoc)

lemma fullPath_plain:
  assumes "normal_ns (zc_Namespace (c_Zookeeper C))" and "plain k"
  shows "fullPath C k = zc_Namespace (c_Zookeeper C) @ sep # k"
proof -
  obtain parts where p: "zc_Namespace (c_Zookeeper C) = slashes parts" "list_all plain parts"
    using assms(1) by (auto elim: normal_nsE)
  have "no_double (slashes (parts @ [k]))"
    using p assms(2) by (intro no_double_slashes) simp
  then have "squeeze (slashes (parts @ [k])) = slashes (parts @ [k])" by (rule no_double_squeeze_id)
  moreover have "last (slashes (parts @ [k])) \<noteq> sep"
    using assms(2) by (auto simp: plain_def dest: last_in_set)
  ultimately show ?thesis
    by (simp add: fullPath_def fullPath_squeeze JoinPath_def p strip_sep_def)
qed

lemma parent_plain: "plain k \<Longrightarrow> parent_of (ns @ sep # k) = ns"
  by (simp add: parent_of_def plain_def split_snoc butlast_append str_join_split)

lemma path_prefixes_last:
  "list_all plain parts \<Longrightarrow> parts \<noteq> [] \<Longrightarrow>
   path_prefixes base parts \<noteq> [] \<and> last (path_prefixes base parts) = base @ slashes parts"
proof (induction parts arbitrary: base)
  case (Cons p parts)
  show ?case
  proof (cases "parts = []")
    case True
    with Cons.prems show ?thesis by (simp add: JoinPath_def plain_def Let_def)
  next
    case False
    with Cons.IH [of "base @ sep # p"] Cons.prems show ?thesis
      by (simp add: JoinPath_def plain_def Let_def)
  qed
qed simp

lemma ns_prefixes:
  assumes "normal_ns ns"
  obtains ps where "rev (path_prefixes [] (str_split sep ns)) = ns # ps"
proof -
  obtain parts where p: "ns = slashes parts" "list_all plain parts" "parts \<noteq> []"
    using assms by (auto elim: normal_nsE)
  have "str_split sep ns = [] # parts" using split_slashes [OF p(2), of "[]"] p(1) by simp
  then have "path_prefixes [] (str_split sep ns) = path_prefixes [] parts" by simp
  moreover obtain ys y where "path_prefixes [] parts = ys @ [y]"
    using path_prefixes_last [OF p(2,3), of "[]"] by (metis append_butlast_last_id)
  ultimately show thesis
    using path_prefixes_last [OF p(2,3), of "[]"] p(1) that [of "rev ys"] by simp
qed

section \<open>The store\<close>

text \<open>The interface the application relies on: reading what was written.\<close>

locale dcs_store =
  fixes get :: "string \<Rightarrow> (goerr + doc) M" and put :: "string \<Rightarrow> doc \<Rightarrow> goerr option M"
    and remove :: "string \<Rightarrow> goerr option M"
    and key :: "string \<Rightarrow> bool" and ready :: "st \<Rightarrow> bool" and content :: "st \<Rightarrow> string \<Rightarrow> doc option"
  assumes get_run: "ready s \<Longrightarrow> key k \<Longrightarrow>
      \<exists>s'. get k s = (Ok (case content s k of None \<Rightarrow> Inl ErrNotFound | Some d \<Rightarrow> Inr d), s') \<and>
        ready s' \<and> content s' = content s"
    and put_run: "ready s \<Longrightarrow> key k \<Longrightarrow>
      \<exists>s'. put k d s = (Ok None, s') \<and> ready s' \<and>
        (\<forall>k'. key k' \<longrightarrow> content s' k' = ((content s)(k \<mapsto> d)) k')"
    and remove_run: "ready s \<Longrightarrow> key k \<Longrightarrow>
      \<exists>s'. remove k s = (Ok None, s') \<and> ready s' \<and>
        (\<forall>k'. key k' \<longrightarrow> content s' k' = ((content s)(k := None)) k')"
begin

lemma put_get:
  assumes "ready s" and "key k"
  shows "\<exists>s'. perform (put k d) (\<lambda>e. get k) s = (Ok (Inr d), s')"
proof -
  obtain s1 where "put k d s = (Ok None, s1)" "ready s1" "content s1 k = Some d"
    using put_run [OF assms] assms(2) by fastforce
  with get_run [OF this(2) assms(2)] show ?thesis by (auto simp: perform_def)
qed

text \<open>Moving a document: remove it at one key, store its successor at another.\<close>
lemma remove_put:
  assumes "ready s" and "key k" and "key k'" and "k \<noteq> k'"
  shows "\<exists>s'. checked (remove k) (put k' d) s = (Ok None, s') \<and> ready s' \<and>
    (\<forall>j. key j \<longrightarrow> content s' j = ((content s)(k := None, k' \<mapsto> d)) j)"
proof -
  obtain s1 where 1: "remove k s = (Ok None, s1)" "ready s1"
      "\<forall>j. key j \<longrightarrow> content s1 j = ((content s)(k := None)) j"
    using remove_run [OF assms(1,2)] by blast
  obtain s2 where 2: "put k' d s1 = (Ok None, s2)" "ready s2"
      "\<forall>j. key j \<longrightarrow> content s2 j = ((content s1)(k' \<mapsto> d)) j"
    using put_run [OF 1(2) assms(3)] by blast
  have "checked (remove k) (put k' d) s = (Ok None, s2)"
    using 1(1) 2(1) by (simp add: checked_def perform_def)
  with 1(3) 2(2,3) show ?thesis by auto
qed

end


section \<open>What does not write\<close>

lemma zk_tree_other: "(\<And>w r. e \<noteq> EvZkWrite w r) \<Longrightarrow> zk_tree B (e # h) = zk_tree B h"
  by (cases e) auto

lemma zk_tree_quiet: "\<forall>e \<in> set new. quiet e \<Longrightarrow> zk_tree B (new @ h) = zk_tree B h"
proof (induction new)
  case (Cons e new)
  then have "zk_tree B (e # new @ h) = zk_tree B (new @ h)" by (intro zk_tree_other) auto
  with Cons show ?case by simp
qed simp

definition tree_of :: "ztree \<Rightarrow> st \<Rightarrow> ztree" where "tree_of B s = zk_tree B (hist s)"

text \<open>What leaves the outside alone leaves the tree alone.\<close>
lemma tree_of_foot:
  assumes "foot nothing m"
  shows "tree_of B (snd (m s)) = tree_of B s"
proof -
  have "extends_by (p_ev nothing) (hist s) (hist (snd (m s)))"
    by (rule foot_hist [OF assms, of s "fst (m s)"]) simp
  then show ?thesis by (auto simp: tree_of_def extends_by_def nothing_def zk_tree_quiet)
qed

section \<open>The hypotheses on the server\<close>

definition stored :: "Config \<Rightarrow> ztree \<Rightarrow> st \<Rightarrow> string \<Rightarrow> doc option" where
  "stored C B s k = map_option fst (tree_of B s (fullPath C k))"

abbreviation root_of :: "Config \<Rightarrow> string" where
  "root_of C \<equiv> zc_Namespace (c_Zookeeper C)"

text \<open>The namespace is in normal form and its node is there.\<close>
definition usable :: "Config \<Rightarrow> ztree \<Rightarrow> st \<Rightarrow> bool" where
  "usable C B s \<longleftrightarrow> normal_ns (root_of C) \<and>
     tree_of B s (root_of C) \<noteq> None"

section \<open>Keys\<close>

lemma path_of_key:
  "usable C B s \<Longrightarrow> plain k \<Longrightarrow> fullPath C k = root_of C @ sep # k"
  unfolding usable_def by (simp add: fullPath_plain)

lemma key_inj: "usable C B s \<Longrightarrow> plain k \<Longrightarrow> plain k' \<Longrightarrow> fullPath C k = fullPath C k' \<longleftrightarrow> k = k'"
  by (simp add: path_of_key)

lemma key_not_ns: "usable C B s \<Longrightarrow> plain k \<Longrightarrow> fullPath C k \<noteq> root_of C"
  by (simp add: path_of_key)

locale zk_server =
  fixes E :: env and B :: ztree
  assumes server_get: "e_zk_get E h p = server_get (zk_tree B h) p"
    and server_write: "e_zk_write E h w = server_write (zk_tree B h) w"
    and no_session_event: "e_session E h = []"
begin

lemma events_run: "handleEvents E s = (Ok [], s\<lparr>hist := EvSession [] # hist s\<rparr>)"
  by (simp add: handleEvents_def comp_defs record_event_def no_session_event)

lemma retry_done:
  assumes "operation s = (Ok (r, False), s')"
  shows "retry E n operation s = (Ok r, s')"
  using assms by (cases n) (simp_all add: perform_def ret_def)

text \<open>A request is answered at the first attempt.\<close>
lemma request_run:
  assumes "code (s\<lparr>hist := EvSession [] # hist s\<rparr>) = (Ok r, s')"
    and "\<And>e. r = Inl e \<Longrightarrow> \<not> err_is e ZkConnectionClosed"
  shows "retryRequest E C code s = (Ok r, s')"
proof -
  have "retryRequestInternal E (andThen (handleEvents E) code) s = (Ok (r, False), s')"
    using assms by (cases r) (simp_all add: retryRequestInternal_def andThen_def perform_def events_run ret_def)
  then show ?thesis unfolding retryRequest_def by (rule retry_done)
qed

lemma get_run:
  "retryGet E C p s = (Ok (server_get (tree_of B s) p), s\<lparr>hist := EvZkRead p # EvSession [] # hist s\<rparr>)"
  unfolding retryGet_def
  by (rule request_run)
    (auto simp: zk_read_node_def comp_defs record_event_def server_get ZkServer.server_get_def tree_of_def
      split: option.splits)

lemma write_error: "server_write T w = Some e \<Longrightarrow> \<not> err_is e ZkConnectionClosed"
  by (cases w) (auto split: if_splits option.splits)

definition wrote :: "zkwrite \<Rightarrow> st \<Rightarrow> st" where
  "wrote w s = s\<lparr>hist := EvZkWrite w (server_write (tree_of B s) w) # EvSession [] # hist s\<rparr>"

lemma write_run:
  "retryRequest E C (zk_write E w) s =
     (Ok (case server_write (tree_of B s) w of None \<Rightarrow> Inr () | Some e \<Rightarrow> Inl e), wrote w s)"
  by (rule request_run)
    (auto simp: zk_write_def comp_defs record_event_def server_write tree_of_def wrote_def
      dest: write_error split: option.splits)

lemma tree_wrote:
  "tree_of B (wrote w s) = (if server_write (tree_of B s) w = None then apply_write w (tree_of B s) else tree_of B s)"
  by (simp add: tree_of_def wrote_def split: option.split) (cases "server_write (zk_tree B (hist s)) w", auto)

lemma tree_read [simp]: "tree_of B (s\<lparr>hist := EvZkRead p # EvSession [] # hist s\<rparr>) = tree_of B s"
  by (simp add: tree_of_def)


lemma dcs_get_run:
  "\<exists>s'. dcs_Get E C f k s = (Ok (case stored C B s k of None \<Rightarrow> Inl ErrNotFound
       | Some d \<Rightarrow> (case f d of None \<Rightarrow> Inl ErrMalformed | Some x \<Rightarrow> Inr x)), s') \<and>
     tree_of B s' = tree_of B s"
  by (rule exI [of _ "s\<lparr>hist := EvZkRead (fullPath C k) # EvSession [] # hist s\<rparr>"])
    (auto simp: dcs_Get_def perform_def get_run ret_def ZkServer.server_get_def stored_def split: option.splits)

lemma delete_stored:
  "usable C B s \<Longrightarrow> plain k \<Longrightarrow> plain k' \<Longrightarrow> map_option fst (((tree_of B s)(fullPath C k := None)) (fullPath C k')) =
    ((stored C B s)(k := None)) k'"
  by (auto simp: stored_def key_inj)

lemma dcs_delete_run:
  assumes "usable C B s" and "plain k"
  shows "\<exists>s'. dcs_Delete E C k s = (Ok None, s') \<and> usable C B s' \<and>
    (\<forall>k'. plain k' \<longrightarrow> stored C B s' k' = ((stored C B s)(k := None)) k')"
proof -
  let ?p = "fullPath C k" and ?s = "s\<lparr>hist := EvZkRead (fullPath C k) # EvSession [] # hist s\<rparr>"
  show ?thesis
  proof (cases "tree_of B s ?p")
    case None
    then have "dcs_Delete E C k s = (Ok None, ?s)"
      by (simp add: dcs_Delete_def perform_def get_run ret_def ZkServer.server_get_def Let_def)
    moreover have "usable C B ?s" "\<forall>k'. plain k' \<longrightarrow> stored C B ?s k' = ((stored C B s)(k := None)) k'"
      using assms None by (auto simp: usable_def stored_def key_inj)
    ultimately show ?thesis by blast
  next
    case (Some x)
    obtain d v eph where x: "x = (d, v, eph)" by (cases x)
    let ?w = "ZDelete ?p v"
    have ok: "server_write (tree_of B ?s) ?w = None" using Some x by simp
    have "dcs_Delete E C k s = (Ok None, wrote ?w ?s)"
      using Some x ok write_run [where w = ?w and s = ?s]
      by (simp add: dcs_Delete_def perform_def get_run ret_def ZkServer.server_get_def Let_def err_of_def retryDelete_def)
    moreover have "tree_of B (wrote ?w ?s) = (tree_of B s)(?p := None)" using ok by (simp add: tree_wrote)
    ultimately show ?thesis
      using assms key_not_ns [OF assms] delete_stored [OF assms]
      by (intro exI [of _ "wrote ?w ?s"]) (auto simp: usable_def stored_def)
  qed
qed

lemma make_parent:
  assumes "usable C B s"
  shows "makePath E C (root_of C) s = (Ok None, s\<lparr>hist := EvZkRead (root_of C) # EvSession [] # hist s\<rparr>)"
proof -
  obtain ps where "rev (path_prefixes [] (str_split sep (root_of C))) = root_of C # ps"
    using assms unfolding usable_def by (blast elim: ns_prefixes)
  moreover obtain x where "tree_of B s (root_of C) = Some x" using assms by (auto simp: usable_def)
  ultimately show ?thesis
    by (simp add: makePath_def attempt_err_def perform_def get_run ret_def ZkServer.server_get_def)
qed

lemma set_stored:
  "usable C B s \<Longrightarrow> plain k \<Longrightarrow> plain k' \<Longrightarrow> map_option fst (((tree_of B s)(fullPath C k \<mapsto> (d, v, eph))) (fullPath C k')) =
    ((stored C B s)(k \<mapsto> d)) k'"
  by (auto simp: stored_def key_inj)

lemma dcs_set_run:
  assumes "usable C B s" and "plain k"
  shows "\<exists>s'. dcs_Set E C k d s = (Ok None, s') \<and> usable C B s' \<and>
    (\<forall>k'. plain k' \<longrightarrow> stored C B s' k' = ((stored C B s)(k \<mapsto> d)) k')"
proof -
  let ?p = "fullPath C k" and ?s = "s\<lparr>hist := EvZkRead (fullPath C k) # EvSession [] # hist s\<rparr>"
  have us: "usable C B ?s" using assms(1) by (simp add: usable_def)
  show ?thesis
  proof (cases "tree_of B s ?p")
    case None
    let ?s2 = "?s\<lparr>hist := EvZkRead (root_of C) # EvSession [] # hist ?s\<rparr>" and ?w = "ZCreate ?p d False"
    have t2: "tree_of B ?s2 = tree_of B s" by (simp add: tree_of_def)
    have parent: "str_join [sep] (butlast (str_split sep ?p)) = root_of C"
      using parent_plain [OF assms(2), of "root_of C"] by (simp add: path_of_key [OF assms] parent_of_def)
    have ok: "server_write (tree_of B ?s2) ?w = None"
      using None assms parent t2 by (simp add: usable_def parent_of_def)
    have "dcs_Set E C k d s = (Ok None, wrote ?w ?s2)"
      using None make_parent [OF us] parent ok write_run [where w = ?w and s = ?s2]
      by (simp add: dcs_Set_def dcs_set_def perform_def get_run ret_def ZkServer.server_get_def Let_def
          checked_def err_of_def retryCreate_def)
    moreover have "tree_of B (wrote ?w ?s2) = (tree_of B s)(?p \<mapsto> (d, 0, False))"
      unfolding tree_wrote ok using t2 by simp
    ultimately show ?thesis
      using assms key_not_ns [OF assms] set_stored [OF assms]
      by (intro exI [of _ "wrote ?w ?s2"]) (auto simp: usable_def stored_def)
  next
    case (Some x)
    obtain d' v eph where x: "x = (d', v, eph)" by (cases x)
    let ?w = "ZSet ?p d v"
    have ok: "server_write (tree_of B ?s) ?w = None" using Some x by simp
    have "dcs_Set E C k d s = (Ok None, wrote ?w ?s)"
      using Some x ok write_run [where w = ?w and s = ?s]
      by (simp add: dcs_Set_def dcs_set_def perform_def get_run ret_def ZkServer.server_get_def Let_def err_of_def retrySet_def)
    moreover have "tree_of B (wrote ?w ?s) = (tree_of B s)(?p \<mapsto> (d, v + 1, eph))"
      using ok Some x by (simp add: tree_wrote)
    ultimately show ?thesis
      using assms key_not_ns [OF assms] set_stored [OF assms]
      by (intro exI [of _ "wrote ?w ?s"]) (auto simp: usable_def stored_def)
  qed
qed

lemma dcs_create_run:
  assumes "usable C B s" and "plain k"
  shows "\<exists>s'. dcs_Create E C k d s = (Ok (if stored C B s k = None then None else Some ErrExists), s') \<and>
    usable C B s' \<and> (\<forall>k'. plain k' \<longrightarrow> stored C B s' k' =
      (if stored C B s k = None then (stored C B s)(k \<mapsto> d) else stored C B s) k')"
proof -
  let ?p = "fullPath C k" and ?w = "ZCreate (fullPath C k) d False"
  have ok: "server_write (tree_of B s) ?w = (if stored C B s k = None then None else Some ZkNodeExists)"
    using assms parent_plain by (auto simp: stored_def usable_def path_of_key [OF assms])
  have "dcs_Create E C k d s = (Ok (if stored C B s k = None then None else Some ErrExists), wrote ?w s)"
    using ok write_run [where w = ?w and s = s]
    by (simp add: dcs_Create_def dcs_create_def perform_def ret_def retryCreate_def)
  moreover have "tree_of B (wrote ?w s) =
      (if stored C B s k = None then (tree_of B s)(?p \<mapsto> (d, 0, False)) else tree_of B s)"
    using ok by (simp add: tree_wrote)
  ultimately show ?thesis
    using assms key_not_ns [OF assms] set_stored [OF assms]
    by (intro exI [of _ "wrote ?w s"]) (auto simp: usable_def stored_def)
qed

lemma store_lock_run:
  "\<exists>s'. store_lock E p s = (Ok True, s') \<and> tree_of B s' = tree_of B s"
  by (simp add: store_lock_def now_def upd_zk_def comp_defs record_event_def tree_of_def)

text \<open>The lock: taken when it is free or one's own.\<close>
lemma AcquireLock_run:
  assumes "usable C B s" and "plain k" and "z_lockHeld (zk s) (fullPath C k) = None"
  shows "\<exists>locked s'. AcquireLock E C k s = (Ok locked, s') \<and> usable C B s' \<and>
    (locked \<longleftrightarrow> stored C B s k = None \<or>
      (\<exists>d. stored C B s k = Some d \<and> as_owner d = Some (getSelfLockOwner E C))) \<and>
    (\<exists>d. stored C B s' k = Some d \<and> (locked \<longleftrightarrow> as_owner d = Some (getSelfLockOwner E C)))"
proof -
  let ?p = "fullPath C k" and ?s1 = "s\<lparr>hist := EvSession [] # hist s\<rparr>"
  let ?s2 = "s\<lparr>hist := EvZkRead ?p # EvSession [] # EvSession [] # hist s\<rparr>"
  have start: "AcquireLock E C k s = AcquireLock_server E C ?p ?s1"
    using assms(3) by (simp add: AcquireLock_def Let_def andThen_def perform_def events_run gets_def)
  have t: "tree_of B ?s1 = tree_of B s" "tree_of B ?s2 = tree_of B s" by (simp_all add: tree_of_def)
  note run = start AcquireLock_server_def Let_def perform_def ret_def ZkServer.server_get_def retryCreate_def
    store_lock_def now_def upd_zk_def comp_defs record_event_def
  show ?thesis
  proof (cases "tree_of B s ?p")
    case None
    let ?w = "ZCreate ?p (JOwner (getSelfLockOwner E C)) True"
    have "parent_of ?p = root_of C" using parent_plain assms(1,2) by (simp add: path_of_key)
    then have ok: "server_write (tree_of B ?s2) ?w = None" using None assms(1) t by (simp add: usable_def)
    obtain s' where s': "AcquireLock E C k s = (Ok True, s')" "tree_of B s' = tree_of B (wrote ?w ?s2)"
      using ok None t get_run [where p = ?p and s = ?s1] write_run [where w = ?w and s = ?s2]
      by (simp add: run tree_of_def)
    from s'(2) have t': "tree_of B s' = (tree_of B s)(?p \<mapsto> (JOwner (getSelfLockOwner E C), 0, True))"
      using ok t by (simp add: tree_wrote)
    show ?thesis
      using None assms(1) key_not_ns [OF assms(1,2)] s'(1)
      by (intro exI [of _ True] exI [of _ s']) (auto simp: stored_def usable_def t')
  next
    case (Some x)
    obtain d v eph where x: "x = (d, v, eph)" by (cases x)
    let ?own = "as_owner d = Some (getSelfLockOwner E C)"
    have "AcquireLock E C k s = (if ?own then store_lock E ?p else ret False) ?s2"
      using Some x t get_run [where p = ?p and s = ?s1]
      by (cases "as_owner d") (simp_all add: start AcquireLock_server_def Let_def perform_def ZkServer.server_get_def)
    with store_lock_run [of ?p ?s2] t obtain s' where
        "AcquireLock E C k s = (Ok ?own, s')" "tree_of B s' = tree_of B s"
      by (cases ?own) (auto simp: ret_def)
    then show ?thesis using Some x assms(1)
      by (intro exI [of _ ?own] exI [of _ s']) (auto simp: stored_def usable_def)
  qed
qed

end

sublocale zk_server \<subseteq> store: dcs_store "dcs_Get E C Some" "dcs_Set E C" "dcs_Delete E C" plain
    "usable C B" "stored C B" for C
proof
  fix s k assume "usable C B s"
  moreover obtain s' where "dcs_Get E C Some k s =
        (Ok (case stored C B s k of None \<Rightarrow> Inl ErrNotFound | Some d \<Rightarrow> Inr d), s')"
      "tree_of B s' = tree_of B s"
    using dcs_get_run [of C Some k s] by (auto split: option.splits)
  ultimately show "\<exists>s'. dcs_Get E C Some k s =
      (Ok (case stored C B s k of None \<Rightarrow> Inl ErrNotFound | Some d \<Rightarrow> Inr d), s') \<and>
      usable C B s' \<and> stored C B s' = stored C B s"
    by (intro exI [of _ s']) (auto simp: usable_def stored_def fun_eq_iff)
qed (use dcs_set_run dcs_delete_run in blast)+

section \<open>A server\<close>

text \<open>
  The environments with such a server, whatever the rest of it: \<open>with_server\<close> sets the answers of
  ZooKeeper.
\<close>
definition with_server :: "ztree \<Rightarrow> env \<Rightarrow> env" where
  "with_server B E = E\<lparr>e_zk_get := (\<lambda>h p. server_get (zk_tree B h) p),
     e_zk_write := (\<lambda>h w. server_write (zk_tree B h) w), e_session := (\<lambda>h. [])\<rparr>"

interpretation served: zk_server "with_server B E" B for B E
  by unfold_locales (simp_all add: with_server_def)

lemma with_server_self [simp]: "getSelfLockOwner (with_server B E) C = getSelfLockOwner E C"
  by (simp add: getSelfLockOwner_def with_server_def)

lemma usable_foot: "foot nothing m \<Longrightarrow> usable C B (snd (m s)) \<longleftrightarrow> usable C B s"
  by (simp add: usable_def tree_of_foot)

lemma stored_foot: "foot nothing m \<Longrightarrow> stored C B (snd (m s)) = stored C B s"
  by (simp add: stored_def tree_of_foot fun_eq_iff)

text \<open>
  Mutual exclusion: when one process has taken a lock, another process (of another owner, without
  a cached lock) does not get it, however much later it tries, as long as the lock's node holds what
  the first one left there, whatever else the server's tree and the environment are.
\<close>
theorem lock_exclusive:
  assumes "getSelfLockOwner E C \<noteq> getSelfLockOwner E' C'"
    and "usable C B s" and "usable C' B s'" and "plain k"
    and "z_lockHeld (zk s) (fullPath C k) = None" and "z_lockHeld (zk s') (fullPath C' k) = None"
    and "fst (AcquireLock (with_server B E) C k s) = Ok True"
    and "stored C' B s' k = stored C B (snd (AcquireLock (with_server B E) C k s)) k"
  shows "fst (AcquireLock (with_server B E') C' k s') = Ok False"
proof -
  obtain d where "stored C' B s' k = Some d" "as_owner d = Some (getSelfLockOwner E C)"
    using served.AcquireLock_run [OF assms(2,4,5), of E] assms(7,8) by auto
  with served.AcquireLock_run [OF assms(3,4,6), of E'] assms(1) show ?thesis by auto
qed

definition sample_tree :: ztree where
  "sample_tree = [''/rdsync'' \<mapsto> (JBytes [], 0, False)]"

text \<open>The process \<open>h1\<close> with pid 1 takes the manager lock; then pid 2 tries.\<close>
definition sample_locked :: st where
  "sample_locked = snd (AcquireLock (with_server sample_tree sample_env) sample_config pathManagerLock sample_state)"

theorem lock_exclusive_witness:
  "fst (AcquireLock (with_server sample_tree (sample_env\<lparr>e_pid := 2\<rparr>)) sample_config pathManagerLock
     (sample_locked\<lparr>zk := zk sample_state\<rparr>)) = Ok False"
  by (rule lock_exclusive [where B = sample_tree and E = sample_env and C = sample_config and s = sample_state])
    code_simp+

end
