(* ===== verification/SwitchoverLaws.thy ===== *)
theory SwitchoverLaws
  imports Manager Through ZkServer
begin

text \<open>
  What a switchover guarantees: a node is promoted only after the DCS names it as the master, the
  process is not in its critical section afterwards and has not lost its session inside, and what
  the operations on the switchover document leave in the store.
\<close>

section \<open>The order of a promotion\<close>

text \<open>
  The events of a run, newest first: a promoting command to a host comes after a successful write of
  the host's name to the master key.
\<close>

definition announced :: "Config \<Rightarrow> string \<Rightarrow> event list \<Rightarrow> bool" where
  "announced C host es \<longleftrightarrow> list_ex (stores C pathMasterNode (JString host)) es"

fun orderly :: "Config \<Rightarrow> event list \<Rightarrow> bool" where
  "orderly C [] = True"
| "orderly C (e # es) = ((case e of EvCmd host c r \<Rightarrow> promote_cmd c \<longrightarrow> announced C host es | _ \<Rightarrow> True)
     \<and> orderly C es)"

definition orderly_since :: "Config \<Rightarrow> history \<Rightarrow> history \<Rightarrow> bool" where
  "orderly_since C h0 h \<longleftrightarrow> (\<exists>new. h = new @ h0 \<and> orderly C new)"

definition announced_since :: "Config \<Rightarrow> string \<Rightarrow> history \<Rightarrow> history \<Rightarrow> bool" where
  "announced_since C host h0 h \<longleftrightarrow> (\<exists>new. h = new @ h0 \<and> orderly C new \<and> announced C host new)"

definition any_but :: "(string \<Rightarrow> bool) \<Rightarrow> permit" where
  "any_but P = \<lparr> p_ev = (\<lambda>e. case e of EvCmd h c r \<Rightarrow> promote_cmd c \<longrightarrow> P h | _ \<Rightarrow> True),
     p_crit = True, p_spin = True, p_link = True, p_hosts = (\<lambda>h. True) \<rparr>"

lemma orderly_cons:
  "\<not> (\<exists>h c r. e = EvCmd h c r \<and> promote_cmd c) \<Longrightarrow> orderly_since C h0 h \<Longrightarrow> orderly_since C h0 (e # h)"
  unfolding orderly_since_def by (fastforce split: event.splits)

lemma announced_cons:
  assumes "\<And>h c r. e = EvCmd h c r \<Longrightarrow> promote_cmd c \<Longrightarrow> h = host" and "announced_since C host h0 h"
  shows "announced_since C host h0 (e # h)"
proof -
  obtain new where "h = new @ h0" "orderly C new" "announced C host new"
    using assms(2) by (auto simp: announced_since_def)
  with assms(1) show ?thesis
    unfolding announced_since_def
    by (intro exI [of _ "e # new"]) (auto simp: announced_def split: event.splits)
qed

lemma announced_orderly: "announced_since C host h0 h \<Longrightarrow> orderly_since C h0 h"
  by (auto simp: announced_since_def orderly_since_def)

lemma stored_announced:
  assumes "stores C pathMasterNode (JString host) e" and "orderly_since C h0 h"
  shows "announced_since C host h0 (e # h)"
proof -
  obtain new where "h = new @ h0" "orderly C new" using assms(2) by (auto simp: orderly_since_def)
  with assms(1) show ?thesis
    unfolding announced_since_def
    by (intro exI [of _ "e # new"]) (cases e; simp add: announced_def)
qed

lemma quiet_not_promote: "quiet e \<Longrightarrow> \<not> (\<exists>h c r. e = EvCmd h c r \<and> promote_cmd c)"
proof -
  have "read_only_cmd c \<Longrightarrow> \<not> promote_cmd c" for c by (cases c) simp_all
  then show "quiet e \<Longrightarrow> ?thesis" by (cases e) auto
qed

lemma calm_any_but: "calm (any_but P) C"
  by (simp add: calm_def any_but_def host_may_def calm_cmd_def may_write_def)

lemma any_but_mays [foot_intros]:
  "senti_may (any_but P)" "may_write (any_but P) C path" "p_spin (any_but P)" "p_crit (any_but P)" "p_link (any_but P)" "p_hosts (any_but P) h'"
  by (simp_all add: any_but_def senti_may_def may_write_def)

lemma calm_keeps:
  assumes "foot (any_but (\<lambda>h. False)) m"
  shows "keeps (orderly_since C h0) m"
proof (rule keeps_foot [OF assms])
  fix e h
  assume "quiet e \<or> p_ev (any_but (\<lambda>h. False)) e" and o: "orderly_since C h0 h"
  then have "\<not> (\<exists>h c r. e = EvCmd h c r \<and> promote_cmd c)"
    using quiet_not_promote by (auto simp: any_but_def)
  then show "orderly_since C h0 (e # h)" using o by (rule orderly_cons)
qed

lemma promote_keeps:
  assumes "foot (any_but (\<lambda>h. h = host)) m"
  shows "keeps (announced_since C host h0) m"
proof (rule keeps_foot [OF assms])
  fix e h
  assume e: "quiet e \<or> p_ev (any_but (\<lambda>h. h = host)) e" and a: "announced_since C host h0 h"
  show "announced_since C host h0 (e # h)"
  proof (rule announced_cons [OF _ a])
    fix h c r assume "e = EvCmd h c r" and "promote_cmd c"
    with e quiet_not_promote [of e] show "h = host" by (auto simp: any_but_def)
  qed
qed

lemma keeps_phases [keeps_intros]:
  "keeps I m \<Longrightarrow> (\<And>x sw. keeps I (k x sw)) \<Longrightarrow> keeps I (go m k)"
  "keeps I m1 \<Longrightarrow> keeps I k1 \<Longrightarrow> keeps I (stop_on f sw m1 k1)"
  "keeps I m2 \<Longrightarrow> (\<And>x. keeps I (k2 x)) \<Longrightarrow> keeps I (stop_err f sw m2 k2)"
  unfolding go_def stop_on_def stop_err_def by (rule keeps_intros | assumption)+

text \<open>After the key is written, only the new master is promoted.\<close>
lemma promotion_after_key:
  "foot (any_but (\<lambda>h. h = new)) (read_pill E C sw (\<lambda>poisonPill.
      go (pill_for E C sw old poisonPill) (\<lambda>u sw.
      go (prepare_quorum E C alive new sw) (\<lambda>u sw.
      andThen (turn_before E C ss alive new) (promote_loop E C ss new old sw)))))"
proof -
  have p: "host_may (any_but (\<lambda>h. h = new)) new (\<lambda>c. promote_cmd c \<or> c = ConfigRewrite)"
    by (simp add: any_but_def host_may_def)
  show ?thesis
    by (rule foot_intros calm_any_but calmD(2) [OF calm_any_but] p)+
qed

text \<open>The write of the master key, when it succeeds, is the announcement.\<close>
lemma through_announce:
  "through (orderly_since C h0) (orderly_since C h0) (dcs_Set E C pathMasterNode (JString new))
     (\<lambda>r h. orderly_since C h0 h \<and> (r = None \<longrightarrow> announced_since C new h0 h))"
proof (rule through_dcs_Set)
  show "announced_since C new h0 (e # h)" if "quiet e" and "announced_since C new h0 h" for e h
    using that(2) by (rule announced_cons [rotated]) (use quiet_not_promote [OF that(1)] in blast)
qed (auto intro: orderly_cons stored_announced dest: quiet_not_promote)

lemma promotion_orderly: "keeps (orderly_since C h0) (promotion E C ss alive new old sw)"
proof -
  let ?I = "orderly_since C h0" and ?D = "announced_since C new h0"
  have "keeps ?D (read_pill E C sw (\<lambda>poisonPill.
      go (pill_for E C sw old poisonPill) (\<lambda>u sw.
      go (prepare_quorum E C alive new sw) (\<lambda>u sw.
      andThen (turn_before E C ss alive new) (promote_loop E C ss new old sw)))))" for sw
    by (rule promote_keeps) (rule promotion_after_key)
  then have after: "through ?I (\<lambda>h. ?I h \<and> ?D h) (read_pill E C sw (\<lambda>poisonPill.
      go (pill_for E C sw old poisonPill) (\<lambda>u sw.
      go (prepare_quorum E C alive new sw) (\<lambda>u sw.
      andThen (turn_before E C ss alive new) (promote_loop E C ss new old sw))))) (\<lambda>x. ?I)" for sw
    unfolding keeps_def by (rule through_weaken) (auto intro: announced_orderly)
  have "keeps ?I (stop_on f sw (dcs_Set E C pathMasterNode (JString new)) (read_pill E C sw (\<lambda>poisonPill.
      go (pill_for E C sw old poisonPill) (\<lambda>u sw.
      go (prepare_quorum E C alive new sw) (\<lambda>u sw.
      andThen (turn_before E C ss alive new) (promote_loop E C ss new old sw))))))" for f sw
    unfolding stop_on_def keeps_def
  proof (rule through_perform [OF through_announce])
    fix e
    show "through ?I (\<lambda>h. ?I h \<and> (e = None \<longrightarrow> ?D h)) (case e of None \<Rightarrow> read_pill E C sw (\<lambda>poisonPill.
      go (pill_for E C sw old poisonPill) (\<lambda>u sw.
      go (prepare_quorum E C alive new sw) (\<lambda>u sw.
      andThen (turn_before E C ss alive new) (promote_loop E C ss new old sw))))
      | Some x \<Rightarrow> ret (Inl (f x), sw)) (\<lambda>x. ?I)"
      using after by (cases e) (auto intro: through_ret)
  qed
  note key_first = this
  show ?thesis
    unfolding promotion_def Let_def
    by (rule keeps_phases(2) [OF calm_keeps key_first], (rule foot_intros any_but_mays)+)
qed

lemma switchover_orderly:
  "keeps (orderly_since C h0) (performSwitchover E C ss active sw old)"
proof -
  note calm = calm_keeps [of _ C h0]
  have c: "keeps (orderly_since C h0) enterCritical" "keeps (orderly_since C h0) exitCritical"
    unfolding enterCritical_def exitCritical_def
    by (rule calm, rule foot_intros, simp add: any_but_mays)+
  show ?thesis
    unfolding performSwitchover_def switchover_phases_def
    by (rule c promotion_orderly keeps_perform keeps_andThen keeps_phases keeps_ret keeps_if keeps_prod
        keeps_prod_app | rule calm_any_but any_but_mays foot_intros | rule calm)+
qed

text \<open>
  C1 A node is promoted only after the DCS names it: in every run of a switchover, complete or cut
  anywhere, a command that promotes a host comes after a successful write of this host's name to
  the master key in the same run.
\<close>
theorem promotion_after_announcement:
  "\<exists>new. hist (snd (performSwitchover E C ss active sw old s)) = new @ hist s \<and> orderly C new"
  using keeps_hist [OF switchover_orderly, of C "hist s" s]
  by (auto simp: orderly_since_def)

section \<open>The critical section\<close>

definition free_but_critical :: permit where
  "free_but_critical = \<lparr> p_ev = (\<lambda>e. True), p_crit = False, p_spin = True, p_link = True, p_hosts = (\<lambda>h. True) \<rparr>"

lemma phases_free: "foot free_but_critical (switchover_phases E C ss active sw old)"
proof -
  have c: "calm free_but_critical C" "senti_may free_but_critical" "p_spin free_but_critical"
      "may_write free_but_critical C path" "host_may free_but_critical h P" for path h P
    by (simp_all add: free_but_critical_def calm_def host_may_def senti_may_def may_write_def)
  show ?thesis
    unfolding switchover_phases_def promotion_def Let_def by (rule foot_intros c)+
qed



section \<open>The switchover document in the store\<close>

lemma plain_paths [simp]:
  "plain pathManagerLock" "plain pathMasterNode" "plain pathActiveNodes" "plain pathCurrentSwitch"
  "plain pathLastSwitch" "plain pathLastRejectedSwitch" "plain pathMaintenance" "plain pathPoisonPill"
  by (simp_all add: path_defs plain_def sep_def)

lemma now_run: "now E s = (Ok (e_now E (hist s)), s\<lparr>hist := EvNow (e_now E (hist s)) # hist s\<rparr>)"
  by (simp add: now_def comp_defs record_event_def)

lemma stored_now [simp]:
  "stored C B (s\<lparr>hist := EvNow t # h\<rparr>) = stored C B (s\<lparr>hist := h\<rparr>)"
  "usable C B (s\<lparr>hist := EvNow t # h\<rparr>) = usable C B (s\<lparr>hist := h\<rparr>)"
  by (simp_all add: stored_def usable_def tree_of_def fun_eq_iff)

definition finished :: "Switchover \<Rightarrow> goerr option \<Rightarrow> time \<Rightarrow> Switchover" where
  "finished sw err t = sw\<lparr>sw_Progress := None, sw_Result := Some \<lparr> sr_FinishedAt = t,
     sr_Error = (case err of None \<Rightarrow> [] | Some e \<Rightarrow> err_msg e), sr_Ok = (err = None) \<rparr>\<rparr>"

text \<open>
  C24 The end of a switchover: the request is gone and its result is stored at the key for accepted or
  for rejected switchovers, with the time, the verdict and no progress; no other key changes.
\<close>
theorem finishSwitchover_moves_request:
  assumes "usable C B s"
  shows "\<exists>s'. finishSwitchover (with_server B E) C sw err s = (Ok None, s') \<and>
    (\<forall>k. plain k \<longrightarrow> stored C B s' k =
      ((stored C B s)(pathCurrentSwitch := None,
         (if err = None then pathLastSwitch else pathLastRejectedSwitch) \<mapsto>
           JSwitch (finished sw err (e_now E (hist s))))) k)"
proof -
  let ?E = "with_server B E" and ?path = "if err = None then pathLastSwitch else pathLastRejectedSwitch"
  let ?report = "perform (time_since ?E (sw_StartedAt sw)) (\<lambda>dur. reportTiming (finish_event sw err) dur)"
  let ?s1 = "s\<lparr>hist := EvNow (e_now E (hist s)) # hist s\<rparr>"
  obtain x s2 where rep: "?report ?s1 = (Ok x, s2)"
    by (cases "timings s = Some True")
      (simp_all add: time_since_run perform_def reportTiming_def comp_defs record_event_def)
  have quietly: "foot nothing ?report" by (intro foot_intros)
  have s2: "stored C B s2 = stored C B s" "usable C B s2"
    using stored_foot [OF quietly, of C B ?s1] usable_foot [OF quietly, of C B ?s1] assms rep by simp_all
  have path: "plain ?path" "pathCurrentSwitch \<noteq> ?path" by (simp_all add: path_defs plain_def sep_def)
  then obtain s' where "checked (dcs_Delete ?E C pathCurrentSwitch)
        (dcs_Set ?E C ?path (JSwitch (finished sw err (e_now E (hist s))))) s2 = (Ok None, s')"
      "\<forall>k. plain k \<longrightarrow> stored C B s' k = ((stored C B s2)(pathCurrentSwitch := None, ?path \<mapsto>
           JSwitch (finished sw err (e_now E (hist s))))) k"
    using served.store.remove_put [OF s2(2) plain_paths(4) path] by blast
  then show ?thesis
    using rep s2(1)
    by (cases err) (auto simp: finishSwitchover_def perform_def now_run andThen_def finished_def with_server_def Let_def
        split: prod.splits outcome.splits)
qed

lemma usable_sample: "usable sample_config sample_tree sample_state"
  by code_simp

theorem finishSwitchover_moves_request_witness:
  "\<exists>s'. finishSwitchover (with_server sample_tree sample_env) sample_config zero_Switchover None sample_state = (Ok None, s') \<and>
     stored sample_config sample_tree s' pathCurrentSwitch = None \<and>
     (\<exists>sw. stored sample_config sample_tree s' pathLastSwitch = Some (JSwitch sw))"
  using finishSwitchover_moves_request [OF usable_sample, of sample_env zero_Switchover None]
  by (auto simp: plain_paths path_defs plain_def sep_def)



text \<open>
  C26 At most one switchover is requested at a time: filing an automatic failover stores the request
  when there is none, and otherwise fails with \<open>ErrExists\<close> and leaves the pending request as it is.
\<close>
theorem performFailover_once:
  assumes "usable C B s"
  shows "\<exists>s'. performFailover (with_server B E) C master s =
      (Ok (if stored C B s pathCurrentSwitch = None then None else Some ErrExists), s') \<and>
    stored C B s' pathCurrentSwitch = (case stored C B s pathCurrentSwitch of
       None \<Rightarrow> Some (JSwitch (zero_Switchover\<lparr>sw_From := master, sw_InitiatedBy := c_Hostname C,
         sw_InitiatedAt := e_now E (hist s), sw_Cause := CauseAuto\<rparr>))
     | Some d \<Rightarrow> Some d)"
proof -
  let ?s1 = "s\<lparr>hist := EvNow (e_now E (hist s)) # hist s\<rparr>"
  have u: "usable C B ?s1" using assms by simp
  show ?thesis
    using served.dcs_create_run [OF u plain_paths(4), of E "JSwitch (zero_Switchover\<lparr>sw_From := master,
        sw_InitiatedBy := c_Hostname C, sw_InitiatedAt := e_now E (hist s), sw_Cause := CauseAuto\<rparr>)"]
    by (auto simp: performFailover_def perform_def now_run with_server_def split: option.splits)
qed

theorem performFailover_once_witness:
  "let m = performFailover (with_server sample_tree sample_env) sample_config ''h1'' in
   fst (m sample_state) = Ok None \<and> fst (m (snd (m sample_state))) = Ok (Some ErrExists)"
proof -
  let ?m = "performFailover (with_server sample_tree sample_env) sample_config ''h1''"
  have u: "usable sample_config sample_tree (snd (?m sample_state))"
    and n: "stored sample_config sample_tree sample_state pathCurrentSwitch = None" by code_simp+
  obtain s1 where "?m sample_state = (Ok None, s1)" "stored sample_config sample_tree s1 pathCurrentSwitch \<noteq> None"
    using performFailover_once [OF usable_sample, of sample_env "''h1''"] n by auto
  with performFailover_once [OF u, of sample_env "''h1''"] show ?thesis by auto
qed

end
