(* ===== verification/Loop.thy ===== *)
theory Loop
  imports Reach SwitchoverLaws Sample
begin

text \<open>
  The loop of the application: the diagram of its states, the moment since which a process is lost, and
  maintenance as the store shows it.
\<close>

section \<open>The diagram of the states\<close>

text \<open>\<open>follows a b\<close>: a handler run in the state \<open>a\<close> may ask for \<open>b\<close>. Nothing leads back to the first state.\<close>
inductive follows :: "appState \<Rightarrow> appState \<Rightarrow> bool" where
  stay: "follows a a"
| started: "b \<in> {stateMaintenance, stateManager, stateCandidate} \<Longrightarrow> follows stateInit b"
| elected: "b \<in> {stateManager, stateLost, stateMaintenance} \<Longrightarrow> follows stateCandidate b"
| deposed: "b \<in> {stateCandidate, stateLost, stateMaintenance} \<Longrightarrow> follows stateManager b"
| resumed: "b \<in> {stateManager, stateCandidate} \<Longrightarrow> follows stateMaintenance b"
| found: "follows stateLost stateCandidate"

inductive_simps follows_simps:
  "follows stateInit b" "follows stateCandidate b" "follows stateManager b" "follows stateMaintenance b"
  "follows stateLost b" "follows a stateInit"

lemma yields_shapes:
  "Q x \<Longrightarrow> yields Q (ret x)"
  "(\<And>x. yields Q (k x)) \<Longrightarrow> yields Q (perform m k)"
  "yields Q k' \<Longrightarrow> yields Q (andThen m k')"
  "(b \<Longrightarrow> yields Q m1) \<Longrightarrow> (\<not> b \<Longrightarrow> yields Q m2) \<Longrightarrow> yields Q (if b then m1 else m2)"
  "(p = None \<Longrightarrow> yields Q l) \<Longrightarrow> (\<And>y. p = Some y \<Longrightarrow> yields Q (f y)) \<Longrightarrow>
   yields Q (case p of None \<Rightarrow> l | Some y \<Rightarrow> f y)"
  "(\<And>e. q = Inl e \<Longrightarrow> yields Q (g e)) \<Longrightarrow> (\<And>y. q = Inr y \<Longrightarrow> yields Q (h y)) \<Longrightarrow>
   yields Q (case q of Inl e \<Rightarrow> g e | Inr y \<Rightarrow> h y)"
  "(\<And>y z. yields Q (i y z)) \<Longrightarrow> yields Q (case w of (y, z) \<Rightarrow> i y z)"
  by (auto simp: yields_def perform_def andThen_def ret_def split: outcome.splits prod.splits option.splits sum.splits)

lemma yields_verdict:
  "yields Q a \<Longrightarrow> yields Q b \<Longrightarrow> yields Q c \<Longrightarrow>
   yields Q (case v of StayManager \<Rightarrow> a | GiveUp \<Rightarrow> b | CarryOn \<Rightarrow> c)"
  by (cases v) simp_all

lemmas yields_handler = yields_shapes yields_verdict

lemma handlers_follow:
  "yields (follows stateInit) (handle_Init E C)"
  "yields (follows stateCandidate) (handle_Candidate E C)"
  "yields (follows stateLost) (handle_Lost E C)"
  "yields (follows stateManager) (handle_Manager E C)"
  "yields (follows stateMaintenance) (handle_Maintenance E C)"
  unfolding handle_Init_def handle_Candidate_def candidate_pill_def candidate_repair_def
    handle_Lost_def lost_master_def lost_replica_def lost_offline_def lost_online_def
    handle_Manager_def managed_maintenance_def manage_def watch_master_def handle_Maintenance_def leaving_def Let_def
  by (rule yields_handler | simp add: follows_simps)+

text \<open>
  C23 Every handler asks for a successor of its state in the diagram: the first state is never entered again, and a lost
  process is a candidate before it is anything else.
\<close>
theorem state_handler_follows: "yields (follows st) (state_handler E C st)"
  by (cases st) (simp_all add: state_handler_def handlers_follow)

section \<open>Since when a process is lost\<close>

definition lost_ok :: "st \<Rightarrow> bool" where
  "lost_ok s \<longleftrightarrow> (app_state s = stateLost \<longleftrightarrow> lostSince s \<noteq> 0)"

text \<open>A computation that leaves the state of the loop alone, but for the moment of a lost process.\<close>
definition unmoved :: "env \<Rightarrow> 'a M \<Rightarrow> bool" where
  "unmoved E m \<longleftrightarrow> (\<forall>s. app_state (snd (m s)) = app_state s \<and>
     (lostSince (snd (m s)) = lostSince s \<or> lostSince (snd (m s)) \<in> range (e_now E)))"

definition anything :: permit where
  "anything = \<lparr> p_ev = (\<lambda>e. True), p_crit = True, p_spin = True, p_link = True, p_hosts = (\<lambda>h. True) \<rparr>"

lemma anything_mays [simp]:
  "p_ev anything e" "p_crit anything" "p_spin anything" "p_link anything" "p_hosts anything h'" "host_may anything h P" "may_write anything C path"
  "senti_may anything" "local_may anything C" "manager_may anything C" "candidate_may anything C" "lost_may anything C"
  by (simp_all add: anything_def host_may_def may_write_def senti_may_def local_may_def manager_may_def
      candidate_may_def lost_may_def)

lemma foot_unmoved: "foot A m \<Longrightarrow> lostSince (snd (m s)) = lostSince s \<and> app_state (snd (m s)) = app_state s"
  by (metis foot_frame(1,2) prod.collapse)

lemma unmoved_intros:
  "unmoved E (ret x)"
  "unmoved E (perform (now E) (\<lambda>t. andThen (set_lostSince t) (ret x)))"
  "unmoved E (perform (now E) set_lostSince)"
  by (auto simp: unmoved_def now_def set_lostSince_def record_event_def comp_defs)

lemma unmoved_perform: "unmoved E m \<Longrightarrow> (\<And>x. unmoved E (k x)) \<Longrightarrow> unmoved E (perform m k)"
  unfolding unmoved_def perform_def by (auto split: outcome.splits prod.splits; metis snd_conv)

lemma unmoved_if: "unmoved E m \<Longrightarrow> unmoved E m' \<Longrightarrow> unmoved E (if b then m else m')"
  by simp

lemma unmoved_foot: "foot anything m \<Longrightarrow> unmoved E m"
  by (simp add: unmoved_def foot_unmoved)

lemma unmoved_shard: "foot anything (perform shard_Hosts k) \<Longrightarrow> unmoved E (perform shard_Hosts k)"
  by (rule unmoved_foot)

lemma unmoved_Lost: "unmoved E (handle_Lost E C)"
  unfolding handle_Lost_def andThen_def [of "reconnectDCS E C"]
  by (rule unmoved_intros unmoved_if unmoved_shard foot_first foot_intros anything_mays | assumption
      | rule unmoved_perform | rule unmoved_foot)+

lemma handler_frame:
  assumes "state_handler E C st s = (r, t)"
  shows "app_state t = app_state s"
    and "lostSince t = lostSince s \<or> st = stateLost \<and> lostSince t \<in> range (e_now E)"
proof -
  have "foot anything (state_handler E C st)" if "st \<noteq> stateLost"
    unfolding state_handler_def using that by (cases st) (auto intro!: foot_intros)
  moreover have "unmoved E (state_handler E C stateLost)" by (simp add: state_handler_def unmoved_Lost)
  ultimately have "app_state t = app_state s \<and>
      (lostSince t = lostSince s \<or> st = stateLost \<and> lostSince t \<in> range (e_now E))"
    using assms foot_unmoved unfolding unmoved_def by (metis snd_conv)
  then show "app_state t = app_state s"
    and "lostSince t = lostSince s \<or> st = stateLost \<and> lostSince t \<in> range (e_now E)" by auto
qed

text \<open>The change of state sets the moment, or takes it back.\<close>
lemma tick_step_lost_ok:
  assumes "\<And>h. e_now E h \<noteq> 0" and ok: "lost_ok s"
  shows "lost_ok (snd (tick_step E C u s))"
proof -
  let ?h = "state_handler E C (app_state s)"
  obtain r t where run: "?h s = (r, t)" by (cases "?h s")
  have same: "app_state t = app_state s" "lostSince t = lostSince s \<or> app_state s = stateLost \<and> lostSince t \<noteq> 0"
    using handler_frame [OF run] assms(1) by (auto dest: sym)
  show ?thesis
    using ok same run assms(1)
    by (cases r) (auto simp: lost_ok_def tick_step_def enter_state_def now_def set_lostSince_def record_event_def comp_defs)
qed

section \<open>A session that is back\<close>

text \<open>
  Between the two states the history grew, and if all that happened to the session is that it was established, a process
  that had one and was not lost is still so.
\<close>
definition held :: "st \<Rightarrow> st \<Rightarrow> bool" where
  "held s s' \<longleftrightarrow> (\<exists>new. hist s' = new @ hist s \<and> (in_session new \<and> z_isConnected (zk s) \<and> app_state s \<noteq> stateLost \<longrightarrow>
     z_isConnected (zk s') \<and> app_state s' \<noteq> stateLost))"

definition holds :: "'a M \<Rightarrow> bool" where
  "holds m \<longleftrightarrow> (\<forall>s. held s (snd (m s)))"

lemma held_trans: "held s t \<Longrightarrow> held t s' \<Longrightarrow> held s s'"
  unfolding held_def by (metis append.assoc in_session_append)

lemma holds_perform: "holds m \<Longrightarrow> (\<And>x. holds (k x)) \<Longrightarrow> holds (perform m k)"
  unfolding holds_def perform_def by (auto split: outcome.splits prod.splits intro: held_trans) (metis held_trans snd_conv)+

lemma holds_intros:
  "holds (ret x)" "holds (halt h)" "holds m \<Longrightarrow> holds k' \<Longrightarrow> holds (andThen m k')"
  unfolding andThen_def by (auto intro: holds_perform) (simp_all add: holds_def held_def ret_def halt_def)

text \<open>What leaves the client of the store alone.\<close>
definition same_client :: permit where
  "same_client = \<lparr> p_ev = (\<lambda>e. True), p_crit = True, p_spin = True, p_link = False, p_hosts = (\<lambda>h. True) \<rparr>"

lemma same_client_mays [simp]:
  "p_ev same_client e" "p_crit same_client" "p_spin same_client" "p_hosts same_client h'" "host_may same_client h P" "may_write same_client C path"
  "senti_may same_client" "local_may same_client C" "manager_may same_client C" "candidate_may same_client C"
  by (simp_all add: same_client_def host_may_def may_write_def senti_may_def local_may_def manager_may_def candidate_may_def)

lemma foot_held:
  assumes "foot same_client m" and "m s = (r, s')"
  shows "held s s'"
  using footD [OF assms] unfolding frame_def held_def extends_by_def keeps_session_def same_client_def by auto

lemma foot_holds: "foot same_client m \<Longrightarrow> holds m"
  by (simp add: holds_def foot_held [OF _ surjective_pairing])

lemma handler_client: "st \<noteq> stateLost \<Longrightarrow> foot same_client (state_handler E C st)"
  unfolding state_handler_def by (cases st) (auto intro!: foot_intros)

lemma IsConnected_tells: "IsConnected E s = (Ok c, t) \<Longrightarrow> z_isConnected (zk t) = c"
  by (cases "handleEvents E s") (auto simp: IsConnected_def andThen_def perform_def gets_def split: outcome.splits)

lemma lost_first:
  assumes "perform (IsConnected E) (\<lambda>c. if \<not> c then ret stateLost else k) s = (Ok stateLost, s')"
    and "yields (\<lambda>x. x \<noteq> stateLost) k"
  shows "\<not> z_isConnected (zk s')"
proof -
  obtain r t where run: "IsConnected E s = (r, t)" by (cases "IsConnected E s")
  then obtain c where "r = Ok c" using assms(1) by (cases r) (simp_all add: perform_def)
  with assms run IsConnected_tells [of E s c t] show ?thesis
    by (cases c) (auto simp: perform_def ret_def dest: yieldsD)
qed

text \<open>A handler asks for the lost state when it has found no session.\<close>
lemma lost_no_session:
  assumes "state_handler E C st s = (Ok stateLost, s')" and "st \<noteq> stateLost"
  shows "\<not> z_isConnected (zk s')"
proof -
  have never: "yields (\<lambda>x. x \<noteq> stateLost) (handle_Init E C)" "yields (\<lambda>x. x \<noteq> stateLost) (handle_Maintenance E C)"
    unfolding handle_Init_def handle_Maintenance_def leaving_def Let_def by (rule yields_handler | simp)+
  show ?thesis
  proof (cases st)
    case stateCandidate
    then have "handle_Candidate E C s = (Ok stateLost, s')" using assms(1) by (simp add: state_handler_def)
    then show ?thesis
      unfolding handle_Candidate_def candidate_pill_def candidate_repair_def Let_def
      by (rule lost_first) (rule yields_handler | simp)+
  next
    case stateManager
    then have "handle_Manager E C s = (Ok stateLost, s')" using assms(1) by (simp add: state_handler_def)
    then show ?thesis
      unfolding handle_Manager_def managed_maintenance_def manage_def watch_master_def Let_def
      by (rule lost_first) (rule yields_handler | simp)+
  qed (use assms never in \<open>auto simp: state_handler_def dest: yieldsD\<close>)
qed

lemma handler_grows: "\<exists>new. hist (snd (state_handler E C st s)) = new @ hist s"
proof (cases "st = stateLost")
  case True
  then show ?thesis using only_trace [OF only_lost] by (simp add: state_handler_def) blast
next
  case False
  then show ?thesis using foot_hist [OF handler_client surjective_pairing] by (fastforce simp: extends_by_def)
qed

lemma holds_tick_step: "holds (tick_step E C u)"
  unfolding holds_def
proof
  fix s :: st
  let ?st = "app_state s"
  obtain r t where run: "state_handler E C ?st s = (r, t)" by (cases "state_handler E C ?st s")
  obtain new where new: "hist t = new @ hist s" using handler_grows [of E C ?st s] run by auto
  have good: "z_isConnected (zk t) \<and> app_state t \<noteq> stateLost \<and> r \<noteq> Ok stateLost"
    if "in_session new" "z_isConnected (zk s)" "?st \<noteq> stateLost"
  proof -
    have "held s t" using foot_held [OF handler_client run] that(3) .
    with new that have "z_isConnected (zk t) \<and> app_state t \<noteq> stateLost" by (auto simp: held_def)
    with lost_no_session run that(3) show ?thesis by metis
  qed
  show "held s (snd (tick_step E C u s))"
  proof (cases r)
    case (Halt h)
    with run new good show ?thesis by (auto simp: held_def tick_step_def comp_defs)
  next
    case (Ok b)
    show ?thesis
    proof (cases "b = ?st")
      case True
      with Ok run new good show ?thesis by (auto simp: held_def tick_step_def comp_defs)
    next
      case False
      with Ok run new good show ?thesis
        by (auto simp: held_def tick_step_def enter_state_def now_def set_lostSince_def record_event_def in_session_def comp_defs)
    qed
  qed
qed

lemma holds_iterate: "(\<And>x. holds (body x)) \<Longrightarrow> holds (iterate n body x)"
proof (induction n arbitrary: x)
  case (Suc n)
  have "holds (case y of Inl z \<Rightarrow> iterate n body z | Inr w \<Rightarrow> ret w)" for y
    using Suc by (cases y) (auto intro: holds_intros)
  with Suc.prems show ?case by (simp add: holds_perform)
qed (simp add: holds_intros)

lemma holds_run_loop: "holds (run_loop E C wakeups)"
proof (induction wakeups)
  case (Cons w ws)
  have "foot same_client (Reopen E C)"
    unfolding Reopen_def openTimingLog_def close_log_def by (intro foot_intros; simp)
  then show ?case
    using Cons holds_iterate [of "tick_step E C", OF holds_tick_step]
    by (cases w) (simp_all add: run_tick_def holds_intros foot_holds)
qed (simp add: holds_intros)

lemma session_comes:
  "set evs \<subseteq> {HasSession} \<Longrightarrow>
   \<exists>z. each handleSessionEvent evs s = (Ok (), s\<lparr>zk := z\<rparr>) \<and> z_isConnected z = (z_isConnected (zk s) \<or> evs \<noteq> [])"
proof (induction evs arbitrary: s)
  case (Cons e evs)
  then obtain z where "each handleSessionEvent evs (s\<lparr>zk := (zk s)\<lparr>z_closeTimer := NoTimer, z_isConnected := True\<rparr>\<rparr>) =
      (Ok (), s\<lparr>zk := z\<rparr>)" "z_isConnected z"
    using Cons.IH [of "s\<lparr>zk := (zk s)\<lparr>z_closeTimer := NoTimer, z_isConnected := True\<rparr>\<rparr>"] Cons.prems by auto
  with Cons.prems show ?case by (auto simp: upd_zk_def comp_defs)
qed (auto simp: ret_def intro!: exI [of _ "zk s" for s])

lemma found_session:
  assumes "app_state s = stateLost" and "set (e_session E (hist s)) \<subseteq> {HasSession}"
    and "z_isConnected (zk s) \<or> e_session E (hist s) \<noteq> []"
  shows "\<exists>s1. tick_step E C u s = (Ok (Inl ()), s1) \<and> hist s1 = EvSession (e_session E (hist s)) # hist s \<and>
    z_isConnected (zk s1) \<and> app_state s1 = stateCandidate"
proof -
  let ?evs = "e_session E (hist s)"
  obtain z where z: "each handleSessionEvent ?evs (s\<lparr>hist := EvSession ?evs # hist s\<rparr>) =
      (Ok (), s\<lparr>hist := EvSession ?evs # hist s, zk := z\<rparr>)" "z_isConnected z"
    using session_comes [OF assms(2), of "s\<lparr>hist := EvSession ?evs # hist s\<rparr>"] assms(3) by auto
  then show ?thesis
    using assms(1) by (auto simp: tick_step_def state_handler_def handle_Lost_def IsConnected_def handleEvents_def
        record_event_def enter_state_def set_lostSince_def comp_defs)
qed

text \<open>
  C22 A lost process to which its session comes back is not lost after its next tick, and stays so for as long as nothing
  but the establishment of a session happens to it.
\<close>
theorem lost_recovers:
  assumes "app_state s = stateLost" and "0 < e_fuel E" and "set (e_session E (hist s)) \<subseteq> {HasSession}"
    and "z_isConnected (zk s) \<or> e_session E (hist s) \<noteq> []"
    and "hist (snd (run_loop E C (Tick # wakeups) s)) = new @ hist s" and "in_session new"
  shows "app_state (snd (run_loop E C (Tick # wakeups) s)) \<noteq> stateLost"
proof -
  obtain s1 where s1: "tick_step E C () s = (Ok (Inl ()), s1)" "hist s1 = EvSession (e_session E (hist s)) # hist s"
      "z_isConnected (zk s1)" "app_state s1 = stateCandidate"
    using found_session [OF assms(1,3,4)] by blast
  obtain n where "e_fuel E = Suc n" using assms(2) gr0_conv_Suc by blast
  then have run: "run_loop E C (Tick # wakeups) s = andThen (iterate n (tick_step E C) ()) (run_loop E C wakeups) s1"
    using s1(1) by (simp add: run_tick_def andThen_def perform_def)
  have "holds (andThen (iterate n (tick_step E C) ()) (run_loop E C wakeups))"
    by (intro holds_intros holds_iterate holds_tick_step holds_run_loop)
  then have "held s1 (snd (run_loop E C (Tick # wakeups) s))" by (simp only: holds_def run)
  with s1 assms(5,6) show ?thesis by (auto simp: held_def in_session_def)
qed

text \<open>The session comes with the first look at it; the list of hosts cannot be read.\<close>
definition back_env :: env where
  "back_env = sample_env\<lparr>e_session := (\<lambda>h. case h of [] \<Rightarrow> [HasSession] | e # es \<Rightarrow> []),
     e_zk_children := (\<lambda>h p. Inl (Raw ''zk: no auth''))\<rparr>"

definition back_state :: st where
  "back_state = sample_state\<lparr>app_state := stateLost, lostSince := 7, zk := fresh_zk\<rparr>"

theorem lost_recovers_witness:
  "app_state (snd (run_loop back_env sample_config [Tick, Stop] back_state)) \<noteq> stateLost"
proof (rule lost_recovers)
  let ?h = "hist (snd (run_loop back_env sample_config [Tick, Stop] back_state))"
  have "hist back_state = []" by (simp add: back_state_def sample_state_def)
  then show "?h = ?h @ hist back_state" by (simp only: append_Nil2)
  show "in_session ?h" by code_simp
qed (simp_all add: back_state_def sample_state_def back_env_def sample_env_def)

section \<open>Maintenance\<close>

text \<open>What an idle process does: it reads, and it may write its local file.\<close>
fun idle_event :: "event \<Rightarrow> bool" where
  "idle_event (EvFile f r) = True"
| "idle_event e = quiet e"

lemma quiet_idle: "quiet e \<Longrightarrow> idle_event e"
  by (cases e) simp_all

definition idle_permit :: permit where
  "idle_permit = \<lparr> p_ev = idle_event, p_crit = False, p_spin = False, p_link = True, p_hosts = (\<lambda>h. True) \<rparr>"

text \<open>The maintenance handler up to its reading of the document.\<close>
definition look_around :: "env \<Rightarrow> Config \<Rightarrow> unit M" where
  "look_around E C = perform (doesMaintenanceFileExist E C) (\<lambda>exists.
     if exists then ret () else createMaintenanceFile E C)"

lemma handle_Maintenance_look:
  "handle_Maintenance E C = andThen (look_around E C) (perform (GetMaintenance E C) (\<lambda>r. case optional r of
        Inl e \<Rightarrow> ret stateMaintenance
      | Inr None \<Rightarrow> leaving E C
      | Inr (Some maintenance) \<Rightarrow>
          if mt_ShouldLeave maintenance then leaving E C else ret stateMaintenance))"
  by (simp add: handle_Maintenance_def look_around_def andThen_def fun_eq_iff perform_def
      split: outcome.splits prod.splits)

lemma look_around_run: "\<exists>new s'. look_around E C s = (Ok (), s') \<and> hist s' = new @ hist s \<and> list_all idle_event new"
  by (cases "e_stat E (hist s) (c_MaintenanceFile C)")
    (simp_all add: look_around_def doesMaintenanceFileExist_def createMaintenanceFile_def file_exists_def
      file_action_def record_event_def comp_defs)


definition sample_maintained :: "ztree" where
  "sample_maintained = sample_tree(''/rdsync/maintenance'' \<mapsto> (JMaint (zero_Maintenance\<lparr>mt_RdSyncPaused := True\<rparr>), 0, False))"


text \<open>Commands to a server leave the store alone.\<close>
definition no_writes :: permit where
  "no_writes = \<lparr> p_ev = (\<lambda>e. \<forall>w r. e \<noteq> EvZkWrite w r), p_crit = True, p_spin = True, p_link = True, p_hosts = (\<lambda>h. True) \<rparr>"

lemma no_writes_may: "host_may no_writes h P" "may_cmds no_writes p cs" "p_ev no_writes (EvExec a r)"
  by (simp_all add: no_writes_def host_may_def may_cmds_def)

lemma tree_no_writes:
  assumes "foot no_writes m" and "m s = (r, s')"
  shows "tree_of B s' = tree_of B s"
proof -
  obtain new where new: "hist s' = new @ hist s" "\<forall>e \<in> set new. quiet e \<or> p_ev no_writes e"
    using foot_hist [OF assms] by (auto simp: extends_by_def)
  then have "\<forall>e \<in> set new. \<forall>w r. e \<noteq> EvZkWrite w r" by (auto simp: no_writes_def)
  then have "zk_tree B (new @ h) = zk_tree B h" for h
    by (induction new) (simp_all add: zk_tree_other)
  with new(1) show ?thesis by (simp add: tree_of_def)
qed

lemma stored_no_writes:
  "foot no_writes m \<Longrightarrow> m s = (r, s') \<Longrightarrow> stored C B s' = stored C B s"
  "foot no_writes m \<Longrightarrow> m s = (r, s') \<Longrightarrow> usable C B s' \<longleftrightarrow> usable C B s"
  by (simp_all add: stored_def usable_def tree_no_writes fun_eq_iff)

lemma distinct_paths: "pathActiveNodes \<noteq> pathMaintenance"
  by (simp add: path_defs)

text \<open>
  C27 The manager's entry into maintenance: when the master has dropped its write quorum, the active nodes are removed
  and the document is stored as acknowledged; every other key stays.
\<close>
theorem enterMaintenance_acknowledges:
  assumes "usable C B s" and "fst (enterMaintenance (with_server B E) C m master s) = Ok None"
  shows "\<exists>s'. enterMaintenance (with_server B E) C m master s = (Ok None, s') \<and>
    (\<forall>k. plain k \<longrightarrow> stored C B s' k =
      ((stored C B s)(pathActiveNodes := None, pathMaintenance \<mapsto> JMaint (m\<lparr>mt_RdSyncPaused := True\<rparr>))) k)"
proof -
  let ?E = "with_server B E"
  let ?move = "checked (dcs_Delete ?E C pathActiveNodes) (dcs_Set ?E C pathMaintenance (JMaint (m\<lparr>mt_RdSyncPaused := True\<rparr>)))"
  let ?quorum = "perform (shard_Get master) (\<lambda>node. SetNumQuorumReplicas ?E node 0)"
  obtain q t where q: "?quorum s = (q, t)" by (cases "?quorum s")
  have "foot no_writes ?quorum" by (rule foot_first foot_intros no_writes_may | simp)+
  from stored_no_writes [OF this q] assms(1) have t: "stored C B t = stored C B s" "usable C B t" by simp_all
  have "enterMaintenance ?E C m master s = perform ?quorum (\<lambda>(err, rewriteErr).
      if err \<noteq> None then ret err else if rewriteErr \<noteq> None then ret rewriteErr else ?move) s"
    by (simp add: enterMaintenance_def perform_assoc)
  with assms(2) q have "q = Ok (None, None)" and run: "enterMaintenance ?E C m master s = ?move t"
    by (auto simp: perform_def ret_def split: outcome.splits prod.splits if_splits)
  moreover obtain s' where "?move t = (Ok None, s')"
      "\<forall>j. plain j \<longrightarrow> stored C B s' j = ((stored C B t)(pathActiveNodes := None, pathMaintenance \<mapsto>
        JMaint (m\<lparr>mt_RdSyncPaused := True\<rparr>))) j"
    using served.store.remove_put [OF t(2) plain_paths(3,7) distinct_paths] by blast
  ultimately show ?thesis using t(1) by auto
qed

theorem enterMaintenance_acknowledges_witness:
  "\<exists>s'. enterMaintenance (with_server sample_tree sample_env) sample_config zero_Maintenance ''h2'' sample_state = (Ok None, s') \<and>
     stored sample_config sample_tree s' pathMaintenance = Some (JMaint (zero_Maintenance\<lparr>mt_RdSyncPaused := True\<rparr>))"
proof -
  have "fst (enterMaintenance (with_server sample_tree sample_env) sample_config zero_Maintenance ''h2'' sample_state) = Ok None"
    by code_simp
  from enterMaintenance_acknowledges [OF usable_sample this] show ?thesis by auto
qed

end
