(* ===== verification/Process.thy ===== *)
theory Process
  imports Loop
begin

text \<open>
  A process of rdsync as a state machine (internal/app/app.go): the ticks of the main loop, the signals and the ticks of
  the goroutines beside it, one after the other in any order; what holds in every state it can reach.
\<close>

section \<open>Invariants of a process\<close>

text \<open>\<open>stays I m\<close>: the computation keeps \<open>I\<close>, however it ends.\<close>
definition stays :: "(st \<Rightarrow> bool) \<Rightarrow> 'a M \<Rightarrow> bool" where
  "stays I m \<longleftrightarrow> (\<forall>s. I s \<longrightarrow> I (snd (m s)))"

lemma stays_perform: "stays I m \<Longrightarrow> (\<And>x. stays I (k x)) \<Longrightarrow> stays I (perform m k)"
  unfolding stays_def perform_def by (auto split: outcome.splits prod.splits; metis snd_conv)

lemma stays_intros:
  "stays I (ret x)" "stays I (halt h)" "stays I (gets g)"
  "stays I m \<Longrightarrow> stays I k' \<Longrightarrow> stays I (andThen m k')"
  "stays I k' \<Longrightarrow> stays I k'' \<Longrightarrow> stays I (if b then k' else k'')"
  "(\<And>e. stays I (f1 e)) \<Longrightarrow> (\<And>y. stays I (f2 y)) \<Longrightarrow> stays I (case q of Inl e \<Rightarrow> f1 e | Inr y \<Rightarrow> f2 y)"
  "stays I k' \<Longrightarrow> (\<And>y. stays I (f3 y)) \<Longrightarrow> stays I (case p of None \<Rightarrow> k' | Some y \<Rightarrow> f3 y)"
  unfolding andThen_def
  by (auto intro: stays_perform split: sum.split option.split) (simp_all add: stays_def ret_def halt_def gets_def)

lemma stays_iterate: "(\<And>x. stays I (body x)) \<Longrightarrow> stays I (iterate n body x)"
  by (induction n arbitrary: x) (auto intro!: stays_perform stays_intros)

lemma NewApp_state: "NewApp read level = Inr (C, s) \<Longrightarrow> s = new_state"
  by (simp add: NewApp_def Let_def split: sum.splits)

text \<open>A process on \<open>h\<close> has stayed in its state of the loop, and its table of hosts is as well-formed as before.\<close>
definition alike :: "string \<Rightarrow> st \<Rightarrow> st \<Rightarrow> bool" where
  "alike h s s' \<longleftrightarrow> lostSince s' = lostSince s \<and> app_state s' = app_state s \<and> (shard_ok h s \<longrightarrow> shard_ok h s')"

text \<open>What a process on the host of \<open>C\<close> may do.\<close>
definition own_host :: "Config \<Rightarrow> permit" where
  "own_host C = anything\<lparr>p_hosts := (\<lambda>h. h = c_Hostname C)\<rparr>"

lemma own_host_mays [simp]:
  "p_ev (own_host C) e" "p_crit (own_host C)" "p_spin (own_host C)" "p_link (own_host C)" "p_hosts (own_host C) (c_Hostname C)"
  "host_may (own_host C) h P" "may_write (own_host C) C path" "senti_may (own_host C)" "local_may (own_host C) C"
  "manager_may (own_host C) C" "candidate_may (own_host C) C" "lost_may (own_host C) C"
  by (simp_all add: own_host_def anything_def host_may_def may_write_def senti_may_def local_may_def manager_may_def
      candidate_may_def lost_may_def)

lemma foot_alike:
  assumes "foot (own_host C) m"
  shows "alike (c_Hostname C) s (snd (m s))"
  using footD [OF assms surjective_pairing, of s]
  by (simp add: frame_def alike_def keeps_hosts_def own_host_def anything_def)

text \<open>
  What an invariant of a process needs: the ticks of the main loop keep it, and so does all that leaves the state of
  the loop alone and the table of hosts well-formed.
\<close>
locale process_invariant =
  fixes I :: "st \<Rightarrow> bool" and E :: env and C :: Config
  assumes kept: "alike (c_Hostname C) s s' \<Longrightarrow> I s \<Longrightarrow> I s'"
    and tick: "I s \<Longrightarrow> I (snd (tick_step E C u s))"
begin

lemma stays_foot: "foot (own_host C) m \<Longrightarrow> stays I m"
  unfolding stays_def using kept foot_alike by blast

lemma stays_sets:
  "stays I (upd_zk f)" "stays I (modify (\<lambda>s. s\<lparr>cache := c\<rparr>))" "stays I (set_timings t)"
  by (auto simp: stays_def upd_zk_def set_timings_def comp_defs alike_def shard_ok_def intro: kept [rotated])

lemma stays_calls:
  "stays I (connectDCS E C)" "stays I (NewSentiCacheNode E C)" "stays I dcs_Close" "stays I (file_action E a)"
  "stays I (Reopen E C)"
  unfolding Reopen_def openTimingLog_def close_log_def by (rule stays_foot, intro foot_intros; simp)+

lemma stays_tick: "stays I (run_tick E C)"
  unfolding run_tick_def using tick by (intro stays_iterate) (simp add: stays_def)

lemma stays_loop: "stays I (run_loop E C wakeups)"
proof (induction wakeups)
  case (Cons w ws)
  then show ?case using stays_calls(5) stays_tick by (cases w) (simp_all add: stays_intros)
qed (simp add: stays_intros)

lemma stays_start: "stays I (start_up E C)"
  unfolding start_up_def SetDisconnectCallback_def
  by (rule stays_perform stays_intros stays_sets stays_calls)+

lemma stays_Run: "stays I (Run E C wakeups)"
  unfolding Run_def lockDaemonFile_def newTimingReporter_def openTimingLog_def Close_timings_def close_log_def unlockDaemonFile_def
  by (rule stays_loop stays_start stays_perform stays_intros stays_sets stays_calls)+

end

interpretation lost: process_invariant "\<lambda>s. (\<forall>h. e_now E h \<noteq> 0) \<longrightarrow> lost_ok s" E C for E C
  by unfold_locales (simp add: alike_def lost_ok_def, simp add: tick_step_lost_ok)

lemma stays_marks:
  "stays (shard_ok h) (set_lostSince t)" "stays (shard_ok h) (modify (\<lambda>s. s\<lparr>app_state := a\<rparr>))"
  by (simp_all add: stays_def set_lostSince_def comp_defs shard_ok_def)

lemma stays_own: "foot (own_host C) m \<Longrightarrow> stays (shard_ok (c_Hostname C)) m"
  unfolding stays_def using foot_alike by (auto simp: alike_def)

lemma stays_shard: "foot (own_host C) (perform shard_Hosts k) \<Longrightarrow> stays (shard_ok (c_Hostname C)) (perform shard_Hosts k)"
  by (rule stays_own)

lemma stays_handler: "stays (shard_ok (c_Hostname C)) (state_handler E C st)"
proof (cases "st = stateLost")
  case False
  then show ?thesis unfolding state_handler_def by (cases st) (auto intro!: stays_own foot_intros)
next
  case True
  have "stays (shard_ok (c_Hostname C)) (handle_Lost E C)"
    unfolding handle_Lost_def
    by (rule stays_intros stays_marks stays_shard foot_first foot_intros own_host_mays | assumption
      | rule stays_perform | rule stays_own)+
  with True show ?thesis by (simp add: state_handler_def)
qed

lemma stays_tick_step: "stays (shard_ok (c_Hostname C)) (tick_step E C u)"
  unfolding tick_step_def enter_state_def
  by (rule stays_handler stays_intros stays_marks | rule stays_perform | rule stays_own foot_intros)+

interpretation table: process_invariant "shard_ok (c_Hostname C)" E C for E C
  using stays_tick_step by unfold_locales (auto simp: alike_def stays_def)


section \<open>The process as a state machine\<close>

text \<open>\<open>NewApp\<close>, and \<open>Run\<close> up to its loop.\<close>
definition started :: "env \<Rightarrow> Config \<Rightarrow> st \<Rightarrow> bool" where
  "started E C s \<longleftrightarrow> (\<exists>read level s0. NewApp read level = Inr (C, s0) \<and>
     andThen (lockDaemonFile E C) (andThen (newTimingReporter E C) (start_up E C)) s0 = (Ok (Inr ()), s))"

text \<open>
  The steps of the process: a tick of the main loop, SIGHUP, the ticks of \<open>healthChecker\<close>, \<open>stateFileHandler\<close> and
  \<open>cacheUpdater\<close> (in sentinel mode), and the arrival of session events. A step that does not return ends the process.
\<close>
inductive process_step :: "env \<Rightarrow> Config \<Rightarrow> st \<Rightarrow> st \<Rightarrow> bool" for E C where
  main: "run_tick E C s = (Ok (), s') \<Longrightarrow> process_step E C s s'"
| hangup: "Reopen E C s = (Ok (), s') \<Longrightarrow> process_step E C s s'"
| health: "healthChecker_tick E C hcCheckTime s = (Ok t, s') \<Longrightarrow> process_step E C s s'"
| info: "stateFileHandler_tick E C marshal s = (Ok (), s') \<Longrightarrow> process_step E C s s'"
| senti: "app_mode C = modeSentinel \<Longrightarrow> cacheUpdater_tick E C s = (Ok (), s') \<Longrightarrow> process_step E C s s'"
| session: "handleEvents E s = (Ok evs, s') \<Longrightarrow> process_step E C s s'"

inductive process_reach :: "env \<Rightarrow> Config \<Rightarrow> st \<Rightarrow> bool" for E C where
  start: "started E C s \<Longrightarrow> process_reach E C s"
| step: "process_reach E C s \<Longrightarrow> process_step E C s s' \<Longrightarrow> process_reach E C s'"

lemma staysD: "stays I m \<Longrightarrow> m s = (r, s') \<Longrightarrow> I s \<Longrightarrow> I s'"
  unfolding stays_def by (metis snd_conv)

context process_invariant
begin

lemma stays_goroutines:
  "stays I (healthChecker_tick E C hc)" "stays I (stateFileHandler_tick E C marshal)" "stays I (cacheUpdater_tick E C)"
  "stays I (handleEvents E)"
  unfolding stateFileHandler_tick_def Let_def
  by (rule stays_foot, (intro foot_intros; simp))+

lemma step_keeps: "process_step E C s s' \<Longrightarrow> I s \<Longrightarrow> I s'"
  by (erule process_step.cases)
    (blast intro: staysD [OF stays_tick] staysD [OF stays_calls(5)] staysD [OF stays_goroutines(1)]
      staysD [OF stays_goroutines(2)] staysD [OF stays_goroutines(3)] staysD [OF stays_goroutines(4)])+

lemma started_keeps: "started E C s \<Longrightarrow> I new_state \<Longrightarrow> I s"
proof -
  have "stays I (andThen (lockDaemonFile E C) (andThen (newTimingReporter E C) (start_up E C)))"
    unfolding lockDaemonFile_def newTimingReporter_def openTimingLog_def
    by (rule stays_start stays_perform stays_intros stays_sets stays_calls)+
  then show "started E C s \<Longrightarrow> I new_state \<Longrightarrow> I s"
    unfolding started_def by (blast intro: staysD dest: NewApp_state)
qed

lemma reach_invariant: "process_reach E C s \<Longrightarrow> I new_state \<Longrightarrow> I s"
  by (induction rule: process_reach.induct) (auto intro: started_keeps step_keeps)

end

section \<open>What holds in every state\<close>

definition cluster_config :: Config where
  "cluster_config = sample_config\<lparr>c_Mode := ''Cluster''\<rparr>"

text \<open>A process that has started, and the same process after its first tick.\<close>
definition begun_state :: st where
  "begun_state = snd (andThen (lockDaemonFile sample_env cluster_config)
     (andThen (newTimingReporter sample_env cluster_config) (start_up sample_env cluster_config)) new_state)"

definition ticked_state :: st where
  "ticked_state = snd (run_tick sample_env cluster_config begun_state)"

lemma ticked_reached: "process_reach sample_env cluster_config ticked_state"
proof (rule process_reach.step [OF process_reach.start])
  have "NewApp (Inr cluster_config) ''Info'' = Inr (cluster_config, new_state)"
    by (simp add: NewApp_def parseLevel_def parseMode_def parseAofMode_def cluster_config_def sample_config_def)
  moreover have "fst (andThen (lockDaemonFile sample_env cluster_config)
      (andThen (newTimingReporter sample_env cluster_config) (start_up sample_env cluster_config)) new_state) = Ok (Inr ())"
    by code_simp
  ultimately show "started sample_env cluster_config begun_state"
    unfolding started_def begun_state_def by (metis prod.collapse)
  have "fst (run_tick sample_env cluster_config begun_state) = Ok ()" by code_simp
  then show "process_step sample_env cluster_config begun_state ticked_state"
    unfolding ticked_state_def by (metis main prod.collapse)
qed

text \<open>
  C19 The invariant of the loop: in every state a process reaches, in whatever order the main loop, the signals and
  the other goroutines have run, \<open>lostSince\<close> is set exactly while the process is lost, when the clock never shows Go's zero time.
\<close>
theorem process_lost_ok:
  assumes "process_reach E C s" and "\<And>h. e_now E h \<noteq> 0"
  shows "lost_ok s"
  using lost.reach_invariant [OF assms(1)] assms(2) by (simp add: lost_ok_def new_state_def)

theorem process_lost_ok_witness: "lost_ok ticked_state"
  by (rule process_lost_ok [OF ticked_reached]) (simp add: sample_env_def second_def)

text \<open>
  C20 The invariant of the table of hosts: in every state a process reaches, each host has one node, every pointer (that of the
  local node too, which outlives the membership of the local host) is to an allocated node, and no two hosts share one.
\<close>
theorem process_hosts_ok:
  assumes "process_reach E C s"
  shows "shard_ok (c_Hostname C) s"
  using table.reach_invariant [OF assms] by (simp add: shard_ok_def new_state_def)

theorem process_hosts_ok_witness: "shard_ok ''h1'' ticked_state"
  using process_hosts_ok [OF ticked_reached] by (simp add: cluster_config_def sample_config_def)

text \<open>The same for \<open>Run\<close>, whatever ended it.\<close>
theorem run_lost_ok:
  assumes "\<And>h. e_now E h \<noteq> 0" and "NewApp read level = Inr (C, s)"
  shows "lost_ok (snd (Run E C wakeups s))"
  using lost.stays_Run [of E C wakeups] assms(1) NewApp_state [OF assms(2)]
  by (simp add: stays_def lost_ok_def new_state_def)

end
