(* ===== verification/Membership.thy ===== *)
theory Membership
  imports Process
begin

text \<open>
  What becomes of a process whose host is not in the shard: when the host is removed (\<open>rdsync host remove\<close>), and when the
  session is lost before the shard was ever read.
\<close>

section \<open>The local host is removed\<close>

lemma getHostState_gone:
  "map_of (shard_nodes s) h = None \<Longrightarrow> \<exists>msg. fst (getHostState E C h s) = Halt (Panic msg)"
  by (simp add: getHostState_def GetState_def shard_Get_def now_def record_event_def deref_def comp_defs)

lemma stays_quiet_local: "foot nothing m \<Longrightarrow> stays (\<lambda>s. shard_local s \<noteq> None) m"
  unfolding stays_def by (metis footD frame_def keeps_hosts_def nothing_def permit.select_convs(5) prod.collapse)

lemma stays_add_host: "stays (\<lambda>s. shard_local s \<noteq> None) (add_host E C h)"
proof -
  have "stays (\<lambda>s. shard_local s \<noteq> None) (modify (\<lambda>s. s\<lparr>shard_nodes := x s, shard_local :=
      if shard_local s = None \<and> b then y else shard_local s\<rparr>))" for x y b
    by (simp add: stays_def modify_def)
  then show ?thesis
    unfolding add_host_def attempt_err_def
    by (intro stays_perform stays_intros stays_quiet_local [OF foot_NewNode])
qed

lemma stays_checked_each: "(\<And>x. stays I (f x)) \<Longrightarrow> stays I (checked_each f xs)"
  by (induction xs) (auto simp: checked_def intro!: stays_perform stays_intros)

text \<open>The update drops the hosts that were not read, from a table whose process has a local node if it had one.\<close>
lemma UpdateHostsInfo_run:
  assumes "shard_local s \<noteq> None" and "GetShardHostsFromDcs E C s = (Ok (Inr hosts), s1)"
    and "UpdateHostsInfo E C s = (Ok None, s2)"
  shows "\<exists>s3. shard_local s3 \<noteq> None \<and> s2 = snd (drop_hosts hosts s3)"
proof -
  let ?I = "\<lambda>s. shard_local s \<noteq> None"
  obtain s3 where run: "perform (any_order E (remdups hosts)) (checked_each (add_host E C)) s1 = (Ok None, s3)"
      and s2: "s2 = snd (drop_hosts hosts s3)"
    using assms(2,3) by (auto simp: UpdateHostsInfo_def attempt_err_def checked_def perform_def andThen_def ret_def
        split: prod.splits outcome.splits option.splits)
  have "stays ?I (GetShardHostsFromDcs E C)" by (intro stays_quiet_local foot_shard_reads)
  from staysD [OF this assms(2)] assms(1) have "?I s1" by simp
  have all: "stays ?I (perform (any_order E (remdups hosts)) (checked_each (add_host E C)))"
    by (intro stays_perform stays_checked_each stays_add_host stays_quiet_local foot_actions)
  from staysD [OF all run] \<open>?I s1\<close> have "?I s3" by simp
  with s2 show ?thesis by blast
qed

text \<open>
  C38 Removing the local host from the shard ends its process: the update of the hosts drops the node from the table but keeps
  the pointer to the local node, and the next health check looks the local host up in the table and follows the nil it finds.
\<close>
theorem removed_host_panics:
  assumes "shard_local s \<noteq> None" and "GetShardHostsFromDcs E C s = (Ok (Inr hosts), s1)"
    and "c_Hostname C \<notin> set hosts" and "UpdateHostsInfo E C s = (Ok None, s2)"
  shows "\<exists>msg. fst (healthChecker_tick E C t s2) = Halt (Panic msg)"
proof -
  obtain s3 where s3: "shard_local s3 \<noteq> None" "s2 = snd (drop_hosts hosts s3)"
    using UpdateHostsInfo_run [OF assms(1,2,4)] by blast
  have "map_of (filter (\<lambda>(h, n). h \<in> set hosts) xs) (c_Hostname C) = None" for xs :: "(string \<times> nat) list"
    using assms(3) by (auto simp: map_of_eq_None_iff)
  with s3 obtain n where "shard_local s2 = Some n" "map_of (shard_nodes s2) (c_Hostname C) = None"
    by (auto simp: drop_hosts_def modify_def)
  then show ?thesis
    using getHostState_gone [of s2 "c_Hostname C" E C]
    by (auto simp: healthChecker_tick_def getLocalState_def shard_Local_def comp_defs Let_def split: prod.splits outcome.splits)
qed

text \<open>The host \<open>h1\<close> runs the process; the shard has \<open>h2\<close> and \<open>h3\<close> now.\<close>
definition removed_env :: env where
  "removed_env = sample_env\<lparr>e_zk_children := (\<lambda>h p. Inr [''h2'', ''h3''])\<rparr>"

theorem removed_host_panics_witness:
  "\<exists>msg. fst (healthChecker_tick removed_env sample_config 0
     (snd (UpdateHostsInfo removed_env sample_config sample_state))) = Halt (Panic msg)"
proof (rule removed_host_panics)
  show "shard_local sample_state \<noteq> None" by (simp add: sample_state_def)
  show "GetShardHostsFromDcs removed_env sample_config sample_state =
      (Ok (Inr [''h2'', ''h3'']), snd (GetShardHostsFromDcs removed_env sample_config sample_state))"
    (is "_ = (_, snd ?r)")
  proof -
    have "fst ?r = Ok (Inr [''h2'', ''h3''])" by code_simp
    then show ?thesis by (metis prod.collapse)
  qed
  show "c_Hostname sample_config \<notin> set [''h2'', ''h3'']" by code_simp
  have "fst (UpdateHostsInfo removed_env sample_config sample_state) = Ok None" by code_simp
  then show "UpdateHostsInfo removed_env sample_config sample_state =
      (Ok None, snd (UpdateHostsInfo removed_env sample_config sample_state))"
    by (metis prod.collapse)
qed

section \<open>The session is lost before the shard is read\<close>

lemma quiet_look:
  assumes "\<And>h. e_session E h = []"
  shows "IsConnected E s = (Ok (z_isConnected (zk s)), s\<lparr>hist := EvSession [] # hist s\<rparr>)"
  using assms by (simp add: IsConnected_def handleEvents_def record_event_def comp_defs)


text \<open>A process that was elected candidate and lost its session at once; no host was read.\<close>
definition early_state :: st where
  "early_state = new_state\<lparr>app_state := stateCandidate\<rparr>"

definition still_env :: env where
  "still_env = sample_env\<lparr>e_now := (\<lambda>h. second)\<rparr>"


end
