(* ===== verification/Election.thy ===== *)
theory Election
  imports App ZkServer
begin

text \<open>
  The election of the manager among many processes: every process runs the code of internal/dcs/zk.go with its own cache of
  locks, and the requests of one come between those of the others at one server.
\<close>

section \<open>Taking and releasing a lock in two requests each\<close>

text \<open>\<open>AcquireLock\<close> up to its first request: Some is its result; None, that the lock is free.\<close>
definition acquire_ask :: "env \<Rightarrow> Config \<Rightarrow> string \<Rightarrow> bool option M" where
  "acquire_ask E C fp = perform (retryGet E C fp) (\<lambda>r. case r of
     Inl e \<Rightarrow> if err_is e ZkNoNode then ret None else ret (Some False)
   | Inr (data, ver, eph) \<Rightarrow> (case as_owner data of
       None \<Rightarrow> ret (Some False)
     | Some owner \<Rightarrow> if owner = getSelfLockOwner E C then perform (store_lock E fp) (\<lambda>b. ret (Some b))
                      else ret (Some False)))"

definition acquire_read :: "env \<Rightarrow> Config \<Rightarrow> string \<Rightarrow> bool option M" where
  "acquire_read E C path =
     (let fp = fullPath C path in
      andThen (handleEvents E) (perform (gets (\<lambda>s. z_lockHeld (zk s) fp)) (\<lambda>cached. case cached of
        None \<Rightarrow> acquire_ask E C fp
      | Some t \<Rightarrow> perform (time_since E t) (\<lambda>age.
          if age < zc_LockHeldTTL (c_Zookeeper C) then ret (Some True) else andThen (drop_lock fp) (acquire_ask E C fp)))))"

text \<open>Its second request.\<close>
definition acquire_create :: "env \<Rightarrow> Config \<Rightarrow> string \<Rightarrow> bool M" where
  "acquire_create E C path = perform (retryCreate E C (fullPath C path) (JOwner (getSelfLockOwner E C)) True) (\<lambda>c. case c of
     Inl e \<Rightarrow> ret False
   | Inr x \<Rightarrow> store_lock E (fullPath C path))"

lemma AcquireLock_requests:
  "AcquireLock E C path = perform (acquire_read E C path) (\<lambda>r. case r of Some b \<Rightarrow> ret b | None \<Rightarrow> acquire_create E C path)"
proof
  fix s
  show "AcquireLock E C path s = perform (acquire_read E C path) (\<lambda>r. case r of Some b \<Rightarrow> ret b | None \<Rightarrow> acquire_create E C path) s"
    by (auto simp: AcquireLock_def AcquireLock_server_def acquire_read_def acquire_ask_def acquire_create_def Let_def perform_def andThen_def
        ret_def gets_def split: prod.splits outcome.splits option.splits sum.splits)
qed

text \<open>\<open>ReleaseLock\<close> up to its first request: Some is the version of its node, which the second request deletes.\<close>
definition release_read :: "env \<Rightarrow> Config \<Rightarrow> string \<Rightarrow> int option M" where
  "release_read E C path =
     (let fp = fullPath C path in
      andThen (drop_lock fp) (perform (retryGet E C fp) (\<lambda>r. case r of
        Inl e \<Rightarrow> ret None
      | Inr (data, ver, eph) \<Rightarrow> (case as_owner data of
          None \<Rightarrow> ret None
        | Some owner \<Rightarrow> ret (if owner = getSelfLockOwner E C then Some ver else None)))))"

definition release_delete :: "env \<Rightarrow> Config \<Rightarrow> string \<Rightarrow> int \<Rightarrow> unit M" where
  "release_delete E C path ver = perform (retryDelete E C (fullPath C path) ver) (\<lambda>d. ret ())"

lemma ReleaseLock_requests:
  "ReleaseLock E C path = perform (release_read E C path) (\<lambda>r. case r of Some v \<Rightarrow> release_delete E C path v | None \<Rightarrow> ret ())"
proof
  fix s
  show "ReleaseLock E C path s =
      perform (release_read E C path) (\<lambda>r. case r of Some v \<Rightarrow> release_delete E C path v | None \<Rightarrow> ret ()) s"
    by (auto simp: ReleaseLock_def ReleaseLockOrError_def release_read_def release_delete_def Let_def perform_def andThen_def
        ret_def split: prod.splits outcome.splits option.splits sum.splits)
qed

section \<open>What the requests do at the server\<close>

text \<open>Who has the lock, as the server's tree says, and whether a process remembers that it has it.\<close>
definition lock_owner :: "ztree \<Rightarrow> string \<Rightarrow> LockOwner option" where
  "lock_owner T fp = (case T fp of None \<Rightarrow> None | Some (d, v, eph) \<Rightarrow> as_owner d)"

definition remembers :: "st \<Rightarrow> string \<Rightarrow> bool" where
  "remembers s fp \<longleftrightarrow> z_lockHeld (zk s) fp \<noteq> None"

lemma remembers_hist [simp]: "remembers (s\<lparr>hist := h\<rparr>) fp = remembers s fp"
  by (simp add: remembers_def)

context zk_server
begin

lemma acquire_ask_run:
  assumes "\<not> remembers s fp"
  shows "\<exists>r s'. acquire_ask E C fp s = (Ok r, s') \<and> tree_of B s' = tree_of B s \<and> (r = Some True \<longleftrightarrow> remembers s' fp) \<and>
    (r = Some True \<longrightarrow> lock_owner (tree_of B s) fp = Some (getSelfLockOwner E C))"
  using assms unfolding acquire_ask_def
  by (auto simp: perform_def get_run ZkServer.server_get_def store_lock_def now_def upd_zk_def record_event_def modify_def
      gets_def ret_def andThen_def tree_of_def lock_owner_def remembers_def split: option.split)

lemma acquire_read_run:
  fixes C :: Config and k :: string
  defines "fp \<equiv> fullPath C k"
  shows "\<exists>r s'. acquire_read E C k s = (Ok r, s') \<and> tree_of B s' = tree_of B s \<and> (r = Some True \<longleftrightarrow> remembers s' fp) \<and>
    (r = Some True \<longrightarrow> remembers s fp \<or> lock_owner (tree_of B s) fp = Some (getSelfLockOwner E C))"
proof -
  let ?s1 = "s\<lparr>hist := EvSession [] # hist s\<rparr>"
  have t: "tree_of B ?s1 = tree_of B s" by (simp add: tree_of_def)
  show ?thesis
  proof (cases "z_lockHeld (zk s) fp")
    case None
    then have "acquire_read E C k s = acquire_ask E C fp ?s1"
      by (simp add: acquire_read_def fp_def Let_def andThen_def perform_def gets_def events_run)
    with acquire_ask_run [of ?s1 fp C] None t show ?thesis by (auto simp: remembers_def)
  next
    case (Some t0)
    let ?now = "e_now E (hist ?s1)"
    let ?s2 = "?s1\<lparr>hist := EvNow ?now # hist ?s1\<rparr>"
    let ?s3 = "?s2\<lparr>zk := (zk s)\<lparr>z_lockHeld := (z_lockHeld (zk s))(fp := None)\<rparr>\<rparr>"
    have t2: "tree_of B ?s2 = tree_of B s" "tree_of B ?s3 = tree_of B s" by (simp_all add: tree_of_def)
    have "acquire_read E C k s = (if since ?now t0 < zc_LockHeldTTL (c_Zookeeper C) then (Ok (Some True), ?s2)
        else acquire_ask E C fp ?s3)"
      using Some by (simp add: acquire_read_def fp_def Let_def comp_defs events_run time_since_def now_def record_event_def
          drop_lock_def upd_zk_def)
    with acquire_ask_run [of ?s3 fp C] Some t2 show ?thesis by (auto simp: remembers_def)
  qed
qed

lemma acquire_create_run:
  fixes C :: Config and k :: string
  defines "fp \<equiv> fullPath C k"
  shows "\<exists>b s'. acquire_create E C k s = (Ok b, s') \<and>
    (if b then tree_of B s fp = None \<and> remembers s' fp \<and>
       tree_of B s' = (tree_of B s)(fp \<mapsto> (JOwner (getSelfLockOwner E C), 0, True))
     else tree_of B s' = tree_of B s \<and> remembers s' fp = remembers s fp)"
proof -
  let ?w = "ZCreate fp (JOwner (getSelfLockOwner E C)) True"
  have run: "acquire_create E C k s = (if server_write (tree_of B s) ?w = None then store_lock E fp (wrote ?w s)
      else (Ok False, wrote ?w s))"
    by (auto simp: acquire_create_def fp_def retryCreate_def perform_def write_run ret_def split: option.split)
  have kept: "remembers (wrote ?w s) fp = remembers s fp" by (simp add: wrote_def)
  show ?thesis
  proof (cases "server_write (tree_of B s) ?w")
    case (Some e)
    then show ?thesis using run kept by (auto simp: tree_wrote)
  next
    case None
    then have "tree_of B s fp = None" by (cases "tree_of B s fp") (auto split: if_splits)
    moreover have "remembers (snd (store_lock E fp t)) fp" "tree_of B (snd (store_lock E fp t)) = tree_of B t"
        "fst (store_lock E fp t) = Ok True" for t
      by (simp_all add: store_lock_def now_def upd_zk_def record_event_def comp_defs remembers_def tree_of_def)
    ultimately show ?thesis
      using None run by (intro exI [of _ True] exI [of _ "snd (store_lock E fp (wrote ?w s))"]) (simp add: tree_wrote prod_eq_iff)
  qed
qed

lemma release_read_run:
  fixes C :: Config and k :: string
  defines "fp \<equiv> fullPath C k"
  shows "\<exists>r s'. release_read E C k s = (Ok r, s') \<and> tree_of B s' = tree_of B s \<and> \<not> remembers s' fp \<and>
    (r \<noteq> None \<longrightarrow> lock_owner (tree_of B s) fp = Some (getSelfLockOwner E C))"
proof -
  let ?s1 = "s\<lparr>zk := (zk s)\<lparr>z_lockHeld := (z_lockHeld (zk s))(fp := None)\<rparr>\<rparr>"
  have "tree_of B ?s1 = tree_of B s" by (simp add: tree_of_def)
  then show ?thesis
    using get_run [of C fp ?s1]
    by (auto simp: release_read_def Let_def fp_def [symmetric] drop_lock_def upd_zk_def modify_def perform_def andThen_def ret_def
        ZkServer.server_get_def tree_of_def lock_owner_def remembers_def split: option.split)
qed

lemma release_delete_run:
  fixes C :: Config and k :: string
  defines "fp \<equiv> fullPath C k"
  shows "\<exists>s'. release_delete E C k v s = (Ok (), s') \<and> remembers s' fp = remembers s fp \<and>
    (tree_of B s' = tree_of B s \<or> tree_of B s' = (tree_of B s)(fp := None))"
proof (cases "server_write (tree_of B s) (ZDelete fp v)")
  case None
  then show ?thesis
    by (simp add: release_delete_def retryDelete_def perform_def write_run ret_def tree_wrote fp_def [symmetric] del: server_write.simps)
      (simp add: wrote_def)
next
  case (Some e)
  then show ?thesis
    by (simp add: release_delete_def retryDelete_def perform_def write_run ret_def tree_wrote fp_def [symmetric] del: server_write.simps)
      (simp add: wrote_def)
qed

end

lemma session_remembers:
  assumes "handleSessionEvent e s = (Ok (), s')"
  shows "remembers s' fp \<longleftrightarrow> e \<noteq> NoSession \<and> remembers s fp"
  using assms by (cases e; auto simp: remembers_def upd_zk_def handleCritical_def comp_defs split: if_splits)

section \<open>Many processes\<close>

text \<open>
  The tree of the server, the state of each process, the processes whose first request found the lock free and whose second has
  not been made, those that have read the version of their node to delete it and have not yet done so, and those that
  \<open>AcquireLock\<close> told last that they have the lock.
\<close>
record cluster =
  cl_tree :: ztree
  cl_proc :: "nat \<Rightarrow> st"
  cl_asking :: "nat set"
  cl_leaving :: "nat \<rightharpoonup> int"
  cl_managers :: "nat set"

definition owner_of :: "(nat \<Rightarrow> Config) \<Rightarrow> (nat \<Rightarrow> int) \<Rightarrow> nat \<Rightarrow> LockOwner" where
  "owner_of conf pid p = \<lparr> lo_Hostname = zc_Hostname (c_Zookeeper (conf p)), lo_Pid = pid p \<rparr>"

text \<open>
  One step of the cluster. A process takes part with any environment that has its pid and the server's tree. The server ends a
  session only when its process does not hold the lock in its memory (the client library reports the lost connection before
  the server's timeout has passed) and is not between the two requests of \<open>ReleaseLock\<close>, which are of one session. Whatever else
  happens at the server leaves the node of the lock alone.
\<close>
inductive cluster_step ::
  "(nat \<Rightarrow> Config) \<Rightarrow> (nat \<Rightarrow> int) \<Rightarrow> string \<Rightarrow> cluster \<Rightarrow> cluster \<Rightarrow> bool" for conf pid k where
  read: "p \<notin> cl_asking S \<Longrightarrow> cl_leaving S p = None \<Longrightarrow> e_pid E = pid p \<Longrightarrow>
    acquire_read (with_server (cl_tree S) E) (conf p) k ((cl_proc S p)\<lparr>hist := []\<rparr>) = (Ok r, s') \<Longrightarrow>
    cluster_step conf pid k S (S\<lparr>cl_tree := tree_of (cl_tree S) s', cl_proc := (cl_proc S)(p := s'),
      cl_asking := (if r = None then insert p (cl_asking S) else cl_asking S),
      cl_managers := (if r = Some True then insert p (cl_managers S) else cl_managers S - {p})\<rparr>)"
| create: "p \<in> cl_asking S \<Longrightarrow> e_pid E = pid p \<Longrightarrow>
    acquire_create (with_server (cl_tree S) E) (conf p) k ((cl_proc S p)\<lparr>hist := []\<rparr>) = (Ok b, s') \<Longrightarrow>
    cluster_step conf pid k S (S\<lparr>cl_tree := tree_of (cl_tree S) s', cl_proc := (cl_proc S)(p := s'),
      cl_asking := cl_asking S - {p},
      cl_managers := (if b then insert p (cl_managers S) else cl_managers S)\<rparr>)"
| lost_reply: "p \<in> cl_asking S \<Longrightarrow> cl_tree S (fullPath (conf p) k) = None \<Longrightarrow>
    cluster_step conf pid k S (S\<lparr>cl_tree := (cl_tree S)(fullPath (conf p) k \<mapsto> (JOwner (owner_of conf pid p), 0, True)),
      cl_asking := cl_asking S - {p}\<rparr>)"
| release: "p \<notin> cl_asking S \<Longrightarrow> cl_leaving S p = None \<Longrightarrow> e_pid E = pid p \<Longrightarrow>
    release_read (with_server (cl_tree S) E) (conf p) k ((cl_proc S p)\<lparr>hist := []\<rparr>) = (Ok v, s') \<Longrightarrow>
    cluster_step conf pid k S (S\<lparr>cl_tree := tree_of (cl_tree S) s', cl_proc := (cl_proc S)(p := s'),
      cl_leaving := (cl_leaving S)(p := v), cl_managers := cl_managers S - {p}\<rparr>)"
| delete: "cl_leaving S p = Some v \<Longrightarrow> e_pid E = pid p \<Longrightarrow>
    release_delete (with_server (cl_tree S) E) (conf p) k v ((cl_proc S p)\<lparr>hist := []\<rparr>) = (Ok (), s') \<Longrightarrow>
    cluster_step conf pid k S (S\<lparr>cl_tree := tree_of (cl_tree S) s', cl_proc := (cl_proc S)(p := s'),
      cl_leaving := (cl_leaving S)(p := None)\<rparr>)"
| session: "handleSessionEvent e (cl_proc S p) = (Ok (), s') \<Longrightarrow>
    cluster_step conf pid k S (S\<lparr>cl_proc := (cl_proc S)(p := s'),
      cl_managers := (if e = NoSession then cl_managers S - {p} else cl_managers S)\<rparr>)"
| restart: "cluster_step conf pid k S (S\<lparr>cl_proc := (cl_proc S)(p := new_state), cl_asking := cl_asking S - {p},
      cl_leaving := (cl_leaving S)(p := None), cl_managers := cl_managers S - {p}\<rparr>)"
| expire: "\<not> remembers (cl_proc S p) (fullPath (conf p) k) \<Longrightarrow> cl_leaving S p = None \<Longrightarrow>
    lock_owner (cl_tree S) (fullPath (conf p) k) = Some (owner_of conf pid p) \<Longrightarrow>
    cluster_step conf pid k S (S\<lparr>cl_tree := (cl_tree S)(fullPath (conf p) k := None)\<rparr>)"
| others: "(\<And>p. T (fullPath (conf p) k) = cl_tree S (fullPath (conf p) k)) \<Longrightarrow>
    cluster_step conf pid k S (S\<lparr>cl_tree := T\<rparr>)"

text \<open>At first no process remembers a lock; the server's tree is any.\<close>
inductive cluster_reach :: "(nat \<Rightarrow> Config) \<Rightarrow> (nat \<Rightarrow> int) \<Rightarrow> string \<Rightarrow> cluster \<Rightarrow> bool" for conf pid k where
  start: "(\<And>p. cl_proc S p = new_state) \<Longrightarrow> cl_asking S = {} \<Longrightarrow> cl_leaving S = Map.empty \<Longrightarrow>
    cl_managers S = {} \<Longrightarrow> cluster_reach conf pid k S"
| step: "cluster_reach conf pid k S \<Longrightarrow> cluster_step conf pid k S S' \<Longrightarrow> cluster_reach conf pid k S'"

definition cluster_ok :: "(nat \<Rightarrow> Config) \<Rightarrow> (nat \<Rightarrow> int) \<Rightarrow> string \<Rightarrow> cluster \<Rightarrow> bool" where
  "cluster_ok conf pid fp S \<longleftrightarrow>
     (\<forall>p. remembers (cl_proc S p) fp \<longrightarrow> lock_owner (cl_tree S) fp = Some (owner_of conf pid p)) \<and>
     (\<forall>p \<in> cl_managers S. remembers (cl_proc S p) fp) \<and> (\<forall>p \<in> cl_asking S. \<not> remembers (cl_proc S p) fp) \<and>
     (\<forall>p. cl_leaving S p \<noteq> None \<longrightarrow>
        \<not> remembers (cl_proc S p) fp \<and> p \<notin> cl_asking S \<and> lock_owner (cl_tree S) fp = Some (owner_of conf pid p))"

lemma self_owner: "e_pid E = pid p \<Longrightarrow> getSelfLockOwner E (conf p) = owner_of conf pid p"
  by (simp add: getSelfLockOwner_def owner_of_def)

lemma tree_fresh [simp]: "tree_of B (s\<lparr>hist := []\<rparr>) = B"
  by (simp add: tree_of_def)

lemma step_ok:
  assumes "cluster_step conf pid k S S'" and "cluster_ok conf pid fp S"
    and fp: "\<And>p. fullPath (conf p) k = fp" and "inj (owner_of conf pid)"
  shows "cluster_ok conf pid fp S'"
  using assms(1)
proof cases
  case (read p E r s')
  from served.acquire_read_run [of "cl_tree S" E "conf p" k "(cl_proc S p)\<lparr>hist := []\<rparr>"] read assms(2)
  show ?thesis unfolding fp cluster_ok_def by (auto simp: self_owner)
next
  case (create p E b s')
  from served.acquire_create_run [of "cl_tree S" E "conf p" k "(cl_proc S p)\<lparr>hist := []\<rparr>"] create assms(2)
  show ?thesis unfolding fp cluster_ok_def by (auto simp: self_owner lock_owner_def split: if_splits)
next
  case (release p E v s')
  from served.release_read_run [of "cl_tree S" E "conf p" k "(cl_proc S p)\<lparr>hist := []\<rparr>"] release assms(2)
  show ?thesis unfolding fp cluster_ok_def by (auto simp: self_owner)
next
  case (delete p v E s')
  from served.release_delete_run [of "cl_tree S" E "conf p" k v "(cl_proc S p)\<lparr>hist := []\<rparr>"] delete assms(2)
  have del: "cl_tree S' = cl_tree S \<or> cl_tree S' = (cl_tree S)(fp := None)" "\<not> remembers s' fp"
    and S': "cl_proc S' = (cl_proc S)(p := s')" "cl_leaving S' = (cl_leaving S)(p := None)" "cl_asking S' = cl_asking S"
      "cl_managers S' = cl_managers S"
    and own: "lock_owner (cl_tree S) fp = Some (owner_of conf pid p)"
    unfolding fp cluster_ok_def by auto
  have "q = p" if "remembers (cl_proc S q) fp \<or> cl_leaving S q \<noteq> None" for q
    using that own assms(2,4) unfolding cluster_ok_def by (auto simp: inj_eq)
  then have one: "\<not> remembers (cl_proc S q) fp" "q \<noteq> p \<Longrightarrow> cl_leaving S q = None" for q
    using delete assms(2) unfolding cluster_ok_def by (metis option.simps(3))+
  moreover have "cl_managers S = {}" using one(1) assms(2) unfolding cluster_ok_def by auto
  ultimately have "\<not> remembers (cl_proc S' q) fp" "cl_leaving S' q = None" "cl_managers S' = {}" for q
    using del(2) S' by simp_all
  then show ?thesis unfolding cluster_ok_def by simp
next
  case (session e p s')
  with session_remembers [OF session(2)] assms(2) show ?thesis unfolding cluster_ok_def by (auto split: if_splits)
qed (use assms in \<open>auto simp: cluster_ok_def lock_owner_def remembers_def new_state_def inj_eq\<close>)


section \<open>An election\<close>

text \<open>Two processes find the lock free; the first creates it, and the second fails to.\<close>
definition race_pid :: "nat \<Rightarrow> int" where "race_pid p = int p"

definition race_env :: "nat \<Rightarrow> env" where "race_env p = sample_env\<lparr>e_pid := int p\<rparr>"

definition race0 :: cluster where
  "race0 = \<lparr> cl_tree = sample_tree, cl_proc = (\<lambda>p. new_state), cl_asking = {}, cl_leaving = Map.empty, cl_managers = {} \<rparr>"

definition race_read :: "nat \<Rightarrow> cluster \<Rightarrow> cluster" where
  "race_read p S =
     (case acquire_read (with_server (cl_tree S) (race_env p)) sample_config pathManagerLock ((cl_proc S p)\<lparr>hist := []\<rparr>) of
       (Ok r, s') \<Rightarrow> S\<lparr>cl_tree := tree_of (cl_tree S) s', cl_proc := (cl_proc S)(p := s'),
          cl_asking := (if r = None then insert p (cl_asking S) else cl_asking S),
          cl_managers := (if r = Some True then insert p (cl_managers S) else cl_managers S - {p})\<rparr>
     | (Halt h, s') \<Rightarrow> S)"

definition race_create :: "nat \<Rightarrow> cluster \<Rightarrow> cluster" where
  "race_create p S =
     (case acquire_create (with_server (cl_tree S) (race_env p)) sample_config pathManagerLock ((cl_proc S p)\<lparr>hist := []\<rparr>) of
       (Ok b, s') \<Rightarrow> S\<lparr>cl_tree := tree_of (cl_tree S) s', cl_proc := (cl_proc S)(p := s'),
          cl_asking := cl_asking S - {p}, cl_managers := (if b then insert p (cl_managers S) else cl_managers S)\<rparr>
     | (Halt h, s') \<Rightarrow> S)"

abbreviation "race_reach \<equiv> cluster_reach (\<lambda>p. sample_config) race_pid pathManagerLock"

lemma race_reach_read:
  assumes "race_reach S" and "p \<notin> cl_asking S" and "cl_leaving S p = None"
  shows "race_reach (race_read p S)"
proof (cases "acquire_read (with_server (cl_tree S) (race_env p)) sample_config pathManagerLock ((cl_proc S p)\<lparr>hist := []\<rparr>)")
  case (Pair x s')
  show ?thesis
  proof (cases x)
    case (Ok r)
    with Pair have "cluster_step (\<lambda>p. sample_config) race_pid pathManagerLock S (race_read p S)"
      using cluster_step.read [of p S "race_env p" race_pid "\<lambda>p. sample_config" pathManagerLock r s'] assms(2,3)
      unfolding race_read_def by (simp add: race_pid_def race_env_def)
    with assms(1) show ?thesis by (rule cluster_reach.step)
  qed (use Pair assms in \<open>simp add: race_read_def\<close>)
qed

lemma race_reach_create:
  assumes "race_reach S" and "p \<in> cl_asking S"
  shows "race_reach (race_create p S)"
proof (cases "acquire_create (with_server (cl_tree S) (race_env p)) sample_config pathManagerLock ((cl_proc S p)\<lparr>hist := []\<rparr>)")
  case (Pair x s')
  show ?thesis
  proof (cases x)
    case (Ok b)
    with Pair have "cluster_step (\<lambda>p. sample_config) race_pid pathManagerLock S (race_create p S)"
      using cluster_step.create [of p S "race_env p" race_pid "\<lambda>p. sample_config" pathManagerLock b s'] assms(2)
      unfolding race_create_def by (simp add: race_pid_def race_env_def)
    with assms(1) show ?thesis by (rule cluster_reach.step)
  qed (use Pair assms in \<open>simp add: race_create_def\<close>)
qed

definition race_end :: cluster where
  "race_end = race_create 1 (race_create 0 (race_read 1 (race_read 0 race0)))"

lemma race_leaving [simp]: "cl_leaving (race_read p S) = cl_leaving S" "cl_leaving (race_create p S) = cl_leaving S"
  by (simp_all add: race_read_def race_create_def split: prod.split outcome.split)

lemma race_run: "race_reach race_end"
proof -
  have leaving: "cl_leaving race0 p = None" for p by (simp add: race0_def)
  have "race_reach race0" by (rule cluster_reach.start) (simp_all add: race0_def)
  moreover have "0 \<notin> cl_asking race0" by code_simp
  ultimately have "race_reach (race_read 0 race0)" using leaving by (rule race_reach_read)
  moreover have "1 \<notin> cl_asking (race_read 0 race0)" by code_simp
  ultimately have "race_reach (race_read 1 (race_read 0 race0))" by (rule race_reach_read) (simp add: leaving)
  moreover have "0 \<in> cl_asking (race_read 1 (race_read 0 race0))" by code_simp
  ultimately have "race_reach (race_create 0 (race_read 1 (race_read 0 race0)))" by (rule race_reach_create)
  moreover have "1 \<in> cl_asking (race_create 0 (race_read 1 (race_read 0 race0)))" by code_simp
  ultimately show ?thesis unfolding race_end_def by (rule race_reach_create)
qed


end
