(* ===== verification/Ending.thy ===== *)
theory Ending
  imports App SwitchoverLaws Sample
begin

text \<open>
  The waiting loops of a switchover come to an end: with a clock that does not go back and that sleeping
  moves on, a loop \<open>for time.Now().Before(deadline)\<close> whose rounds sleep ends within its timeout. The
  fuel of the model is then enough, so that the result of the loop is never "it does not return".
\<close>

section \<open>Clocks\<close>

definition ticks :: "duration \<Rightarrow> event list \<Rightarrow> nat" where
  "ticks d es = length (filter (\<lambda>e. e = EvSleep d) es)"

text \<open>
  Documented behaviour of Go's runtime: \<open>time.Now\<close> has a monotonic clock; \<open>time.Sleep(d)\<close> takes \<open>d\<close> at
  least. (The event \<open>EvSleep\<close> is also recorded for a ticker of period \<open>d\<close>, whose first tick within a
  stretch of the history may have been waiting already: hence the one that does not count.)
\<close>
definition ticking :: "env \<Rightarrow> bool" where
  "ticking E \<longleftrightarrow> (\<forall>d h es. 0 \<le> d \<longrightarrow> e_now E h \<le> e_now E (es @ h) \<and>
     e_now E h + d * (int (ticks d es) - 1) \<le> e_now E (es @ h))"

lemma ticks_simps [simp]:
  "ticks d [] = 0" "ticks d (e # es) = (if e = EvSleep d then Suc (ticks d es) else ticks d es)"
  "ticks d (xs @ ys) = ticks d xs + ticks d ys"
  by (simp_all add: ticks_def)

lemma tickingD:
  assumes "ticking E" and "0 \<le> d"
  shows "e_now E h + d * (int (ticks d es) - 1) \<le> e_now E (es @ h)"
  using assms by (simp add: ticking_def)

lemma ticking_later: "ticking E \<Longrightarrow> e_now E h \<le> e_now E (es @ h)"
  unfolding ticking_def by (meson order_refl)

text \<open>The rounds that are enough for a timeout when every round sleeps \<open>d\<close>.\<close>
definition rounds :: "duration \<Rightarrow> duration \<Rightarrow> nat" where
  "rounds d timeout = nat (timeout div d) + 4"

section \<open>Loops with a deadline\<close>

text \<open>\<open>paced d m\<close>: a round that asks for another one has slept; no round is endless itself.\<close>
definition paced :: "duration \<Rightarrow> ('x + 'r) M \<Rightarrow> bool" where
  "paced d m \<longleftrightarrow> (\<forall>s r s'. m s = (r, s') \<longrightarrow> r \<noteq> Halt OutOfFuel \<and>
     (\<exists>new. hist s' = new @ hist s \<and> (\<forall>y. r = Ok (Inl y) \<longrightarrow> 0 < ticks d new)))"

lemma pacedD:
  assumes "paced d m" and "m s = (r, s')"
  shows "r \<noteq> Halt OutOfFuel"
    and "\<exists>new. hist s' = new @ hist s \<and> (\<forall>y. r = Ok (Inl y) \<longrightarrow> 0 < ticks d new)"
  using assms by (auto simp: paced_def)

lemma iterate_paced:
  assumes "ticking E" and "0 < d" and body: "\<And>x. paced d (body x)"
    and before: "\<And>x s y s'. body x s = (Ok (Inl y), s') \<Longrightarrow> e_now E (hist s) < deadline"
    and start: "hist s = es @ h0" "k \<le> ticks d es"
    and fuel: "deadline - e_now E h0 \<le> d * (int (k + n) - 1)"
  shows "fst (iterate (Suc n) body x s) \<noteq> Halt OutOfFuel"
  using start fuel
proof (induction n arbitrary: x s es k)
  case 0
  obtain r s' where b: "body x s = (r, s')" by (cases "body x s")
  have "d * (int k - 1) \<le> d * (int (ticks d es) - 1)"
    using 0(2) assms(2) by (intro mult_left_mono) simp_all
  moreover have "e_now E h0 + d * (int (ticks d es) - 1) \<le> e_now E (hist s)"
    unfolding 0(1) using tickingD [OF assms(1)] assms(2) by simp
  moreover have "deadline - e_now E h0 \<le> d * (int k - 1)" using 0(3) by simp
  ultimately have "deadline \<le> e_now E (hist s)" by linarith
  with before [of x s _ s'] b have "r \<noteq> Ok (Inl y)" for y by auto
  with b pacedD(1) [OF body b] show ?case
    by (auto simp: perform_def ret_def split: outcome.splits sum.splits)
next
  case (Suc n)
  obtain r s' where b: "body x s = (r, s')" by (cases "body x s")
  show ?case
  proof (cases "\<exists>y. r = Ok (Inl y)")
    case True
    then obtain y where r: "r = Ok (Inl y)" by blast
    obtain new where new: "hist s' = new @ hist s" "0 < ticks d new" using pacedD(2) [OF body b] r by blast
    have "fst (iterate (Suc n) body y s') \<noteq> Halt OutOfFuel"
    proof (rule Suc.IH)
      show "hist s' = (new @ es) @ h0" using new(1) Suc.prems(1) by simp
      show "Suc k \<le> ticks d (new @ es)" using new(2) Suc.prems(2) by simp
      show "deadline - e_now E h0 \<le> d * (int (Suc k + n) - 1)" using Suc.prems(3) by simp
    qed
    with b r show ?thesis by (subst iterate.simps(2)) (simp add: perform_def del: iterate.simps)
  next
    case False
    with b pacedD(1) [OF body b] show ?thesis
      by (auto simp: perform_def ret_def split: outcome.splits sum.splits)
  qed
qed

lemma rounds_enough:
  assumes "0 < d" and "rounds d timeout \<le> n"
  shows "\<exists>k. n = Suc k \<and> timeout \<le> d * (int k - 1)"
proof (intro exI conjI)
  show "n = Suc (n - 1)" using assms(2) by (simp add: rounds_def)
  have "timeout div d + 1 \<le> int (n - 1) - 1" using assms(2) by (simp add: rounds_def)
  then have "d * (timeout div d + 1) \<le> d * (int (n - 1) - 1)" using assms(1) by (intro mult_left_mono) simp_all
  moreover have "timeout < d * (timeout div d + 1)"
    using assms(1) by (simp add: distrib_left) (metis add_strict_left_mono mult_div_mod_eq pos_mod_bound)
  ultimately show "timeout \<le> d * (int (n - 1) - 1)" by linarith
qed

lemma rounds_mono: "0 < d \<Longrightarrow> x \<le> y \<Longrightarrow> rounds d x \<le> rounds d y"
  unfolding rounds_def by (simp add: nat_mono zdiv_mono1)

text \<open>\<open>for time.Now().Before(deadline)\<close> with a sleep in every round.\<close>
lemma until_deadline_ends:
  assumes "ticking E" and "0 < d" and body: "\<And>x. paced d (body x)"
    and fuel: "rounds d (deadline - e_now E (hist s)) \<le> e_fuel E"
  shows "fst (until_deadline E deadline body timeout x s) \<noteq> Halt OutOfFuel"
proof -
  let ?round = "\<lambda>y. perform (now E) (\<lambda>t. if t < deadline then body y else ret (Inr (timeout y)))"
  obtain k where k: "e_fuel E = Suc k" "deadline - e_now E (hist s) \<le> d * (int k - 1)"
    using rounds_enough [OF assms(2) fuel] by blast
  have now: "?round y s = (if e_now E (hist s) < deadline then body y (s\<lparr>hist := EvNow (e_now E (hist s)) # hist s\<rparr>)
      else (Ok (Inr (timeout y)), s\<lparr>hist := EvNow (e_now E (hist s)) # hist s\<rparr>))" for y s
    by (simp add: now_def comp_defs record_event_def)
  have paced: "paced d (?round y)" for y
    unfolding paced_def
  proof (intro allI impI)
    fix s r s' assume run: "?round y s = (r, s')"
    show "r \<noteq> Halt OutOfFuel \<and> (\<exists>new. hist s' = new @ hist s \<and> (\<forall>y. r = Ok (Inl y) \<longrightarrow> 0 < ticks d new))"
    proof (cases "e_now E (hist s) < deadline")
      case True
      with run have "body y (s\<lparr>hist := EvNow (e_now E (hist s)) # hist s\<rparr>) = (r, s')" by (simp add: now)
      from pacedD [OF body this] show ?thesis by auto
    next
      case False
      with run have "r = Ok (Inr (timeout y))" "hist s' = [EvNow (e_now E (hist s))] @ hist s" by (auto simp: now)
      then show ?thesis by blast
    qed
  qed
  have "fst (iterate (Suc k) ?round x s) \<noteq> Halt OutOfFuel"
  proof (rule iterate_paced [OF assms(1,2) paced])
    show "e_now E (hist s) < deadline" if "?round y s = (Ok (Inl z), s')" for y s z s'
      using that unfolding now by (auto split: if_splits)
    show "hist s = [] @ hist s" "0 \<le> ticks d []" "deadline - e_now E (hist s) \<le> d * (int (0 + k) - 1)"
      using k(2) by simp_all
  qed
  then show ?thesis by (simp add: until_deadline_def k(1))
qed

text \<open>
  Go's \<open>select\<close> takes one of the ready cases at random: the case of a context whose deadline has passed
  is taken at the latest \<open>grace\<close> after it.
\<close>
definition prompt :: "duration \<Rightarrow> env \<Rightarrow> bool" where
  "prompt grace E \<longleftrightarrow> (\<forall>h t. t + grace \<le> e_now E h \<longrightarrow> e_done E h t)"

lemma tick_loop_ends:
  assumes "ticking E" and "prompt grace E" and "0 < d"
    and body: "\<And>x s. fst (body x s) \<noteq> Halt OutOfFuel \<and> (\<exists>new. hist (snd (body x s)) = new @ hist s)"
    and fuel: "rounds d (deadline + grace - e_now E (hist s)) \<le> e_fuel E"
  shows "fst (tick_loop E d deadline body timeout x s) \<noteq> Halt OutOfFuel"
proof -
  let ?round = "\<lambda>y. andThen (sleep d) (perform (gets (\<lambda>s. e_done E (hist s) deadline)) (\<lambda>done.
         if done then ret (Inr (timeout y)) else body y))"
  obtain k where k: "e_fuel E = Suc k" "deadline + grace - e_now E (hist s) \<le> d * (int k - 1)"
    using rounds_enough [OF assms(3) fuel] by blast
  have round: "?round y s = (let s1 = s\<lparr>hist := EvSleep d # hist s\<rparr> in
      if e_done E (hist s1) deadline then (Ok (Inr (timeout y)), s1) else body y s1)" for y s
    by (simp add: sleep_def comp_defs record_event_def Let_def)
  have paced: "paced d (?round y)" for y
    unfolding paced_def
  proof (intro allI impI)
    fix s r s' assume run: "?round y s = (r, s')"
    let ?s1 = "s\<lparr>hist := EvSleep d # hist s\<rparr>"
    show "r \<noteq> Halt OutOfFuel \<and> (\<exists>new. hist s' = new @ hist s \<and> (\<forall>y. r = Ok (Inl y) \<longrightarrow> 0 < ticks d new))"
    proof (cases "e_done E (hist ?s1) deadline")
      case True
      with run have "r = Ok (Inr (timeout y))" "hist s' = [EvSleep d] @ hist s"
        unfolding round by (auto simp: Let_def)
      then show ?thesis by blast
    next
      case False
      with run have b: "body y ?s1 = (r, s')" unfolding round by (auto simp: Let_def)
      with body [of y ?s1] obtain new where "r \<noteq> Halt OutOfFuel" "hist s' = new @ hist ?s1" by auto
      then show ?thesis by (intro conjI exI [of _ "new @ [EvSleep d]"]) auto
    qed
  qed
  have "fst (iterate (Suc k) ?round x s) \<noteq> Halt OutOfFuel"
  proof (rule iterate_paced [OF assms(1,3) paced])
    show "e_now E (hist s) < deadline + grace" if "?round y s = (Ok (Inl z), s')" for y s z s'
    proof (rule ccontr)
      assume "\<not> ?thesis"
      moreover have "e_now E (hist s) \<le> e_now E ([EvSleep d] @ hist s)"
        using assms(1,3) unfolding ticking_def by (meson less_imp_le)
      ultimately have "e_done E (EvSleep d # hist s) deadline" using assms(2) by (simp add: prompt_def)
      with that show False unfolding round by (simp add: Let_def)
    qed
    show "hist s = [] @ hist s" "0 \<le> ticks d []"
      "deadline + grace - e_now E (hist s) \<le> d * (int (0 + k) - 1)"
      using k(2) by simp_all
  qed
  then show ?thesis by (simp add: tick_loop_def k(1))
qed

section \<open>Pacing the rounds\<close>

definition all_but_spin :: permit where
  "all_but_spin = \<lparr> p_ev = (\<lambda>e. True), p_crit = True, p_spin = False, p_link = True, p_hosts = (\<lambda>h. True) \<rparr>"

lemma all_but_spin_mays [foot_intros]:
  "p_ev all_but_spin e" "host_may all_but_spin h P" "may_write all_but_spin C path" "senti_may all_but_spin"
  by (simp_all add: all_but_spin_def host_may_def may_write_def senti_may_def)

lemma extends: "foot A m \<Longrightarrow> m s = (r, s') \<Longrightarrow> \<exists>new. hist s' = new @ hist s"
  using foot_hist by (fastforce simp: extends_by_def)

lemma paced_perform:
  assumes "foot all_but_spin m" and "\<And>x. paced d (k x)"
  shows "paced d (perform m k)"
  unfolding paced_def
proof (intro allI impI)
  fix s r s' assume run: "perform m k s = (r, s')"
  obtain r0 t where ms: "m s = (r0, t)" by (cases "m s")
  obtain n0 where n0: "hist t = n0 @ hist s" using extends [OF assms(1) ms] by blast
  have e: "r0 \<noteq> Halt OutOfFuel" using foot_frame(4) [OF assms(1) ms] by (simp add: all_but_spin_def)
  show "r \<noteq> Halt OutOfFuel \<and> (\<exists>new. hist s' = new @ hist s \<and> (\<forall>y. r = Ok (Inl y) \<longrightarrow> 0 < ticks d new))"
  proof (cases r0)
    case (Ok x)
    with run ms have k: "k x t = (r, s')" by (simp add: perform_def)
    obtain new where "hist s' = new @ hist t" "\<forall>y. r = Ok (Inl y) \<longrightarrow> 0 < ticks d new"
      using pacedD(2) [OF assms(2) k] by blast
    with n0 pacedD(1) [OF assms(2) k] show ?thesis by (intro conjI exI [of _ "new @ n0"]) auto
  next
    case (Halt h)
    with run ms e n0 show ?thesis by (auto simp: perform_def)
  qed
qed

lemma paced_intros:
  "paced d (ret (Inr x))"
  "paced d (andThen (sleep d) (ret (Inl y)))"
  "(b \<Longrightarrow> paced d m) \<Longrightarrow> (\<not> b \<Longrightarrow> paced d m') \<Longrightarrow> paced d (if b then m else m')"
  "paced d l \<Longrightarrow> (\<And>z. paced d (k z)) \<Longrightarrow> paced d (case p of None \<Rightarrow> l | Some z \<Rightarrow> k z)"
  by (auto simp: paced_def ret_def sleep_def record_event_def comp_defs split: option.splits)

lemma paced_andThen: "foot all_but_spin m \<Longrightarrow> paced d k \<Longrightarrow> paced d (andThen m k)"
  unfolding andThen_def by (rule paced_perform)

text \<open>A round that sleeps first.\<close>
lemma paced_slept:
  assumes "foot all_but_spin m"
  shows "paced d (andThen (sleep d) m)"
  unfolding paced_def
proof (intro allI impI)
  fix s r s' assume run: "andThen (sleep d) m s = (r, s')"
  then have m: "m (s\<lparr>hist := EvSleep d # hist s\<rparr>) = (r, s')"
    by (simp add: sleep_def comp_defs record_event_def)
  obtain new where "hist s' = new @ EvSleep d # hist s" using extends [OF assms m] by auto
  then show "r \<noteq> Halt OutOfFuel \<and> (\<exists>new. hist s' = new @ hist s \<and> (\<forall>y. r = Ok (Inl y) \<longrightarrow> 0 < ticks d new))"
    using foot_frame(4) [OF assms m] by (intro conjI exI [of _ "new @ [EvSleep d]"]) (simp_all add: all_but_spin_def)
qed

section \<open>Computations that end\<close>

text \<open>\<open>ends m\<close>: \<open>m\<close> is never endless. The clock only goes on.\<close>
definition ends :: "'a M \<Rightarrow> bool" where
  "ends m \<longleftrightarrow> (\<forall>s. fst (m s) \<noteq> Halt OutOfFuel \<and> (\<exists>new. hist (snd (m s)) = new @ hist s))"

named_theorems ends_intros "computations that end"

lemma ends_foot: "foot all_but_spin m \<Longrightarrow> ends m"
  unfolding ends_def
proof
  fix s assume f: "foot all_but_spin m"
  obtain r s' where m: "m s = (r, s')" by (cases "m s")
  show "fst (m s) \<noteq> Halt OutOfFuel \<and> (\<exists>new. hist (snd (m s)) = new @ hist s)"
    using foot_frame(4) [OF f m] extends [OF f m] by (simp add: m all_but_spin_def)
qed

lemma endsD:
  assumes "ends m" and "m s = (r, s')"
  shows "r \<noteq> Halt OutOfFuel" and "\<exists>new. hist s' = new @ hist s"
  using assms unfolding ends_def by (metis fst_conv, metis snd_conv)

lemma endsI:
  assumes "\<And>s. fst (m s) \<noteq> Halt OutOfFuel" and "foot A m"
  shows "ends m"
  unfolding ends_def using assms(1) extends [OF assms(2)] by (metis prod.collapse)

lemma ends_perform [ends_intros]:
  assumes "ends m" and "\<And>x. ends (k x)"
  shows "ends (perform m k)"
  unfolding ends_def
proof
  fix s
  obtain r t where m: "m s = (r, t)" by (cases "m s")
  show "fst (perform m k s) \<noteq> Halt OutOfFuel \<and> (\<exists>new. hist (snd (perform m k s)) = new @ hist s)"
  proof (cases r)
    case (Ok x)
    obtain r' u where k: "k x t = (r', u)" by (cases "k x t")
    with Ok m endsD [OF assms(1) m] endsD [OF assms(2) k] show ?thesis by (auto simp: perform_def)
  next
    case (Halt h)
    with m endsD [OF assms(1) m] show ?thesis by (auto simp: perform_def)
  qed
qed

lemma ends_shapes [ends_intros]:
  "ends (ret x)"
  "ends m \<Longrightarrow> ends k \<Longrightarrow> ends (andThen m k)"
  "(b \<Longrightarrow> ends m) \<Longrightarrow> (\<not> b \<Longrightarrow> ends m') \<Longrightarrow> ends (if b then m else m')"
  "(p = None \<Longrightarrow> ends m) \<Longrightarrow> (\<And>y. p = Some y \<Longrightarrow> ends (f y)) \<Longrightarrow>
   ends (case p of None \<Rightarrow> m | Some y \<Rightarrow> f y)"
  "(\<And>e. q = Inl e \<Longrightarrow> ends (l e)) \<Longrightarrow> (\<And>y. q = Inr y \<Longrightarrow> ends (g y)) \<Longrightarrow>
   ends (case q of Inl e \<Rightarrow> l e | Inr y \<Rightarrow> g y)"
  "(\<And>y z. ends (h y z)) \<Longrightarrow> ends (case w of (y, z) \<Rightarrow> h y z)"
  "(\<And>y z. ends (i y z v)) \<Longrightarrow> ends ((case w of (y, z) \<Rightarrow> i y z) v)"
  by (auto simp: andThen_def intro: ends_perform ends_foot foot_ret split: option.splits sum.splits prod.splits)

lemma ends_each:
  "(\<And>x. ends (f x)) \<Longrightarrow> ends (collect f xs)"
  "(\<And>x. ends (g x)) \<Longrightarrow> ends (runParallel E g hs)"
proof -
  have collect: "(\<And>x. ends (f x)) \<Longrightarrow> ends (collect f xs)" for f :: "'x \<Rightarrow> 'y M" and xs
    by (induction xs) (auto intro: ends_intros)
  then show "(\<And>x. ends (f x)) \<Longrightarrow> ends (collect f xs)" .
  show "(\<And>x. ends (g x)) \<Longrightarrow> ends (runParallel E g hs)"
    unfolding runParallel_def
    by (rule ends_perform collect ends_shapes(1) | assumption | rule ends_foot, rule foot_intros)+
qed

lemmas ends_parallel [ends_intros] = ends_each

lemma ends_phases [ends_intros]:
  "ends m \<Longrightarrow> (\<And>x sw. ends (k x sw)) \<Longrightarrow> ends (go m k)"
  "ends m' \<Longrightarrow> ends k' \<Longrightarrow> ends (stop_on f sw m' k')"
  "ends n \<Longrightarrow> (\<And>x. ends (k'' x)) \<Longrightarrow> ends (stop_err f sw n k'')"
  unfolding go_def stop_on_def stop_err_def by (intro ends_intros; simp)+

text \<open>A wait ends when it starts after the moment from which its deadline counts.\<close>
definition ends_after :: "env \<Rightarrow> time \<Rightarrow> 'a M \<Rightarrow> bool" where
  "ends_after E t m \<longleftrightarrow> (\<forall>s. t \<le> e_now E (hist s) \<longrightarrow>
     fst (m s) \<noteq> Halt OutOfFuel \<and> (\<exists>new. hist (snd (m s)) = new @ hist s))"

lemma ends_after_perform:
  assumes "ends_after E t m" and "\<And>x. ends (k x)"
  shows "ends_after E t (perform m k)"
  unfolding ends_after_def
proof (intro allI impI)
  fix s :: st assume t: "t \<le> e_now E (hist s)"
  obtain r u where m: "m s = (r, u)" by (cases "m s")
  from assms(1) t m have e: "r \<noteq> Halt OutOfFuel" "\<exists>new. hist u = new @ hist s"
    by (auto simp: ends_after_def dest: spec [of _ s])
  show "fst (perform m k s) \<noteq> Halt OutOfFuel \<and> (\<exists>new. hist (snd (perform m k s)) = new @ hist s)"
  proof (cases r)
    case (Ok x)
    obtain r' v where k: "k x u = (r', v)" by (cases "k x u")
    with Ok m e endsD [OF assms(2) k] show ?thesis by (auto simp: perform_def)
  next
    case (Halt h)
    with m e show ?thesis by (auto simp: perform_def)
  qed
qed

lemma ends_after_now:
  assumes "ticking E"
  shows "(\<And>t'. ends_after E t (k t')) \<Longrightarrow> ends_after E t (perform (now E) k)"
    and "(\<And>t'. ends_after E t' (k t')) \<Longrightarrow> ends (perform (now E) k)"
proof -
  let ?n = "\<lambda>s::st. s\<lparr>hist := EvNow (e_now E (hist s)) # hist s\<rparr>"
  have run: "perform (now E) k s = k (e_now E (hist s)) (?n s)" for s :: st
    by (simp add: now_def comp_defs record_event_def)
  have later: "e_now E (hist s) \<le> e_now E (hist (?n s))" for s :: st
    using ticking_later [OF assms, of "hist s" "[EvNow (e_now E (hist s))]"] by simp
  have step: "fst (perform (now E) k s) \<noteq> Halt OutOfFuel \<and>
      (\<exists>new. hist (snd (perform (now E) k s)) = new @ hist s)"
    if "fst (k (e_now E (hist s)) (?n s)) \<noteq> Halt OutOfFuel \<and>
      (\<exists>new. hist (snd (k (e_now E (hist s)) (?n s))) = new @ hist (?n s))" for s
    using that unfolding run by (auto intro: exI [of _ "x @ [EvNow (e_now E (hist s))]" for x])
  { assume k: "\<And>t'. ends_after E t (k t')"
    show "ends_after E t (perform (now E) k)"
      unfolding ends_after_def
    proof (intro allI impI, rule step)
      fix s :: st assume "t \<le> e_now E (hist s)"
      with later [of s] have "t \<le> e_now E (hist (?n s))" by (rule order_trans [rotated])
      with k [of "e_now E (hist s)"] show "fst (k (e_now E (hist s)) (?n s)) \<noteq> Halt OutOfFuel \<and>
        (\<exists>new. hist (snd (k (e_now E (hist s)) (?n s))) = new @ hist (?n s))"
        unfolding ends_after_def by blast
    qed }
  { assume k: "\<And>t'. ends_after E t' (k t')"
    show "ends (perform (now E) k)"
      unfolding ends_def
    proof (intro allI, rule step)
      fix s :: st
      show "fst (k (e_now E (hist s)) (?n s)) \<noteq> Halt OutOfFuel \<and>
        (\<exists>new. hist (snd (k (e_now E (hist s)) (?n s))) = new @ hist (?n s))"
        using k [of "e_now E (hist s)"] later [of s] unfolding ends_after_def by blast
    qed }
qed

lemma extends_iterate:
  assumes "\<And>x. foot all_but_spin (body x)"
  shows "\<exists>new. hist (snd (iterate n body x s)) = new @ hist s"
proof -
  let ?A = "all_but_spin\<lparr>p_spin := True\<rparr>"
  have "foot ?A (body x)" for x by (rule foot_mono [OF assms]) (simp_all add: all_but_spin_def)
  then have "foot ?A (iterate n body x)" by (intro foot_iterate) (simp_all add: all_but_spin_def)
  from extends [OF this] show ?thesis by (metis prod.collapse)
qed

lemma ends_after_until:
  assumes "ticking E" and "\<And>x. paced second (body x)" and "\<And>x. foot all_but_spin (body x)"
    and "rounds second timeout \<le> e_fuel E"
  shows "ends_after E t (until_deadline E (t + timeout) body done x)"
  unfolding ends_after_def
proof (intro allI impI conjI)
  fix s :: st assume t: "t \<le> e_now E (hist s)"
  show "fst (until_deadline E (t + timeout) body done x s) \<noteq> Halt OutOfFuel"
  proof (rule until_deadline_ends [OF assms(1) _ assms(2)])
    show "rounds second (t + timeout - e_now E (hist s)) \<le> e_fuel E"
      using rounds_mono [of second "t + timeout - e_now E (hist s)" timeout] t assms(4)
      by (simp add: second_def)
  qed (simp add: second_def)
  show "\<exists>new. hist (snd (until_deadline E (t + timeout) body done x s)) = new @ hist s"
    unfolding until_deadline_def by (rule extends_iterate) (intro foot_intros assms(3))
qed

lemma ends_after_tick:
  assumes "ticking E" and "prompt grace E" and "\<And>x. foot all_but_spin (body x)"
    and "rounds second (timeout + grace) \<le> e_fuel E"
  shows "ends_after E t (tick_loop E second (t + timeout) body done x)"
  unfolding ends_after_def
proof (intro allI impI conjI)
  fix s :: st assume t: "t \<le> e_now E (hist s)"
  show "fst (tick_loop E second (t + timeout) body done x s) \<noteq> Halt OutOfFuel"
  proof (rule tick_loop_ends [OF assms(1,2)])
    show "rounds second (t + timeout + grace - e_now E (hist s)) \<le> e_fuel E"
      using rounds_mono [of second "t + timeout + grace - e_now E (hist s)" "timeout + grace"] t assms(4)
      by (simp add: second_def)
    show "fst (body x s) \<noteq> Halt OutOfFuel \<and> (\<exists>new. hist (snd (body x s)) = new @ hist s)" for x s
      using ends_foot [OF assms(3)] by (simp add: ends_def)
  qed (simp add: second_def)
  show "\<exists>new. hist (snd (tick_loop E second (t + timeout) body done x s)) = new @ hist s"
    unfolding tick_loop_def by (rule extends_iterate) (intro foot_intros assms(3))
qed

section \<open>The waits of a switchover\<close>

lemma catchup_paced: "paced second (catchup_round E C host master u)"
  unfolding catchup_round_def
  by (rule paced_intros foot_getHostState paced_perform)+

lemma ptr_self: "ptr_to (case node of None \<Rightarrow> [] | Some q \<Rightarrow> fst q) node"
  by (simp add: ptr_to_def)

lemma change_foot: "foot all_but_spin (change_round E C host master node masterNode states)"
  unfolding change_round_def Let_def by (rule foot_first foot_intros all_but_spin_mays ptr_self)+

lemma change_paced: "paced second (change_round E C host master node masterNode states)"
  unfolding change_round_def Let_def
  by (rule paced_intros(1,2,3) paced_andThen paced_perform foot_first foot_intros all_but_spin_mays ptr_self)+

lemma promote_foot: "foot all_but_spin (promote_round E C new old t states)"
  unfolding promote_round_def by (rule foot_intros all_but_spin_mays)+

lemma promote_paced: "paced second (promote_round E C new old t states)"
  unfolding promote_round_def
  by (rule paced_intros(1,4) paced_slept paced_perform foot_intros all_but_spin_mays)+

text \<open>The fuel covers the timeouts of the configuration.\<close>
definition long_enough :: "env \<Rightarrow> duration \<Rightarrow> Config \<Rightarrow> bool" where
  "long_enough E grace C \<longleftrightarrow> list_all (\<lambda>t. rounds second t \<le> e_fuel E)
     [vc_WaitReplicationTimeout (c_Valkey C), vc_WaitCatchupTimeout (c_Valkey C),
      vc_WaitPromoteTimeout (c_Valkey C), vc_WaitPoisonPillTimeout (c_Valkey C) + grace]"

lemma ends_waitForCatchup:
  assumes "ticking E" and "long_enough E grace C"
  shows "ends (waitForCatchup E C host master)"
  unfolding waitForCatchup_def using assms
  by (intro ends_intros ends_after_now(2) ends_after_until catchup_paced foot_catchup_round)
    (simp_all add: long_enough_def)

lemma long_enoughD:
  assumes "long_enough E grace C"
  shows "rounds second (vc_WaitReplicationTimeout (c_Valkey C)) \<le> e_fuel E"
    and "rounds second (vc_WaitPromoteTimeout (c_Valkey C)) \<le> e_fuel E"
    and "rounds second (vc_WaitPoisonPillTimeout (c_Valkey C) + grace) \<le> e_fuel E"
  using assms by (simp_all add: long_enough_def)

lemma foot_shard [simp]: "foot A (shard_Get h)" "foot A (shard_Local C)" "foot A (shard_Hosts)"
  unfolding shard_Get_def shard_Local_def shard_Hosts_def by (rule foot_gets)+

lemma may_cmds_all: "may_cmds all_but_spin p cs"
  by (simp add: may_cmds_def all_but_spin_def)

lemma foot_critical_section: "foot all_but_spin enterCritical" "foot all_but_spin exitCritical"
  unfolding enterCritical_def exitCritical_def by (rule foot_modify, simp add: all_but_spin_def)+

lemmas foot_leaf = foot_shard may_cmds_all foot_critical_section foot_first foot_intros all_but_spin_mays ptr_self

lemma ends_changeMaster:
  assumes "ticking E" and "long_enough E grace C"
  shows "ends (changeMaster E C host master)"
  unfolding changeMaster_def attempt_err_def
  by (rule ends_after_now(2) ends_after_perform ends_after_until ends_intros change_paced change_foot assms
      long_enoughD(1) [OF assms(2)] | rule ends_foot, (rule foot_leaf)+)+

lemma ends_promote_loop:
  assumes "ticking E" and "long_enough E grace C"
  shows "ends (promote_loop E C states new old sw)"
  unfolding promote_loop_def stop_err_def
  by (rule ends_after_now ends_after_perform ends_after_until ends_intros promote_paced promote_foot assms
      long_enoughD(2) [OF assms(2)] | rule ends_foot, (rule foot_leaf)+)+

lemma foot_pill_tick: "foot all_but_spin (wait_pill_tick E C pill)"
  unfolding wait_pill_tick_def Let_def by (rule foot_leaf)+

lemma ends_waitPoisonPill:
  assumes "ticking E" and "prompt grace E" and "long_enough E grace C"
  shows "ends (waitPoisonPill E C (vc_WaitPoisonPillTimeout (c_Valkey C)))"
  unfolding waitPoisonPill_def andThen_def
  by (rule ends_after_now ends_after_perform ends_after_tick ends_intros foot_pill_tick assms
      long_enoughD(3) [OF assms(3)])+

text \<open>The whole, phase by phase.\<close>

lemma ends_turn:
  assumes "ticking E" and "long_enough E grace C"
  shows "ends (turn_host E C states new host)" and "ends (turn_before E C states alive new)"
proof -
  show host: "ends (turn_host E C states new host)" for host
    unfolding turn_host_def
    by (rule ends_intros ends_changeMaster assms | rule ends_foot, (rule foot_leaf)+)+
  show "ends (turn_before E C states alive new)"
    unfolding turn_before_def
    by (rule ends_intros host | rule ends_foot, (rule foot_leaf)+)+
qed

lemma ends_pill_for:
  assumes "ticking E" and "prompt grace E" and "long_enough E grace C"
  shows "ends (pill_for E C sw old pill)"
  unfolding pill_for_def Let_def
  by (rule ends_intros ends_waitPoisonPill assms | rule ends_foot, (rule foot_leaf)+)+

lemma ends_freeze:
  assumes "ticking E" and "prompt grace E" and "long_enough E grace C"
  shows "ends (freeze E C states active sw old)"
  unfolding freeze_def init_progress_def read_pill_def Let_def
  by (rule ends_intros ends_pill_for assms | rule ends_foot, (rule foot_leaf)+)+

lemma ends_catch_up:
  assumes "ticking E" and "long_enough E grace C"
  shows "ends (catch_up E C states recent new sw)"
  unfolding catch_up_def progress_def
  by (rule ends_intros ends_changeMaster ends_waitForCatchup assms | rule ends_foot, (rule foot_leaf)+)+

lemma ends_choose: "ends (choose_master E C states active states' sw)"
  unfolding choose_master_def pick_master_def resume_host_def progress_def Let_def
  by (rule ends_intros | rule ends_foot, (rule foot_leaf)+)+

lemma ends_promotion:
  assumes "ticking E" and "prompt grace E" and "long_enough E grace C"
  shows "ends (promotion E C states alive new old sw)"
  unfolding promotion_def read_pill_def Let_def
  by (rule ends_intros ends_pill_for ends_turn ends_promote_loop assms | rule ends_foot, (rule foot_leaf)+)+

lemma ends_turn_replicas:
  assumes "ticking E" and "long_enough E grace C"
  shows "ends (turn_replicas E C states active alive new sw)"
  unfolding turn_replicas_def Let_def
  by (rule ends_intros ends_turn assms | rule ends_foot, (rule foot_leaf)+)+

lemma ends_performSwitchover:
  assumes "ticking E" and "prompt grace E" and "long_enough E grace C"
  shows "ends (performSwitchover E C shardState activeNodes switchover oldMaster)"
  unfolding performSwitchover_def switchover_phases_def progress_def
  by (rule ends_intros ends_freeze ends_choose ends_catch_up ends_promotion ends_turn_replicas assms
      | rule ends_foot, (rule foot_leaf)+)+

text \<open>A clock that only sleeping moves, and a context that notices its deadline at once.\<close>
fun slept :: "event \<Rightarrow> int" where
  "slept (EvSleep d) = max 0 d"
| "slept e = 0"

definition slow_env :: env where
  "slow_env = sample_env\<lparr>e_now := (\<lambda>h. sum_list (map slept h)),
     e_done := (\<lambda>h t. t \<le> sum_list (map slept h)), e_fuel := 1000\<rparr>"

lemma slept_ticks: "0 \<le> d \<Longrightarrow> d * int (ticks d es) \<le> sum_list (map slept es)"
proof (induction es)
  case (Cons e es)
  then show ?case by (cases e) (auto simp: distrib_left)
qed simp

lemma slept_nonneg: "0 \<le> sum_list (map slept es)"
proof -
  have "0 \<le> slept e" for e by (cases e) simp_all
  then show ?thesis by (intro sum_list_nonneg) auto
qed

lemma slow_ticking: "ticking slow_env"
  unfolding ticking_def
proof (intro allI impI conjI)
  fix d :: int and h es :: "event list" assume d: "0 \<le> d"
  show "e_now slow_env h \<le> e_now slow_env (es @ h)"
    using slept_nonneg [of es] by (simp add: slow_env_def)
  show "e_now slow_env h + d * (int (ticks d es) - 1) \<le> e_now slow_env (es @ h)"
    using slept_ticks [OF d, of es] d by (simp add: slow_env_def right_diff_distrib)
qed

text \<open>
  A switchover comes to an end: with a clock that goes on, a context that notices its deadline and fuel for the
  timeouts of the configuration, the run is never endless, whatever the servers and the DCS answer.
\<close>
theorem performSwitchover_ends:
  assumes "ticking E" and "prompt grace E" and "long_enough E grace C"
  shows "fst (performSwitchover E C shardState activeNodes switchover oldMaster s) \<noteq> Halt OutOfFuel"
  using ends_performSwitchover [OF assms] by (simp add: ends_def)

theorem performSwitchover_ends_witness:
  "fst (performSwitchover slow_env sample_config sample_states [''h2'', ''h3''] zero_Switchover ''h1'' sample_state)
     \<noteq> Halt OutOfFuel"
proof (rule performSwitchover_ends)
  show "prompt 0 slow_env" by (simp add: prompt_def slow_env_def)
  show "long_enough slow_env 0 sample_config"
    by code_simp
qed (rule slow_ticking)

end
