(* ===== verification/Rounds.thy ===== *)
theory Rounds
  imports Ending
begin

text \<open>
  Every round of the main loop comes to an end (internal/app/app.go and the handlers of the states), in whatever state the
  process is: the waits of a switchover, of a repair and of a manager that gives its lock up are all bounded.
\<close>

section \<open>The manager's wait for another one\<close>

text \<open>A ticker of any period.\<close>
lemma ends_after_ticker:
  assumes "ticking E" and "prompt grace E" and "0 < d" and "\<And>x. foot all_but_spin (body x)"
    and "rounds d (timeout + grace) \<le> e_fuel E"
  shows "ends_after E t (tick_loop E d (t + timeout) body done x)"
  unfolding ends_after_def
proof (intro allI impI conjI)
  fix s :: st assume t: "t \<le> e_now E (hist s)"
  show "fst (tick_loop E d (t + timeout) body done x s) \<noteq> Halt OutOfFuel"
  proof (rule tick_loop_ends [OF assms(1-3)])
    show "rounds d (t + timeout + grace - e_now E (hist s)) \<le> e_fuel E"
      using rounds_mono [OF assms(3), of "t + timeout + grace - e_now E (hist s)" "timeout + grace"] t assms(5) by simp
    show "fst (body x s) \<noteq> Halt OutOfFuel \<and> (\<exists>new. hist (snd (body x s)) = new @ hist s)" for x s
      using ends_foot [OF assms(4)] by (simp add: ends_def)
  qed
  show "\<exists>new. hist (snd (tick_loop E d (t + timeout) body done x s)) = new @ hist s"
    unfolding tick_loop_def by (rule extends_iterate) (intro foot_intros assms(4))
qed

text \<open>The fuel covers every timeout of a round.\<close>
definition patient :: "env \<Rightarrow> duration \<Rightarrow> Config \<Rightarrow> bool" where
  "patient E grace C \<longleftrightarrow> long_enough E grace C \<and> 0 < c_TickInterval C \<and>
     rounds (c_TickInterval C) (vc_FailoverTimeout (c_Valkey C) + grace) \<le> e_fuel E"

lemma foot_new_manager: "foot all_but_spin (new_manager_tick E C u)"
  unfolding new_manager_tick_def by (rule foot_leaf)+

lemma ends_give_up:
  assumes "ticking E" and "prompt grace E" and "patient E grace C"
  shows "ends (give_up E C master)"
  using assms unfolding give_up_def
  by (intro ends_intros ends_after_now(2) ends_after_ticker foot_new_manager)
    (auto simp: patient_def intro!: ends_foot foot_leaf)

section \<open>The handlers of the states\<close>

lemma all_mays: "p_crit all_but_spin" "p_link all_but_spin" "p_hosts all_but_spin h" "local_may all_but_spin C" "candidate_may all_but_spin C" "lost_may all_but_spin C"
  by (simp_all add: local_may_def candidate_may_def lost_may_def host_may_def may_write_def all_but_spin_def)

lemma ends_run_switchover:
  assumes "ticking E" and "prompt grace E" and "patient E grace C"
  shows "ends (run_switchover E C shardState activeNodes master sw)"
  using assms unfolding run_switchover_def report_switchover_def patient_def
  by - (rule ends_intros ends_performSwitchover | assumption | (elim conjE, assumption) | rule ends_foot, (rule foot_leaf)+)+


lemma ends_watch_master:
  assumes "ticking E" and "prompt grace E" and "patient E grace C"
  shows "ends (watch_master E C shardState shardStateDcs activeNodes master b)"
proof -
  have giveup: "ends m1 \<Longrightarrow> ends m2 \<Longrightarrow> ends m3 \<Longrightarrow> ends (case g of StayManager \<Rightarrow> m1 | GiveUp \<Rightarrow> m2 | CarryOn \<Rightarrow> m3)"
    for g and m1 m2 m3 :: "'a M"
    by (cases g) simp_all
  show ?thesis
    unfolding watch_master_def regular_repair_def Let_def
    by (rule giveup ends_intros ends_give_up [OF assms] | rule ends_foot, (rule foot_leaf all_mays)+)+
qed

lemma ends_handle_Manager:
  assumes "ticking E" and "prompt grace E" and "patient E grace C"
  shows "ends (handle_Manager E C)"
  unfolding handle_Manager_def manage_def managed_maintenance_def
  by (rule ends_intros ends_run_switchover [OF assms] ends_watch_master [OF assms]
      | rule ends_foot, (rule foot_leaf all_mays)+)+

lemma ends_handle_Maintenance: "ends (handle_Maintenance E C)"
  unfolding handle_Maintenance_def leaving_def
  by (rule ends_intros | rule ends_foot, (rule foot_leaf all_mays)+)+

lemma ends_set_lostSince: "ends (set_lostSince t)"
  by (simp add: ends_def set_lostSince_def comp_defs)

lemma ends_handle_Lost: "ends (handle_Lost E C)"
  unfolding handle_Lost_def lost_master_def lost_replica_def lost_offline_def lost_online_def link_alive_def
  by (rule ends_intros ends_set_lostSince | rule ends_foot, (rule foot_leaf all_mays)+)+

text \<open>
  C11 Every round of the main loop comes to an end: whatever state the process is in and whatever the servers and the DCS answer,
  the handler of the state returns (or the process exits), with a clock that goes on, contexts that notice their deadline
  and fuel for the timeouts of the configuration.
\<close>
theorem round_ends:
  assumes "ticking E" and "prompt grace E" and "patient E grace C"
  shows "fst (state_handler E C state s) \<noteq> Halt OutOfFuel"
proof -
  have "ends (state_handler E C state)"
    unfolding state_handler_def
    by (cases state) (simp_all add: ends_handle_Manager [OF assms] ends_handle_Maintenance ends_handle_Lost
        ends_foot foot_handle_Init foot_handle_Candidate all_mays all_but_spin_mays)
  then show ?thesis by (simp add: ends_def)
qed

theorem round_ends_witness: "fst (state_handler slow_env sample_config stateManager sample_state) \<noteq> Halt OutOfFuel"
proof (rule round_ends [OF slow_ticking])
  show "prompt 0 slow_env" by (simp add: prompt_def slow_env_def)
  show "patient slow_env 0 sample_config" by code_simp
qed

end
