(* ===== verification/Critical.thy ===== *)
theory Critical
  imports Process Rounds
begin

text \<open>
  The critical section and the life of a process (internal/app/critical.go, app.go): the flag is set only inside a switchover, so
  that nowhere else the loss of the session ends the process.
\<close>

section \<open>Leaving the critical section\<close>

text \<open>\<open>leaves m\<close>: when it starts outside the critical section and returns, it is outside again.\<close>
definition leaves :: "'a M \<Rightarrow> bool" where
  "leaves m \<longleftrightarrow> (\<forall>s x s'. \<not> critical s \<longrightarrow> m s = (Ok x, s') \<longrightarrow> \<not> critical s')"

named_theorems leaves_intros "computations that leave the critical section"

lemma leavesD: "leaves m \<Longrightarrow> m s = (Ok x, s') \<Longrightarrow> \<not> critical s \<Longrightarrow> \<not> critical s'"
  unfolding leaves_def by blast

lemma leaves_foot: "foot free_but_critical m \<Longrightarrow> leaves m"
  unfolding leaves_def using foot_frame(3) by (fastforce simp: free_but_critical_def)

lemma leaves_perform [leaves_intros]: "leaves m \<Longrightarrow> (\<And>x. leaves (k x)) \<Longrightarrow> leaves (perform m k)"
  unfolding leaves_def by (meson perform_Ok)

lemma leaves_shapes [leaves_intros]:
  "leaves (ret x)"
  "leaves m \<Longrightarrow> leaves k' \<Longrightarrow> leaves (andThen m k')"
  "(b \<Longrightarrow> leaves m) \<Longrightarrow> (\<not> b \<Longrightarrow> leaves m') \<Longrightarrow> leaves (if b then m else m')"
  "(p = None \<Longrightarrow> leaves m) \<Longrightarrow> (\<And>y. p = Some y \<Longrightarrow> leaves (f y)) \<Longrightarrow> leaves (case p of None \<Rightarrow> m | Some y \<Rightarrow> f y)"
  "(\<And>e. q = Inl e \<Longrightarrow> leaves (l e)) \<Longrightarrow> (\<And>y. q = Inr y \<Longrightarrow> leaves (g y)) \<Longrightarrow>
   leaves (case q of Inl e \<Rightarrow> l e | Inr y \<Rightarrow> g y)"
  "(\<And>y z. leaves (h y z)) \<Longrightarrow> leaves (case w of (y, z) \<Rightarrow> h y z)"
  "leaves m1 \<Longrightarrow> leaves m2 \<Longrightarrow> leaves m3 \<Longrightarrow> leaves (case g' of StayManager \<Rightarrow> m1 | GiveUp \<Rightarrow> m2 | CarryOn \<Rightarrow> m3)"
  by (auto simp: andThen_def intro: leaves_perform split: option.split sum.split prod.split giveup.split) (simp add: leaves_def ret_def)

lemma leaves_iterate: "(\<And>x. leaves (body x)) \<Longrightarrow> leaves (iterate n body x)"
proof (induction n arbitrary: x)
  case 0
  show ?case by (simp add: leaves_def halt_def)
next
  case (Suc n)
  then show ?case by (auto intro: leaves_intros)
qed

section \<open>The rounds of the main loop\<close>

lemma leaves_performSwitchover: "leaves (performSwitchover E C ss active sw old)"
  unfolding leaves_def performSwitchover_def andThen_def exitCritical_def
  by (auto simp: modify_def ret_def elim!: perform_Ok split: prod.splits)

lemma free_mays:
  "p_ev free_but_critical e" "p_spin free_but_critical" "p_link free_but_critical" "p_hosts free_but_critical h"
  "host_may free_but_critical h P" "may_write free_but_critical C path" "senti_may free_but_critical"
  "local_may free_but_critical C" "candidate_may free_but_critical C" "lost_may free_but_critical C" "may_cmds free_but_critical p cs"
  by (simp_all add: free_but_critical_def host_may_def may_write_def senti_may_def local_may_def candidate_may_def lost_may_def may_cmds_def)

lemmas free_leaf = foot_shard foot_first foot_intros free_mays ptr_self

lemma leaves_handle_Manager: "leaves (handle_Manager E C)"
  unfolding handle_Manager_def manage_def managed_maintenance_def run_switchover_def report_switchover_def watch_master_def
    regular_repair_def Let_def
  by (rule leaves_intros leaves_performSwitchover | rule leaves_foot, (rule free_leaf)+)+

lemma leaves_handle_Maintenance: "leaves (handle_Maintenance E C)"
  unfolding handle_Maintenance_def leaving_def
  by (rule leaves_intros | rule leaves_foot, (rule free_leaf)+)+

lemma leaves_marks: "leaves (set_lostSince t)" "leaves (modify (\<lambda>s. s\<lparr>app_state := a\<rparr>))"
  by (simp_all add: leaves_def set_lostSince_def comp_defs)

lemma leaves_zk: "leaves (upd_zk f)"
  by (simp add: leaves_def upd_zk_def comp_defs)

lemma leaves_reconnectDCS: "leaves (reconnectDCS E C)"
  unfolding reconnectDCS_def attempt_err_def SetDisconnectCallback_def
  by (rule leaves_intros leaves_zk | rule leaves_foot, (rule free_leaf)+)+

lemma leaves_handle_Lost: "leaves (handle_Lost E C)"
  unfolding handle_Lost_def lost_master_def lost_replica_def lost_offline_def lost_online_def link_alive_def
  by (rule leaves_intros leaves_marks leaves_reconnectDCS | rule leaves_foot, (rule free_leaf)+)+

lemma leaves_tick: "leaves (run_tick E C)"
proof -
  have "leaves (state_handler E C state)" for state
    unfolding state_handler_def
    by (cases state) (simp_all add: leaves_handle_Manager leaves_handle_Maintenance leaves_handle_Lost
        leaves_foot foot_handle_Init foot_handle_Candidate free_mays)
  then show ?thesis
    unfolding run_tick_def tick_step_def enter_state_def
    by (intro leaves_iterate) (rule leaves_intros leaves_marks | assumption | rule leaves_foot, (rule free_leaf)+)+
qed


section \<open>The process\<close>

lemma leaves_start:
  "leaves (andThen (lockDaemonFile E C) (andThen (newTimingReporter E C) (start_up E C)))"
proof -
  have sets: "leaves (modify (\<lambda>s. s\<lparr>cache := c\<rparr>))" "leaves (set_timings t)" "leaves (halt h)" for c t and h
    by (simp_all add: leaves_def set_timings_def comp_defs)
  show ?thesis
    unfolding lockDaemonFile_def newTimingReporter_def openTimingLog_def start_up_def SetDisconnectCallback_def
    by (rule leaves_intros leaves_zk sets | rule leaves_foot, (rule free_leaf)+)+
qed

lemma leaves_goroutines:
  "leaves (Reopen E C)" "leaves (healthChecker_tick E C hc)" "leaves (stateFileHandler_tick E C marshal)"
  "leaves (cacheUpdater_tick E C)" "leaves (handleEvents E)"
  unfolding Reopen_def openTimingLog_def close_log_def stateFileHandler_tick_def Let_def by (rule leaves_foot, (rule free_leaf)+)+

lemma step_leaves: "process_step E C s s' \<Longrightarrow> \<not> critical s \<Longrightarrow> \<not> critical s'"
  by (erule process_step.cases)
    (drule leavesD [OF leaves_tick] leavesD [OF leaves_goroutines(1)] leavesD [OF leaves_goroutines(2)]
      leavesD [OF leaves_goroutines(3)] leavesD [OF leaves_goroutines(4)] leavesD [OF leaves_goroutines(5)]; simp)+

lemma reach_leaves: "process_reach E C s \<Longrightarrow> \<not> critical s"
proof (induction rule: process_reach.induct)
  case (start s)
  then show ?case
    unfolding started_def by (auto simp: new_state_def dest!: NewApp_state leavesD [OF leaves_start])
next
  case (step s s')
  then show ?case using step_leaves by blast
qed

lemma session_survived: "\<not> critical s \<Longrightarrow> \<exists>s'. handleSessionEvent e s = (Ok (), s') \<and> \<not> critical s'"
  by (cases e) (auto simp: upd_zk_def handleCritical_def comp_defs)

text \<open>
  C21 The loss of the session does not end the process: in every state a process reaches, between its steps, it is outside the
  critical section, and whatever events of the session arrive, all of them are handled and none of them makes the process exit.
\<close>
theorem session_loss_survived:
  assumes "process_reach E C s"
  shows "\<not> critical s \<and> (\<exists>s'. each handleSessionEvent evs s = (Ok (), s'))"
proof -
  have "\<not> critical t \<Longrightarrow> \<exists>t'. each handleSessionEvent evs t = (Ok (), t')" for t
  proof (induction evs arbitrary: t)
    case (Cons e evs)
    from session_survived [OF Cons.prems, of e] obtain u where "handleSessionEvent e t = (Ok (), u)" "\<not> critical u" by blast
    with Cons.IH [of u] show ?case by (simp add: andThen_def perform_def)
  qed (simp add: ret_def)
  with reach_leaves [OF assms] show ?thesis by blast
qed

theorem session_loss_survived_witness:
  "\<not> critical ticked_state \<and> (\<exists>s'. each handleSessionEvent [NoSession, TimerFired] ticked_state = (Ok (), s'))"
  by (rule session_loss_survived [OF ticked_reached])

end
