(* ===== verification/CacheLaws.thy ===== *)
theory CacheLaws
  imports Reach
begin

text \<open>
  What the sentinel cache is told (internal/app/cache.go): a cache update describes the shard that the process has seen,
  whatever the order in which the code visits the hosts.
\<close>

section \<open>The hosts of a shard in the cache\<close>

text \<open>A host without an error that answers, one that serves, and a master open for writes.\<close>
definition reachable :: "HostState \<Rightarrow> bool" where
  "reachable hs \<longleftrightarrow> hs_PingOk hs \<and> hs_Error hs = []"

definition serving :: "HostState \<Rightarrow> bool" where
  "serving hs \<longleftrightarrow> reachable hs \<and> \<not> hs_IsOffline hs"

definition open_master :: "HostState \<Rightarrow> bool" where
  "open_master hs \<longleftrightarrow> serving hs \<and> hs_IsMaster hs \<and> \<not> hs_IsReadOnly hs"

definition address_of :: "Config \<Rightarrow> string \<Rightarrow> HostState \<Rightarrow> string" where
  "address_of C h hs = (if sc_AnnounceHostname (c_SentinelMode C) then h else hs_IP hs)"

text \<open>The master and the sentinel that stand for a host.\<close>
definition as_master :: "Config \<Rightarrow> nat \<Rightarrow> string \<times> HostState \<Rightarrow> SentiCacheMaster" where
  "as_master C n = (\<lambda>(h, hs).
     \<lparr> scm_Name = sc_ClusterName (c_SentinelMode C), scm_IP = address_of C h hs, scm_RunID = hs_RunID hs,
       scm_Port = vc_Port (c_Valkey C), scm_Quorum = int n div 2 + 1,
       scm_ParallelSyncs = vc_MaxParallelSyncs (c_Valkey C), scm_ConfigEpoch = 0 \<rparr>)"

definition as_sentinels :: "Config \<Rightarrow> string \<times> HostState \<Rightarrow> SentiCacheSentinel list" where
  "as_sentinels C = (\<lambda>(h, hs). case hs_SentiCacheState hs of
     None \<Rightarrow> []
   | Some ss \<Rightarrow> if h = c_Hostname C \<or> \<not> reachable hs then []
       else [\<lparr> scs_Name = ss_Name ss, scs_RunID = ss_RunID ss, scs_IP = address_of C h hs,
               scs_Port = sc_CachePort (c_SentinelMode C) \<rparr>])"

text \<open>A replica, but for its priority, which is read from the DCS.\<close>
definition as_replicas :: "Config \<Rightarrow> string \<times> HostState \<Rightarrow> SentiCacheReplica list" where
  "as_replicas C = (\<lambda>(h, hs). case hs_ReplicaState hs of
     None \<Rightarrow> []
   | Some rs \<Rightarrow> if \<not> serving hs \<or> hs_IsMaster hs then []
       else [\<lparr> scr_IP = address_of C h hs, scr_RunID = hs_RunID hs, scr_MasterHost = rs_MasterHost rs,
               scr_Port = vc_Port (c_Valkey C), scr_MasterLinkDownTime = rs_MasterLinkDownTime rs, scr_SlavePriority = 0,
               scr_ReplicaAnnounced = 1, scr_MasterPort = vc_Port (c_Valkey C),
               scr_SlaveMasterLinkStatus = (if rs_MasterLinkState rs then 0 else 1),
               scr_SlaveReplOffset = rs_ReplicationOffset rs \<rparr>])"

definition hide_priority :: "SentiCacheReplica \<Rightarrow> SentiCacheReplica" where
  "hide_priority r = r\<lparr>scr_SlavePriority := 0\<rparr>"

section \<open>The state under construction\<close>

text \<open>After the hosts \<open>vs\<close>: the master is the last open one, and those before it announce no address.\<close>
definition built :: "Config \<Rightarrow> nat \<Rightarrow> (string \<times> HostState) list \<Rightarrow> building \<Rightarrow> bool" where
  "built C n vs b \<longleftrightarrow> (let (masterReadOnly, state) = b; ms = filter (open_master \<circ> snd) vs in
     \<not> masterReadOnly \<and> cs_Sentinels state = concat (map (as_sentinels C) vs) \<and>
     map hide_priority (cs_Replicas state) = concat (map (as_replicas C) vs) \<and>
     cs_Master state = (if ms = [] then zero_master else as_master C n (last ms)) \<and>
     (\<forall>m \<in> set (butlast ms). address_of C (fst m) (snd m) = []))"

lemma built_start: "built C n [] (False, zero_cache_state)"
  by (simp add: built_def zero_cache_state_def)

lemma address_of_last:
  assumes "\<forall>m \<in> set (butlast ms). address_of C (fst m) (snd m) = []" and "ms \<noteq> []"
    and "scm_IP (as_master C n (last ms)) = []" and "m \<in> set ms"
  shows "address_of C (fst m) (snd m) = []"
proof (cases "m \<in> set (butlast ms)")
  case False
  have "m \<in> set (butlast ms @ [last ms])" using assms(2,4) by simp
  with False have "m = last ms" by auto
  with assms(3) show ?thesis by (cases "last ms") (simp add: as_master_def)
qed (use assms in blast)

text \<open>What one more host must do to the state.\<close>
lemma built_snoc:
  assumes "built C n vs (False, state)"
    and "cs_Sentinels state' = cs_Sentinels state @ as_sentinels C v"
    and "map hide_priority (cs_Replicas state') = map hide_priority (cs_Replicas state) @ as_replicas C v"
    and "if open_master (snd v) then scm_IP (cs_Master state) = [] \<and> cs_Master state' = as_master C n v
         else cs_Master state' = cs_Master state"
  shows "built C n (vs @ [v]) (False, state')"
proof (cases "open_master (snd v)")
  case False
  with assms show ?thesis by (simp add: built_def Let_def)
next
  case True
  let ?ms = "filter (open_master \<circ> snd) vs"
  have ms: "\<forall>m \<in> set (butlast ?ms). address_of C (fst m) (snd m) = []" "?ms \<noteq> [] \<Longrightarrow> scm_IP (as_master C n (last ?ms)) = []"
    using assms(1,4) True by (auto simp: built_def Let_def split: if_splits)
  have "\<forall>m \<in> set ?ms. address_of C (fst m) (snd m) = []"
    using address_of_last [OF ms(1) _ ms(2)] by (cases "?ms = []") (simp, blast)
  with True assms show ?thesis by (simp add: built_def Let_def)
qed

lemma cache_sentinel_fields [simp]:
  "cs_Replicas (cache_sentinel C h hs state) = cs_Replicas state" "cs_Master (cache_sentinel C h hs state) = cs_Master state"
  "reachable hs \<Longrightarrow> cs_Sentinels (cache_sentinel C h hs state) = cs_Sentinels state @ as_sentinels C (h, hs)"
  by (auto simp: cache_sentinel_def as_sentinels_def address_of_def split: option.split)

lemma unreachable [simp]:
  "\<not> reachable hs \<Longrightarrow> as_sentinels C (h, hs) = []" "\<not> serving hs \<Longrightarrow> as_replicas C (h, hs) = []"
  "hs_IsMaster hs \<Longrightarrow> as_replicas C (h, hs) = []" "\<not> serving hs \<Longrightarrow> \<not> open_master hs" "\<not> reachable hs \<Longrightarrow> \<not> serving hs"
  by (auto simp: as_sentinels_def as_replicas_def open_master_def serving_def split: option.split)

lemma cache_step_built:
  assumes "built C n vs b"
  shows "yields (\<lambda>r. \<forall>b'. r = Inr b' \<longrightarrow> built C n (vs @ [v]) b') (cache_step E C (int n) v (Inr b))"
proof -
  obtain h hs where v: "v = (h, hs)" by (cases v)
  obtain state where b: "b = (False, state)" using assms by (cases b) (auto simp: built_def Let_def)
  let ?s = "cache_sentinel C h hs state"
  note snoc = built_snoc [OF assms [unfolded b]]
  consider "\<not> reachable hs" | "reachable hs" "hs_IsOffline hs" | "serving hs" "hs_IsMaster hs" | "serving hs" "\<not> hs_IsMaster hs"
    by (auto simp: serving_def)
  then show ?thesis
  proof cases
    case 1
    then have "cache_step E C (int n) v (Inr b) = ret (Inr (False, state))"
      by (auto simp: cache_step_def v b reachable_def)
    with 1 show ?thesis by (auto simp: v intro!: yields_ret snoc)
  next
    case 2
    then have "cache_step E C (int n) v (Inr b) = ret (Inr (False, ?s))" "\<not> serving hs"
      by (auto simp: cache_step_def v b reachable_def serving_def)
    with 2 show ?thesis by (auto simp: v intro!: yields_ret snoc)
  next
    case 3
    then have "cache_step E C (int n) v (Inr b) = ret (cache_master C (int n) h hs (False, ?s))" "reachable hs"
      by (auto simp: cache_step_def v b reachable_def serving_def)
    with 3 show ?thesis
      by (auto simp: v cache_master_def open_master_def as_master_def address_of_def intro!: yields_ret snoc split: if_splits)
  next
    case 4
    then have "cache_step E C (int n) v (Inr b) = attempt (GetNodeConfiguration E C h) (\<lambda>nc.
        perform (deref (hs_ReplicaState hs)) (\<lambda>rs. ret (Inr (False, cache_replica C h hs rs nc ?s))))" "reachable hs"
      by (auto simp: cache_step_def v b reachable_def serving_def)
    with 4 show ?thesis
      unfolding attempt_def deref_def
      by (cases "hs_ReplicaState hs") (auto simp: v cache_replica_def as_replicas_def address_of_def open_master_def hide_priority_def
          intro!: wp_intros yields_ret snoc)
  qed
qed

lemma foldM_Inl: "foldM (cache_step E C n) vs (Inl e) = ret (Inl e)"
  by (induction vs) (simp_all add: cache_step_def)

lemma fold_built:
  "built C n us b \<Longrightarrow>
   yields (\<lambda>r. \<forall>b'. r = Inr b' \<longrightarrow> built C n (us @ vs) b') (foldM (cache_step E C (int n)) vs (Inr b))"
proof (induction vs arbitrary: us b)
  case (Cons v vs)
  show ?case
    unfolding foldM.simps
  proof (rule yields_through [OF cache_step_built [OF Cons.prems]])
    fix r :: "goerr + building"
    assume "\<forall>b'. r = Inr b' \<longrightarrow> built C n (us @ [v]) b'"
    then show "yields (\<lambda>r. \<forall>b'. r = Inr b' \<longrightarrow> built C n (us @ v # vs) b') (foldM (cache_step E C (int n)) vs r)"
      using Cons.IH [of "us @ [v]"] by (cases r) (auto simp: foldM_Inl intro: yields_ret)
  qed
qed (auto intro: yields_ret)


section \<open>What a cache update says\<close>

text \<open>
  \<open>describes C ref state\<close>: the master is the one host of \<open>ref\<close> that is a master open for writes with an address to announce;
  the sentinels and the replicas (but for their priorities) are those of the other hosts, and no more.
\<close>
definition describes :: "Config \<Rightarrow> shard_state \<Rightarrow> CacheState \<Rightarrow> bool" where
  "describes C ref state \<longleftrightarrow> (let hosts = {(h, hs). map_of ref h = Some hs} in
     (\<exists>m \<in> hosts. open_master (snd m) \<and> address_of C (fst m) (snd m) \<noteq> [] \<and>
        cs_Master state = as_master C (length ref) m \<and>
        (\<forall>m' \<in> hosts. open_master (snd m') \<and> address_of C (fst m') (snd m') \<noteq> [] \<longrightarrow> m' = m)) \<and>
     set (cs_Sentinels state) = (\<Union>v \<in> hosts. set (as_sentinels C v)) \<and>
     hide_priority ` set (cs_Replicas state) = (\<Union>v \<in> hosts. set (as_replicas C v)))"

lemma built_describes:
  assumes "built C (length ref) vs (ro, state)" and "scm_IP (cs_Master state) \<noteq> []"
    and "set vs = {(h, hs). map_of ref h = Some hs}"
  shows "describes C ref state"
proof -
  let ?ms = "filter (open_master \<circ> snd) vs"
  have ms: "?ms \<noteq> []" "cs_Master state = as_master C (length ref) (last ?ms)"
      "\<forall>m \<in> set (butlast ?ms). address_of C (fst m) (snd m) = []"
    using assms(1,2) by (auto simp: built_def Let_def zero_master_def split: if_splits)
  have last: "last ?ms \<in> set vs" "open_master (snd (last ?ms))" using last_in_set [OF ms(1)] by auto
  have addr: "address_of C (fst (last ?ms)) (snd (last ?ms)) \<noteq> []"
    using assms(2) ms(2) by (cases "last ?ms") (simp add: as_master_def)
  have only: "m = last ?ms" if "m \<in> set vs" "open_master (snd m)" "address_of C (fst m) (snd m) \<noteq> []" for m
  proof -
    have "m \<in> set ?ms" using that by simp
    then have "m \<in> set (butlast ?ms @ [last ?ms])" using ms(1) by simp
    with that(3) ms(3) show ?thesis by auto
  qed
  have "set (map hide_priority (cs_Replicas state)) = (\<Union>v \<in> set vs. set (as_replicas C v))"
    "set (cs_Sentinels state) = (\<Union>v \<in> set vs. set (as_sentinels C v))"
    using assms(1) by (simp_all add: built_def Let_def)
  moreover have "\<exists>m \<in> set vs. open_master (snd m) \<and> address_of C (fst m) (snd m) \<noteq> [] \<and> cs_Master state = as_master C (length ref) m \<and>
      (\<forall>m' \<in> set vs. open_master (snd m') \<and> address_of C (fst m') (snd m') \<noteq> [] \<longrightarrow> m' = m)"
    using last addr only ms(2) by blast
  ultimately show ?thesis
    unfolding describes_def Let_def assms(3) [symmetric] set_map by blast
qed

definition cache_update_words :: "Config \<Rightarrow> shard_state \<Rightarrow> string list \<Rightarrow> bool" where
  "cache_update_words C ref words \<longleftrightarrow> (\<exists>sentinels replicas state. describes C ref state \<and>
     words = update_command (sc_CacheUpdateSecret (c_SentinelMode C)) sentinels replicas state)"

fun cache_event :: "Config \<Rightarrow> shard_state \<Rightarrow> event \<Rightarrow> bool" where
  "cache_event C ref (EvSenti h c r) \<longleftrightarrow>
     (case c of SentinelCacheUpdate words \<Rightarrow> cache_update_words C ref words | _ \<Rightarrow> read_only_cmd c)"
| "cache_event C ref (EvExec a r) \<longleftrightarrow> a = str_fields (sc_CacheRestartCommand (c_SentinelMode C))"
| "cache_event C ref e \<longleftrightarrow> quiet e"


lemma quiet_cache_event: "quiet e \<Longrightarrow> cache_event C ref e"
  by (cases e) (auto split: vcmd.split)

lemma foot_yields:
  assumes "yields P m" and "foot A m" and "\<And>x. P x \<Longrightarrow> foot A (k x)"
  shows "foot A (perform m k)"
proof (rule footI)
  fix s r s'
  assume run: "perform m k s = (r, s')"
  obtain r0 t where m: "m s = (r0, t)" by (cases "m s")
  note f = footD [OF assms(2) m]
  show "frame A s r s'"
  proof (cases r0)
    case (Ok x)
    with run m have k: "k x t = (r, s')" by (simp add: perform_def)
    have "P x" using yieldsD [OF assms(1)] m Ok by blast
    from footD [OF assms(3) [OF this] k] f Ok show ?thesis by (blast intro: frame_trans)
  next
    case (Halt h)
    with run m f show ?thesis by (auto simp: perform_def frame_def returns_def)
  qed
qed

lemma visited_hosts: "yields (\<lambda>vs. set vs = {(h, hs). map_of ref h = Some hs}) (range_states E ref)"
proof -
  have "yields (\<lambda>q. set q = set ks) (any_order E ks)" for ks
    unfolding any_order_def Let_def andThen_def by (intro wp_intros yields_ret) auto
  then show ?thesis
    unfolding range_states_def
  proof (rule yields_through)
    fix q :: "string list"
    assume "set q = set (map fst ref)"
    moreover have "h \<in> set (map fst ref)" if "map_of ref h = Some hs" for h hs
      using that by (metis map_of_eq_None_iff option.simps(3) set_map)
    ultimately have "{(h, hs). h \<in> set q \<and> map_of ref h = Some hs} = {(h, hs). map_of ref h = Some hs}" by blast
    moreover have "set (List.map_filter (\<lambda>h. map_option (Pair h) (map_of ref h)) q) = {(h, hs). h \<in> set q \<and> map_of ref h = Some hs}"
      by (force simp: map_filter_def)
    ultimately have "set (List.map_filter (\<lambda>h. map_option (Pair h) (map_of ref h)) q) = {(h, hs). map_of ref h = Some hs}"
      by simp
    then show "yields (\<lambda>vs. set vs = {(h, hs). map_of ref h = Some hs})
        (ret (List.map_filter (\<lambda>h. map_option (Pair h) (map_of ref h)) q))"
      by (rule yields_ret)
  qed
qed

lemma may_tell:
  "describes C ref state \<Longrightarrow> p_ev (permit_of (cache_event C ref)) (EvSenti h (SentinelCacheUpdate
     (update_command (sc_CacheUpdateSecret (c_SentinelMode C)) sentinels replicas state)) r)"
  "p_ev (permit_of (cache_event C ref)) (EvExec (str_fields (sc_CacheRestartCommand (c_SentinelMode C))) r')"
  "read_only_cmd SentinelMasters" "read_only_cmd SentinelSentinels" "read_only_cmd SentinelReplicas"
  by (auto simp: cache_update_words_def permit_of_def)

lemma foot_describing_query:
  "read_only_cmd c \<Longrightarrow> foot A (senti_query E h c parse s)"
  unfolding senti_query_def senti_ensureConn_def by (rule foot_intros disjI1 | assumption)+

lemma foot_describing_update:
  assumes "describes C ref state"
  shows "foot (permit_of (cache_event C ref)) (cache_Update E C h state s)"
  unfolding cache_Update_def senti_method_defs senti_restart_def Let_def
  by (rule foot_describing_query may_tell assms | rule foot_intros | rule disjI2)+

lemma foot_update_describes: "foot (permit_of (cache_event C ref)) (updateCache E C ref h s)"
  unfolding updateCache_def
proof (rule foot_yields [OF visited_hosts foot_range_states])
  fix vs
  assume vs: "set vs = {(h, hs). map_of ref h = Some hs}"
  have "yields (\<lambda>r. \<forall>b. r = Inr b \<longrightarrow> built C (length ref) vs b)
      (foldM (cache_step E C (int (length ref))) vs (Inr (False, zero_cache_state)))"
    using fold_built [OF built_start, of C "length ref" vs E] by simp
  then show "foot (permit_of (cache_event C ref))
      (perform (foldM (cache_step E C (int (length ref))) vs (Inr (False, zero_cache_state))) (\<lambda>r. case r of
        Inl e \<Rightarrow> ret (Some e, s)
      | Inr (masterReadOnly, state) \<Rightarrow>
          if scm_IP (cs_Master state) = [] then ret (Some (Errorf (''0 open masters within '' @ count_text ref @ '' hosts'')), s)
          else cache_Update E C h state s))"
    by (rule foot_yields) (intro foot_intros foot_describing_update; auto intro: built_describes [OF _ _ vs])+
qed

text \<open>
  C29 What the sentinel cache is told: in a run of \<open>updateCache\<close> a command that changes the cache, if one is sent, gives it the one
  open master that the state of the shard has, exactly the sentinels of the other hosts and exactly the replicas that serve, in
  whatever order the hosts are visited; with two open masters or none, nothing is sent.
\<close>
theorem cache_told_the_shard:
  "\<exists>new. hist (snd (updateCache E C ref h node s)) = new @ hist s \<and> list_all (cache_event C ref) new"
  by (rule only_trace [OF only_permit [OF foot_update_describes quiet_cache_event]])


text \<open>An empty cache and a shard with a master and two replicas: the cache is told; with two open masters it is not.\<close>
definition cache_env :: env where
  "cache_env = sample_env\<lparr>e_senti := (\<lambda>h a c. if c = SentinelMasters then RArr [] else RStr ''OK'')\<rparr>"

definition cache_states :: "bool \<Rightarrow> shard_state" where
  "cache_states two = (let master = zero_HostState\<lparr>hs_PingOk := True, hs_IsMaster := True\<rparr> in
     [(''h1'', master), (''h2'', if two then master else sample_replica), (''h3'', sample_replica)])"

definition tells :: "event \<Rightarrow> bool" where
  "tells e = (case e of EvSenti h c r \<Rightarrow> \<not> read_only_cmd c | _ \<Rightarrow> False)"

definition cache_config :: Config where
  "cache_config = sample_config\<lparr>c_SentinelMode := (c_SentinelMode sample_config)\<lparr>sc_AnnounceHostname := True\<rparr>\<rparr>"

definition cache_run :: "bool \<Rightarrow> history" where
  "cache_run two = hist (snd (updateCache cache_env cache_config (cache_states two) ''127.0.0.1'' (cache sample_state) sample_state))"

lemma cache_is_told: "list_ex tells (cache_run False)"
  by code_simp

lemma cache_is_not_told: "\<not> list_ex tells (cache_run True)"
  by code_simp

end
