(* ===== verification/SwitchoverSample.thy ===== *)
theory SwitchoverSample
  imports SwitchoverRun
begin

text \<open>
  A switchover that succeeds, run to its end: the master \<open>h1\<close> hands over to its replica \<open>h2\<close>, which is behind when the writes stop
  and catches up. The deployment is the sample one in cluster mode; the servers answer by what they have been told so far.
\<close>

section \<open>The servers\<close>

definition sent :: "string \<Rightarrow> vcmd \<Rightarrow> history \<Rightarrow> bool" where
  "sent host c h = list_ex (\<lambda>e. case e of EvCmd a d r \<Rightarrow> a = host \<and> d = c | _ \<Rightarrow> False) h"

text \<open>How far \<open>h2\<close> is: behind, level with \<open>h1\<close> once \<open>h1\<close> pauses, a master once it is made one.\<close>
datatype stage = Behind | Level | Promoted

definition stage_of :: "history \<Rightarrow> stage" where
  "stage_of h = (if sent ''h2'' ClusterFailoverForce h then Promoted
     else if sent ''h1'' (ConfigSet ''repl-paused'' ''yes'') h then Level else Behind)"

definition common_info :: "string \<Rightarrow> info" where
  "common_info offset = [(''run_id'', ''r''), (''master_replid'', ''a''), (''master_replid2'', ''b''), (''master_repl_offset'', offset),
     (''second_repl_offset'', ''0''), (''repl_backlog_first_byte_offset'', ''1''), (''repl_backlog_histlen'', ''5'')]"

definition info_h1 :: info where
  "info_h1 = common_info ''5'' @ [(''role'', ''master''), (''connected_slaves'', ''1''), (''slave0'', ''ip=h2,'')]"

fun info_h2 :: "stage \<Rightarrow> info" where
  "info_h2 Promoted = common_info ''5'' @ [(''role'', ''master''), (''connected_slaves'', ''0'')]"
| "info_h2 b = (let offset = (if b = Level then ''5'' else ''3'') in common_info offset @ [(''role'', ''slave''),
     (''master_host'', ''h1''), (''master_link_status'', ''up''), (''master_sync_in_progress'', ''0''),
     (''master_last_io_seconds_ago'', ''0''), (''slave_repl_offset'', offset)])"

definition text_of :: "info \<Rightarrow> string" where
  "text_of kvs = concat (map (\<lambda>(k, v). k @ '':'' @ v @ CRLF) kvs)"

definition server :: "history \<Rightarrow> string \<Rightarrow> vcmd \<Rightarrow> reply" where
  "server h host c = (case c of
     ConfigGet k \<Rightarrow> RMap [(k, ''0'')]
   | Info \<Rightarrow> RStr (text_of (if host = ''h1'' then info_h1 else info_h2 (stage_of h)))
   | _ \<Rightarrow> RStr ''OK'')"

text \<open>Every document there is, and the pill is one that the old master has taken.\<close>
definition taken_pill :: PoisonPill where
  "taken_pill = zero_PoisonPill\<lparr>pp_TargetHost := ''h1'', pp_Applied := True\<rparr>"

definition handover_env :: env where
  "handover_env = sample_env\<lparr>e_cmd := server, e_now := (\<lambda>h. 1000), e_zk_get := (\<lambda>h p. Inr (JPill taken_pill, 1, False))\<rparr>"

definition handover_config :: Config where
  "handover_config = sample_config\<lparr>c_Mode := ''Cluster'', c_Hostname := ''h2''\<rparr>"

definition node_with :: "info \<Rightarrow> node" where
  "node_with kvs = sample_node\<lparr>n_ipsTime := 1000, n_cachedInfo := rev kvs, n_infoResults := [True, True, True]\<rparr>"

definition heap_at :: "stage \<Rightarrow> node_ptr \<Rightarrow> node option" where
  "heap_at b = [(''h1'', 0) \<mapsto> node_with info_h1, (''h2'', 0) \<mapsto> node_with (info_h2 b)]"

text \<open>The states of the run: the flag, what the node of \<open>h2\<close> remembers, the events.\<close>
definition handover :: "bool \<Rightarrow> stage \<Rightarrow> history \<Rightarrow> st" where
  "handover c b h = sample_state\<lparr>shard_nodes := [(''h1'', 0), (''h2'', 0)], shard_local := Some 0, critical := c, replFailTime := 1000,
     heap := heap_at b, hist := h\<rparr>"

definition handover_shard :: shard_state where
  "handover_shard = [(''h1'', zero_HostState\<lparr>hs_PingOk := True, hs_IsMaster := True\<rparr>),
     (''h2'', zero_HostState\<lparr>hs_PingOk := True, hs_PingStable := True, hs_ReplicaState := Some zero_ReplicaState\<rparr>)]"

section \<open>One step at a time\<close>

abbreviation "ptr1 \<equiv> Some (''h1'', 0 :: nat)"
abbreviation "ptr2 \<equiv> Some (''h2'', 0 :: nat)"

named_theorems run_step "what one operation does in the run"

lemma run_perform [run_step]:
  "perform m k s = (case m s of (r, s') \<Rightarrow> (case r of Ok x \<Rightarrow> k x s' | Halt h \<Rightarrow> (Halt h, s')))"
  "ret x s = (Ok x, s)" "modify f s = (Ok (), f s)" "gets g s = (Ok (g s), s)"
  by (simp_all add: comp_defs split: outcome.splits prod.splits)

lemmas run_shapes [run_step] = andThen_def checked_def checked_or_def attempt_def attempt_err_def deref_def go_def stop_on_def stop_err_def Let_def

lemma config_facts [run_step]:
  "app_mode handover_config = modeCluster" "c_Hostname handover_config = ''h2''" "c_PingStable handover_config = 3" "zc_BackoffMaxRetries (c_Zookeeper handover_config) = 10"
  "vc_TurnBeforeSwitchover (c_Valkey handover_config) = False" "vc_AllowDataLoss (c_Valkey handover_config) = False" "vc_WaitPromoteTimeout (c_Valkey handover_config) = 300000000000"
  "vc_DNSTTL (c_Valkey handover_config) = 300000000000" "vc_DestructiveReplicationRepairCommand (c_Valkey handover_config) = []"
  "vc_WaitReplicationTimeout (c_Valkey handover_config) = 900000000000" "vc_WaitCatchupTimeout (c_Valkey handover_config) = 600000000000"
  "vc_WaitPromoteForceTimeout (c_Valkey handover_config) = 10000000000" "vc_WaitPoisonPillTimeout (c_Valkey handover_config) = 30000000000"
  by (simp_all add: handover_config_def sample_config_def sample_zookeeper_def DefaultValkeyConfig_def app_mode_def parseMode_def
      second_def minute_def millisecond_def)

lemma env_facts [run_step]:
  "e_now handover_env = (\<lambda>h. 1000)" "e_order handover_env = (\<lambda>h ks. ks)" "e_cmd handover_env = server" "e_session handover_env = (\<lambda>h. [])" "e_done handover_env = (\<lambda>h t. False)"
  "e_zk_get handover_env = (\<lambda>h p. Inr (JPill taken_pill, 1, False))" "e_zk_write handover_env = (\<lambda>h w. None)" "e_fuel handover_env = 50"
  by (simp_all add: handover_env_def sample_env_def)

lemma state_facts [run_step]:
  "hist (handover c b h) = h" "critical (handover c b h) = c" "shard_nodes (handover c b h) = [(''h1'', 0), (''h2'', 0)]"
  "(handover c b h)\<lparr>hist := h'\<rparr> = handover c b h'" "(handover c b h)\<lparr>critical := c'\<rparr> = handover c' b h"
  "replFailTime (handover c b h) = 1000" "heap (handover c b h) (''h1'', 0) = Some (node_with info_h1)"
  "heap (handover c b h) (''h2'', 0) = Some (node_with (info_h2 b))"
  by (simp_all add: handover_def sample_state_def heap_at_def)

lemma handover_eq [run_step]: "handover c b h = handover c b h' \<longleftrightarrow> h = h'"
  by (metis state_facts(1))

lemma node_facts [run_step]:
  "n_conn (node_with kvs) = True" "n_ipsTime (node_with kvs) = 1000" "n_ips (node_with kvs) = [''10.0.0.1'']"
  "n_cachedInfo (node_with kvs) = rev kvs" "n_infoResults (node_with kvs) = [True, True, True]"
  by (simp_all add: node_with_def sample_node_def)

lemma run_now [run_step]: "now handover_env (handover c b h) = (Ok 1000, handover c b (EvNow 1000 # h))"
  by (simp add: now_def record_event_def run_step)

lemma run_order [run_step]: "any_order handover_env ks (handover c b h) = (Ok ks, handover c b (EvOrder ks # h))"
  by (simp add: any_order_def record_event_def run_step)

lemma run_sleep [run_step]: "sleep d (handover c b h) = (Ok (), handover c b (EvSleep d # h))"
  by (simp add: sleep_def record_event_def run_step)

lemma run_shard [run_step]:
  "shard_Get ''h1'' (handover c b h) = (Ok ptr1, handover c b h)" "shard_Get ''h2'' (handover c b h) = (Ok ptr2, handover c b h)"
  "shard_Hosts (handover c b h) = (Ok [''h1'', ''h2''], handover c b h)"
  by (simp_all add: shard_Get_def shard_Hosts_def run_step)

lemma run_command [run_step]:
  "ensureConn handover_env ptr1 (handover c b h) = (Ok None, handover c b h)" "ensureConn handover_env ptr2 (handover c b h) = (Ok None, handover c b h)"
  "conn_do handover_env ptr1 q (handover c b h) = (Ok (server h ''h1'' q), handover c b (EvCmd ''h1'' q (server h ''h1'' q) # h))"
  "conn_do handover_env ptr2 q (handover c b h) = (Ok (server h ''h2'' q), handover c b (EvCmd ''h2'' q (server h ''h2'' q) # h))"
  by (simp_all add: ensureConn_def conn_do_def do_cmd_def get_node_def record_event_def run_step)

section \<open>Looking at the hosts\<close>

lemma texts [run_step]:
  "parse_info [] (text_of info_h1) = rev info_h1" "parse_info [] (text_of (info_h2 Behind)) = rev (info_h2 Behind)"
  "parse_info [] (text_of (info_h2 Level)) = rev (info_h2 Level)" "parse_info [] (text_of (info_h2 Promoted)) = rev (info_h2 Promoted)"
  by code_simp+

lemma text_stage [run_step]: "parse_info [] (text_of (info_h2 b)) = rev (info_h2 b)"
  by (cases b) (simp_all only: texts)

lemma numbers [run_step]: "ParseInt 64 ''0'' = (0, None)" "ParseInt 64 ''1'' = (1, None)" "ParseInt 64 ''3'' = (3, None)" "ParseInt 64 ''5'' = (5, None)"
  "ParseInt 32 ''0'' = (0, None)"
  by (simp_all add: ParseInt_def ParseUint_def digit_val_def Let_def)

lemma heap_facts [run_step]:
  "(handover c b h)\<lparr>heap := (heap (handover c b h))((''h1'', 0) := Some (node_with info_h1))\<rparr> = handover c b h"
  "(handover c b h)\<lparr>heap := (heap (handover c b h))((''h2'', 0) := Some (node_with (info_h2 b')))\<rparr> = handover c b' h"
  by (auto simp: handover_def heap_at_def fun_eq_iff)

lemma node_update [run_step]:
  "(node_with kvs)\<lparr>n_infoResults := [True, True, True], n_cachedInfo := rev kvs'\<rparr> = node_with kvs'"
  by (simp add: node_with_def)

lemma stage_cons [run_step]:
  "stage_of (EvNow t # h) = stage_of h" "stage_of (EvOrder q # h) = stage_of h" "stage_of (EvSleep d # h) = stage_of h"
  "stage_of (EvSession v # h) = stage_of h" "stage_of (EvZkRead p # h) = stage_of h" "stage_of (EvZkWrite w z # h) = stage_of h"
  "stage_of (EvCmd ''h1'' x r # h) = (if x = ConfigSet ''repl-paused'' ''yes'' \<and> stage_of h = Behind then Level else stage_of h)"
  "stage_of (EvCmd ''h2'' x r # h) = (if x = ClusterFailoverForce then Promoted else stage_of h)"
  by (simp_all add: stage_of_def sent_def)

lemma run_GetState [run_step]:
  "GetState handover_env handover_config ptr1 (handover c b h) = (Ok (rev info_h1, 0, False, False, False, None),
     handover c b (map (\<lambda>x. EvCmd ''h1'' x (server h ''h1'' x)) [ConfigGet ''repl-paused'', ConfigGet ''offline'',
       ConfigGet ''min-replicas-to-write'', Info, Ping] @ h))"
  "GetState handover_env handover_config ptr2 (handover c b h) = (Ok (rev (info_h2 (stage_of h)), 0, False, False, False, None),
     handover c (stage_of h) (map (\<lambda>x. EvCmd ''h2'' x (server h ''h2'' x)) [ConfigGet ''repl-paused'', ConfigGet ''offline'',
       ConfigGet ''min-replicas-to-write'', Info, Ping] @ h))"
  by (simp_all add: GetState_def GetState_config_def configParse_def upd_node_def push_result_def server_def highMinReplicas_def run_step)

definition seen :: "int \<Rightarrow> HostState" where
  "seen offset = zero_HostState\<lparr>hs_CheckAt := 1000, hs_CheckBy := ''h2'', hs_PingOk := True, hs_PingStable := True, hs_RunID := ''r'',
     hs_ReplicationID := ''a'', hs_ReplicationID2 := ''b'', hs_MasterReplicationOffset := offset, hs_ReplicationBacklogStart := 1,
     hs_ReplicationBacklogSize := 5, hs_IP := ''10.0.0.1''\<rparr>"

definition seen_h1 :: HostState where
  "seen_h1 = (seen 5)\<lparr>hs_IsMaster := True, hs_ConnectedReplicas := [''h2'']\<rparr>"

fun seen_h2 :: "stage \<Rightarrow> HostState" where
  "seen_h2 Promoted = (seen 5)\<lparr>hs_IsMaster := True\<rparr>"
| "seen_h2 b = (let offset = (if b = Level then 5 else 3) in (seen offset)\<lparr>hs_ReplicaState := Some (zero_ReplicaState\<lparr>
     rs_MasterHost := ''h1'', rs_MasterLinkState := True, rs_ReplicationOffset := offset\<rparr>)\<rparr>)"

lemma small_facts [run_step]:
  "itoa 0 = ''0''" "replica_addr ''ip=h2,'' = Some ''h2''" "since 1000 0 = 1000" "since 1000 1000 = 0"
  by code_simp+

declare info_h2.simps [simp del] seen_h2.simps [simp del]

text \<open>The events of one look at a host.\<close>
definition glance :: "string \<Rightarrow> history \<Rightarrow> history" where
  "glance host h = EvNow 1000 # map (\<lambda>x. EvCmd host x (server h host x)) [ConfigGet ''repl-paused'', ConfigGet ''offline'',
     ConfigGet ''min-replicas-to-write'', Info, Ping] @ EvNow 1000 # h"

lemma stage_glance [run_step]: "stage_of (glance ''h1'' h) = stage_of h" "stage_of (glance ''h2'' h) = stage_of h"
  by (simp_all add: glance_def run_step)

lemmas look_defs = getHostState_def read_common_def read_role_def read_master_def read_replica_def read_addresses_def RefreshAddrs_def
  GetIP_def get_node_def EvaluatePing_def need_def number_def time_since_def initial_state_def info_h1_def common_info_def seen_h1_def
  info_h2.simps seen_h2.simps seen_def zero_HostState_def zero_ReplicaState_def server_def glance_def

lemma run_look_h1 [run_step]:
  "getHostState handover_env handover_config ''h1'' (handover c b h) = (Ok seen_h1, handover c b (glance ''h1'' h))"
  by (simp add: look_defs run_step)

lemma run_look_h2 [run_step]:
  "getHostState handover_env handover_config ''h2'' (handover c b h) = (Ok (seen_h2 (stage_of h)), handover c (stage_of h) (glance ''h2'' h))"
  by (cases "stage_of h") (simp_all add: look_defs run_step)

lemma run_states [run_step]:
  "getShardStateFromDB handover_env handover_config (handover c b h) =
     (Ok (Inr [(''h1'', seen_h1), (''h2'', seen_h2 (stage_of h))]), handover c (stage_of h) (glance ''h2'' (glance ''h1'' (EvOrder [''h1'', ''h2''] # h))))"
  by (simp add: getShardStateFromDB_def getHostStatesInParallel_def good_results_def last_error_def List.map_filter_def run_step)

section \<open>The other operations\<close>

lemma run_again [run_step]:
  "retry e (numeral n) m s = perform m (\<lambda>(r, again). if again then perform (gets (\<lambda>s. e_backoff e (hist s))) (\<lambda>more.
     if more then retry e (pred_numeral n) m else ret r) else ret r) s"
  "iterate (numeral n) body x s' = perform (body x) (\<lambda>r. case r of Inl y \<Rightarrow> iterate (pred_numeral n) body y | Inr z \<Rightarrow> ret z) s'"
  by (simp_all add: numeral_eq_Suc)

lemma run_store [run_step]:
  "retryRequest handover_env handover_config (zk_read_node handover_env p) (handover c b h) =
     (Ok (Inr (JPill taken_pill, 1, False)), handover c b (EvZkRead p # EvSession [] # h))"
  "retryRequest handover_env handover_config (zk_write handover_env w) (handover c b h) =
     (Ok (Inr ()), handover c b (EvZkWrite w None # EvSession [] # h))"
  by (simp_all add: retryRequest_def retryRequestInternal_def handleEvents_def record_event_def zk_read_node_def zk_write_def run_step)

lemma run_dcs [run_step]:
  "dcs_Set handover_env handover_config p d (handover c b h) =
     (Ok None, handover c b (EvZkWrite (ZSet (fullPath handover_config p) d 1) None # EvSession [] # EvZkRead (fullPath handover_config p) # EvSession [] # h))"
  "dcs_Get handover_env handover_config as_pill p (handover c b h) =
     (Ok (Inr taken_pill), handover c b (EvZkRead (fullPath handover_config p) # EvSession [] # h))"
  by (simp_all add: dcs_Set_def dcs_set_def dcs_Get_def retryGet_def retrySet_def err_of_def run_step)

lemma run_parallel [run_step]:
  "runParallel handover_env f [''h1'', ''h2''] (handover c b h) =
     perform (collect (\<lambda>h. perform (f h) (\<lambda>e. ret (h, e))) [''h1'', ''h2'']) (\<lambda>rs. ret (rev rs)) (handover c b (EvOrder [''h1'', ''h2''] # h))"
  "runParallel handover_env f [''h2''] (handover c b h) =
     perform (collect (\<lambda>h. perform (f h) (\<lambda>e. ret (h, e))) [''h2'']) (\<lambda>rs. ret (rev rs)) (handover c b (EvOrder [''h2''] # h))"
  by (simp_all add: runParallel_def run_step)

section \<open>The phases\<close>

abbreviation shard_at :: "stage \<Rightarrow> shard_state" where
  "shard_at b \<equiv> [(''h1'', seen_h1), (''h2'', seen_h2 b)]"

definition request :: Switchover where
  "request = zero_Switchover\<lparr>sw_To := ''h2'', sw_StartedAt := 1000, sw_StartedBy := ''h2''\<rparr>"

definition document :: "string \<Rightarrow> string \<Rightarrow> int \<Rightarrow> Switchover" where
  "document recent new phase = request\<lparr>sw_Progress := Some \<lparr> sp_NewMaster = new, sp_MostRecent = recent,
     sp_Version = switchoverVersion, sp_Phase = phase \<rparr>\<rparr>"

lemma request_facts [run_step]:
  "sw_To request = ''h2''" "sw_From request = []" "sw_Cause request = []" "sw_Progress request = None"
  by (simp_all add: request_def zero_Switchover_def)

lemma document_facts [run_step]:
  "sw_To (document r n i) = ''h2''" "sw_From (document r n i) = []" "sw_Cause (document r n i) = []"
  "sw_Progress (document r n i) = Some \<lparr> sp_NewMaster = n, sp_MostRecent = r, sp_Version = switchoverVersion, sp_Phase = i \<rparr>"
  "request\<lparr>sw_Progress := Some \<lparr> sp_NewMaster = n, sp_MostRecent = r, sp_Version = switchoverVersion, sp_Phase = i \<rparr>\<rparr> = document r n i"
  "(document r n i)\<lparr>sw_Progress := Some \<lparr> sp_NewMaster = n', sp_MostRecent = r', sp_Version = switchoverVersion, sp_Phase = i' \<rparr>\<rparr> = document r' n' i'"
  by (simp_all add: document_def request_facts)

lemma pill_facts [run_step]: "pp_TargetHost taken_pill = ''h1''" "pp_Applied taken_pill = True"
  by (simp_all add: taken_pill_def)

lemma shard_facts [run_step]: "map_of handover_shard ''h1'' = Some (zero_HostState\<lparr>hs_PingOk := True, hs_IsMaster := True\<rparr>)"
  "map_of handover_shard ''h2'' = Some (zero_HostState\<lparr>hs_PingOk := True, hs_PingStable := True, hs_ReplicaState := Some zero_ReplicaState\<rparr>)"
  by (simp_all add: handover_shard_def)

lemmas send_defs = send_def conn_err_def configRewrite_def set_and_rewrite_def set_then_rewrite_def SetReadOnly_def DisconnectClients_def
  PauseReplication_def state_at_def

lemma run_freeze:
  assumes "stage_of h = Behind"
  shows "\<exists>h'. freeze handover_env handover_config handover_shard [''h1'', ''h2''] request ''h1'' (handover c b h) =
    (Ok (Inr ([''h1'', ''h2''], [''h1'', ''h2'']), document [] [] 1), handover c b h') \<and> stage_of h' = Behind"
  using assms
  by (simp add: freeze_def init_progress_def updateSwitchover_def make_readonly_def read_pill_def getPoisonPill_def pause_host_def
      alive_active_def err_at_def getFailoverQuorum_def getNumReplicasToWrite_def zero_ReplicaState_def send_defs server_def optional_def
      zero_HostState_def run_step)

text \<open>A run that another process has broken off after the choice.\<close>
lemma run_freeze_again:
  assumes "stage_of h = Behind"
  shows "\<exists>h'. freeze handover_env handover_config handover_shard [''h1'', ''h2''] (document ''h1'' ''h2'' 3) ''h1'' (handover c b h) =
    (Ok (Inr ([''h1'', ''h2''], [''h1'', ''h2'']), document ''h1'' ''h2'' 3), handover c b h') \<and> stage_of h' = Behind"
  using assms
  by (simp add: freeze_def init_progress_def make_readonly_def read_pill_def getPoisonPill_def pause_host_def
      alive_active_def err_at_def getFailoverQuorum_def getNumReplicasToWrite_def zero_ReplicaState_def send_defs server_def optional_def
      zero_HostState_def run_step)

lemma run_choose_again:
  "choose_master handover_env handover_config handover_shard active states (document ''h1'' ''h2'' 3) (handover c b h) =
    (Ok (Inr (''h1'', ''h2''), document ''h1'' ''h2'' 3), handover c b h)"
  by (simp add: choose_master_def progress_def run_step)

lemma run_choose:
  assumes "stage_of h = Behind"
  shows "\<exists>h'. choose_master handover_env handover_config handover_shard active (shard_at Behind) (document [] [] 1) (handover c b h) =
    (Ok (Inr (''h1'', ''h2''), document ''h1'' ''h2'' 3), handover c b h') \<and> stage_of h' = Behind"
  using assms
  by (simp add: choose_master_def pick_master_def progress_def findMostRecentNode_def range_states_def most_recent_of_def recent_step_def
      getOffset_def updateSwitchover_def seen_h1_def seen_h2.simps seen_def zero_ReplicaState_def List.map_filter_def run_step)

lemma run_replicates [run_step]:
  "replicates handover_env (Some seen_h1) (hs_ReplicaState (seen_h2 Level)) ''h2'' p allow (handover c b h) = (Ok True, handover c b h)"
  "replicates handover_env (Some seen_h1) (hs_ReplicaState (seen_h2 Behind)) ''h2'' p allow (handover c b h) = (Ok True, handover c b h)"
  by (simp_all add: replicates_def seen_h1_def seen_h2.simps seen_def run_step)

lemma seen_facts [run_step]:
  "hs_PingOk seen_h1" "hs_IsMaster seen_h1" "hs_MasterReplicationOffset seen_h1 = 5" "hs_IsMaster (seen_h2 Promoted)"
  "\<not> hs_IsMaster (seen_h2 Level)"
  by (simp_all add: seen_h1_def seen_h2.simps seen_def zero_HostState_def)

lemma seen_facts_h2 [run_step]: "hs_PingOk (seen_h2 b)" "\<not> hs_IsReplPaused (seen_h2 b)"
  by (cases b; simp add: seen_h2.simps seen_def zero_HostState_def)+

lemma run_change:
  assumes "stage_of h = Level"
  shows "\<exists>h'. changeMaster handover_env handover_config ''h2'' ''h1'' (handover c b h) = (Ok None, handover c Level h') \<and> stage_of h' = Level"
  using assms
  by (simp add: changeMaster_def repairReplica_def IsLocal_def destructive_repair_def set_replFailTime_def is_zero_def time_since_def
      until_deadline_def change_round_def run_step)

lemma run_wait:
  assumes "stage_of h = Level"
  shows "\<exists>h'. waitForCatchup handover_env handover_config ''h2'' ''h1'' (handover c b h) = (Ok None, handover c Level h') \<and> stage_of h' = Level"
  using assms
  by (simp add: waitForCatchup_def until_deadline_def catchup_round_def zero_ReplicaState_def seen_h2.simps seen_def run_step)

lemma run_catch_up:
  assumes "stage_of h = Behind"
  shows "\<exists>h'. catch_up handover_env handover_config (shard_at Behind) ''h1'' ''h2'' (document ''h1'' ''h2'' 3) (handover c b h) =
    (Ok (Inr (), document ''h1'' ''h2'' 3), handover c Level h') \<and> stage_of h' = Level"
proof -
  let ?h = "EvCmd ''h1'' ConfigRewrite (RStr ''OK'') # EvCmd ''h1'' (ConfigSet ''repl-paused'' ''yes'') (RStr ''OK'') # h"
  have s: "stage_of ?h = Level" using assms by (simp add: run_step)
  obtain h1 where h1: "changeMaster handover_env handover_config ''h2'' ''h1'' (handover c b ?h) = (Ok None, handover c Level h1)" "stage_of h1 = Level"
    using run_change [OF s] by blast
  obtain h2 where h2: "waitForCatchup handover_env handover_config ''h2'' ''h1'' (handover c Level h1) = (Ok None, handover c Level h2)" "stage_of h2 = Level"
    using run_wait [OF h1(2)] by blast
  show ?thesis
    using h1 h2
    by (simp add: catch_up_def progress_def getOffset_def send_defs server_def seen_h1_def seen_h2.simps seen_def zero_ReplicaState_def run_step)
qed

lemma run_promotion:
  assumes "stage_of h = Level"
  shows "\<exists>h'. promotion handover_env handover_config (shard_at Level) [''h1'', ''h2''] ''h2'' ''h1'' (document ''h1'' ''h2'' 3) (handover c b h) =
    (Ok (Inr (shard_at Promoted), document ''h1'' ''h2'' 5), handover c Promoted h') \<and> stage_of h' = Promoted"
  using assms
  by (simp add: promotion_def set_phase_def updateSwitchover_def read_pill_def getPoisonPill_def optional_def pill_for_def waitPoisonPill_def
      tick_loop_def wait_pill_tick_def applyPoisonPill_def prepare_quorum_def SetNumQuorumReplicas_def turn_before_def promote_loop_def
      until_deadline_def promote_round_def promote_def ClusterPromoteForce_def CauseAuto_def time_since_def send_defs server_def run_step)

lemma run_turn:
  "\<exists>h'. turn_replicas handover_env handover_config (shard_at Promoted) active [''h1'', ''h2''] ''h2'' (document ''h1'' ''h2'' 5) (handover c b h) =
    (Ok (Inr (), document ''h1'' ''h2'' 6), handover c b h')"
  by (simp add: turn_replicas_def set_phase_def updateSwitchover_def psync_nodes_def isPartialSyncPossible_def seen_h1_def seen_h2.simps seen_def
      repairMaster_def GetNumQuorumReplicas_def configGet_def configParse_def getNumReplicasToWrite_def repair_master_flags_def notify_caches_def
      turn_host_def combineErrors_def send_defs server_def zero_HostState_def run_step)

section \<open>The whole\<close>

lemma handover_run:
  assumes freeze: "freeze handover_env handover_config handover_shard [''h1'', ''h2''] sw ''h1'' (handover True Behind h0) =
      (Ok (Inr ([''h1'', ''h2''], [''h1'', ''h2'']), sw1), handover True Behind h1)" "stage_of h1 = Behind"
    and choose: "\<And>h. stage_of h = Behind \<Longrightarrow> \<exists>h'. choose_master handover_env handover_config handover_shard [''h1'', ''h2''] (shard_at Behind) sw1
      (handover True Behind h) = (Ok (Inr (''h1'', ''h2''), document ''h1'' ''h2'' 3), handover True Behind h') \<and> stage_of h' = Behind"
  shows "\<exists>h. performSwitchover handover_env handover_config handover_shard [''h1'', ''h2''] sw ''h1'' (handover False Behind h0) =
    (Ok (None, document ''h1'' ''h2'' 6), handover False Promoted h)"
proof -
  let ?look = "\<lambda>h. glance ''h2'' (glance ''h1'' (EvOrder [''h1'', ''h2''] # h))"
  have s1: "stage_of (?look h1) = Behind" using freeze(2) by (simp add: run_step)
  obtain h2 where h2: "choose_master handover_env handover_config handover_shard [''h1'', ''h2''] (shard_at Behind) sw1
      (handover True Behind (?look h1)) = (Ok (Inr (''h1'', ''h2''), document ''h1'' ''h2'' 3), handover True Behind h2)" "stage_of h2 = Behind"
    using choose [OF s1] by blast
  obtain h3 where h3: "catch_up handover_env handover_config (shard_at Behind) ''h1'' ''h2'' (document ''h1'' ''h2'' 3) (handover True Behind h2) =
      (Ok (Inr (), document ''h1'' ''h2'' 3), handover True Level h3)" "stage_of h3 = Level"
    using run_catch_up [OF h2(2)] by blast
  have s3: "stage_of (?look h3) = Level" using h3(2) by (simp add: run_step)
  obtain h4 where h4: "promotion handover_env handover_config (shard_at Level) [''h1'', ''h2''] ''h2'' ''h1'' (document ''h1'' ''h2'' 3)
      (handover True Level (?look h3)) = (Ok (Inr (shard_at Promoted), document ''h1'' ''h2'' 5), handover True Promoted h4)" "stage_of h4 = Promoted"
    using run_promotion [OF s3] by blast
  obtain h5 where h5: "turn_replicas handover_env handover_config (shard_at Promoted) [''h1'', ''h2''] [''h1'', ''h2''] ''h2'' (document ''h1'' ''h2'' 5)
      (handover True Promoted h4) = (Ok (Inr (), document ''h1'' ''h2'' 6), handover True Promoted h5)"
    using run_turn by blast
  show ?thesis
    by (simp add: performSwitchover_def enterCritical_def exitCritical_def switchover_phases_def state_at_def progress_def
        freeze h2 h3 h4 h5 run_step)
qed

text \<open>The switchover returns without an error, and \<open>h2\<close> is the new master.\<close>
lemma handover_succeeds:
  assumes "stage_of h0 = Behind"
  shows "\<exists>h. performSwitchover handover_env handover_config handover_shard [''h1'', ''h2''] request ''h1'' (handover False Behind h0) =
    (Ok (None, document ''h1'' ''h2'' 6), handover False Promoted h)"
  using run_freeze [OF assms, of True Behind] handover_run [OF _ _ run_choose] by blast

text \<open>So does the run of a process that takes up the request after the choice has been made.\<close>
lemma handover_resumed:
  assumes "stage_of h0 = Behind"
  shows "\<exists>h. performSwitchover handover_env handover_config handover_shard [''h1'', ''h2''] (document ''h1'' ''h2'' 3) ''h1'' (handover False Behind h0) =
    (Ok (None, document ''h1'' ''h2'' 6), handover False Promoted h)"
  using run_freeze_again [OF assms, of True Behind] handover_run [of "document ''h1'' ''h2'' 3" h0 "document ''h1'' ''h2'' 3"]
    run_choose_again by blast

lemma start_behind: "stage_of [] = Behind"
  by (simp add: stage_of_def sent_def)

end
