(* ===== verification/Outcome.thy ===== *)
theory Outcome
  imports Critical CacheLaws SwitchoverSample
begin

text \<open>
  What a switchover that reports success has done (internal/app/switchover.go, phases 3 to 6): the new master had caught up with
  the most advanced host of the shard, is a master, and is the one the DCS names.
\<close>

section \<open>Taking a successful run apart\<close>

definition later :: "st \<Rightarrow> st \<Rightarrow> bool" where
  "later s s' \<longleftrightarrow> suffix (hist s) (hist s')"

lemma later_refl [simp]: "later s s"
  by (simp add: later_def)

lemma later_trans [trans]: "later s t \<Longrightarrow> later t u \<Longrightarrow> later s u"
  unfolding later_def by (rule suffix_order.order_trans)

lemma later_run: "m s = (r, s') \<Longrightarrow> foot free_but_critical m \<Longrightarrow> later s s'"
  using extends [of free_but_critical m s r s'] by (auto simp: later_def suffix_def)

lemma go_Ok:
  assumes "go m k s = (Ok (Inr x, sw'), s')"
  obtains y sw1 t where "m s = (Ok (Inr y, sw1), t)" and "k y sw1 t = (Ok (Inr x, sw'), s')"
  using assms by (auto simp: go_def ret_def elim!: perform_Ok split: sum.splits)

lemma stop_on_Ok:
  assumes "stop_on f sw m k s = (Ok (Inr x, sw'), s')"
  obtains t where "m s = (Ok None, t)" and "k t = (Ok (Inr x, sw'), s')"
  using assms by (auto simp: stop_on_def ret_def elim!: perform_Ok split: option.splits)

lemma stop_err_Ok:
  assumes "stop_err f sw m k s = (Ok (Inr x, sw'), s')"
  obtains y t where "m s = (Ok (Inr y), t)" and "k y t = (Ok (Inr x, sw'), s')"
  using assms by (auto simp: stop_err_def ret_def elim!: perform_Ok split: sum.splits)

lemma andThen_Ok:
  assumes "andThen m k s = (Ok y, s')"
  obtains x t where "m s = (Ok x, t)" and "k t = (Ok y, s')"
  using assms unfolding andThen_def by (rule perform_Ok)

text \<open>The round in which a loop ends.\<close>
lemma iterate_last:
  assumes "iterate n body x s = (Ok z, s')" and "\<And>y. foot free_but_critical (body y)"
  shows "\<exists>y t. later s t \<and> body y t = (Ok (Inr z), s')"
  using assms(1)
proof (induction n arbitrary: x s)
  case (Suc n)
  then obtain r t where r: "body x s = (Ok r, t)" and rest: "(case r of Inl y \<Rightarrow> iterate n body y | Inr z \<Rightarrow> ret z) t = (Ok z, s')"
    by (auto elim!: perform_Ok)
  show ?case
  proof (cases r)
    case (Inl y)
    with rest have "iterate n body y t = (Ok z, s')" by simp
    from Suc.IH [OF this] obtain y' t' where "later t t'" "body y' t' = (Ok (Inr z), s')" by blast
    with later_run [OF r assms(2)] show ?thesis by (blast intro: later_trans)
  next
    case (Inr z')
    with rest r have "body x s = (Ok (Inr z), s')" by (simp add: ret_def)
    then show ?thesis by (blast intro: later_refl)
  qed
qed (simp add: halt_def)

lemma until_deadline_last:
  assumes "until_deadline E deadline body timeout x s = (Ok z, s')" and "\<And>y. foot free_but_critical (body y)"
    and "\<And>y. z \<noteq> timeout y"
  shows "\<exists>y t. later s t \<and> body y t = (Ok (Inr z), s')"
proof -
  have "foot free_but_critical (perform (now E) (\<lambda>t. if t < deadline then body y else ret (Inr (timeout y))))" for y
    by (rule foot_intros assms(2))+
  from iterate_last [OF assms(1) [unfolded until_deadline_def] this]
  obtain y t where t: "later s t" "perform (now E) (\<lambda>u. if u < deadline then body y else ret (Inr (timeout y))) t = (Ok (Inr z), s')"
    by blast
  then obtain u t' where now: "now E t = (Ok u, t')" and "(if u < deadline then body y else ret (Inr (timeout y))) t' = (Ok (Inr z), s')"
    by (auto elim!: perform_Ok)
  with assms(3) [of y] have "body y t' = (Ok (Inr z), s')" by (auto simp: ret_def split: if_splits)
  moreover have "later t t'" using now by (rule later_run) (rule foot_intros)
  ultimately show ?thesis using t(1) by (blast intro: later_trans)
qed

section \<open>Catching up\<close>

text \<open>In the run between two states the process saw \<open>new\<close>, a replica, at least as far as \<open>recent\<close> had been just before.\<close>
definition saw_caught_up :: "env \<Rightarrow> Config \<Rightarrow> string \<Rightarrow> string \<Rightarrow> st \<Rightarrow> st \<Rightarrow> bool" where
  "saw_caught_up E C new recent s s' \<longleftrightarrow> (\<exists>t t' t'' rhs nhs rs. later s t \<and> getHostState E C recent t = (Ok rhs, t') \<and>
     getHostState E C new t' = (Ok nhs, t'') \<and> later t'' s' \<and> hs_PingOk rhs \<and> hs_PingOk nhs \<and>
     hs_ReplicaState nhs = Some rs \<and> getOffset (Some rhs) \<le> rs_ReplicationOffset rs)"

text \<open>\<open>new\<close> was as far as \<open>recent\<close> in \<open>states\<close>, or was seen to get there.\<close>
definition is_level :: "env \<Rightarrow> Config \<Rightarrow> shard_state \<Rightarrow> string \<Rightarrow> string \<Rightarrow> st \<Rightarrow> st \<Rightarrow> bool" where
  "is_level E C states recent new s s' \<longleftrightarrow>
     new = recent \<or> getOffset (map_of states new) = getOffset (map_of states recent) \<or> saw_caught_up E C new recent s s'"

lemma saw_caught_up_earlier:
  assumes "saw_caught_up E C new recent t s'" and "later s t"
  shows "saw_caught_up E C new recent s s'"
  using assms unfolding saw_caught_up_def by (blast intro: later_trans)

lemma saw_caught_up_later:
  assumes "saw_caught_up E C new recent s t" and "later t s'"
  shows "saw_caught_up E C new recent s s'"
  using assms unfolding saw_caught_up_def by (blast intro: later_trans)

lemma sleep_again: "andThen (sleep d) (ret (Inl x)) s = (Ok (Inl x), snd (sleep d s))"
  by (simp add: sleep_def comp_defs record_event_def)

lemma sleep_not_done: "andThen (sleep d) (ret (Inl x)) s \<noteq> (Ok (Inr y), s')"
  by (simp add: sleep_again)

lemma catchup_round_None:
  assumes "catchup_round E C new recent u s = (Ok (Inr None), s')"
  shows "saw_caught_up E C new recent s s'"
proof -
  obtain rhs t where recent: "getHostState E C recent s = (Ok rhs, t)"
    using assms by (auto simp: catchup_round_def elim: perform_Ok)
  then have ping: "hs_PingOk rhs" using assms by (auto simp: catchup_round_def perform_def ret_def split: if_splits)
  obtain nhs t' where new: "getHostState E C new t = (Ok nhs, t')"
    using assms recent ping by (cases "getHostState E C new t"; cases "fst (getHostState E C new t)")
      (auto simp: catchup_round_def perform_def)
  have "hs_PingOk nhs" and "s' = t'" and "\<exists>rs. hs_ReplicaState nhs = Some rs \<and> getOffset (Some rhs) \<le> rs_ReplicationOffset rs"
    using assms ping by (auto simp: catchup_round_def perform_def recent new sleep_not_done getOffset_def
        split: if_splits option.splits) (auto simp: ret_def)
  with recent ping new show ?thesis unfolding saw_caught_up_def by (metis later_refl)
qed

lemma waitForCatchup_None:
  assumes "waitForCatchup E C new recent s = (Ok None, s')"
  shows "saw_caught_up E C new recent s s'"
proof -
  obtain d t where t: "now E s = (Ok d, t)"
    and loop: "until_deadline E (d + vc_WaitCatchupTimeout (c_Valkey C)) (catchup_round E C new recent)
      (\<lambda>u. Some (Errorf (''timeout waiting for '' @ new @ '' to catchup with '' @ recent))) () t = (Ok None, s')"
    using assms by (auto simp: waitForCatchup_def ret_def elim!: perform_Ok split: if_splits)
  obtain u t' where t': "later t t'" and r: "catchup_round E C new recent u t' = (Ok (Inr None), s')"
    using until_deadline_last [OF loop foot_catchup_round] by auto
  from r have "saw_caught_up E C new recent t' s'" by (rule catchup_round_None)
  moreover have "later s t" using t by (rule later_run) (rule foot_intros)
  ultimately show ?thesis by (blast intro: saw_caught_up_earlier later_trans [OF _ t'])
qed

lemma catch_up_Ok:
  assumes "catch_up E C states recent new sw s = (Ok (Inr x, sw'), s')" and "sw_Progress sw = Some p"
  shows "sw' = sw \<and> (5 \<le> sp_Phase p \<or> is_level E C states recent new s s')"
proof (cases "sp_Phase p < 5 \<and> new \<noteq> recent \<and> getOffset (map_of states new) \<noteq> getOffset (map_of states recent)")
  case True
  with assms obtain node t where node: "shard_Get recent s = (Ok node, t)"
    and rest: "stop_on id sw (PauseReplication E node) (stop_on id sw (changeMaster E C new recent)
        (stop_on id sw (waitForCatchup E C new recent) (ret (Inr (), sw)))) t = (Ok (Inr x, sw'), s')"
    by (auto simp: catch_up_def progress_def deref_def ret_def elim!: perform_Ok)
  from stop_on_Ok [OF rest] obtain t1 where t1: "PauseReplication E node t = (Ok None, t1)"
    and "stop_on id sw (changeMaster E C new recent) (stop_on id sw (waitForCatchup E C new recent) (ret (Inr (), sw))) t1
      = (Ok (Inr x, sw'), s')" .
  from stop_on_Ok [OF this(2)] obtain t2 where t2: "changeMaster E C new recent t1 = (Ok None, t2)"
    and "stop_on id sw (waitForCatchup E C new recent) (ret (Inr (), sw)) t2 = (Ok (Inr x, sw'), s')" .
  from stop_on_Ok [OF this(2)] have w: "waitForCatchup E C new recent t2 = (Ok None, s')" and "sw' = sw"
    by (auto simp: ret_def)
  have "later s t" using node by (rule later_run) (rule free_leaf)+
  moreover have "later t t1" using t1 by (rule later_run) (rule free_leaf)+
  moreover have "later t1 t2" using t2 by (rule later_run) (rule free_leaf)+
  ultimately show ?thesis using waitForCatchup_None [OF w] \<open>sw' = sw\<close>
    unfolding is_level_def by (blast intro: saw_caught_up_earlier later_trans)
qed (use assms in \<open>auto simp: is_level_def catch_up_def progress_def deref_def ret_def perform_def\<close>)

section \<open>Choosing the host\<close>

text \<open>\<open>recent\<close> is as far as any host in \<open>states\<close>.\<close>
definition most_advanced :: "shard_state \<Rightarrow> string \<Rightarrow> bool" where
  "most_advanced states recent \<longleftrightarrow> (\<forall>h. getOffset (map_of states h) \<le> max 0 (getOffset (map_of states recent)))"

lemma findMostRecentNode_advanced: "yields (most_advanced states) (findMostRecentNode E states)"
  unfolding findMostRecentNode_def
proof (rule yields_through [OF visited_hosts], rule yields_ret)
  fix v assume v: "set v = {(h, hs). map_of states h = Some hs}"
  have "getOffset (map_of states h) \<le> max 0 (getOffset (map_of states (most_recent_of v)))" for h
  proof (cases "map_of states h")
    case (Some hs)
    then have "(h, hs) \<in> set v" by (simp add: v)
    from most_recent_of_spec [OF refl, of v] show ?thesis
    proof
      assume "most_recent_of v = [] \<and> (\<forall>(h', st) \<in> set v. getOffset (Some st) \<le> 0)"
      with \<open>(h, hs) \<in> set v\<close> Some show ?thesis by fastforce
    next
      assume "\<exists>st. (most_recent_of v, st) \<in> set v \<and> 0 < getOffset (Some st) \<and>
        (\<forall>(h', st') \<in> set v. getOffset (Some st') \<le> getOffset (Some st))"
      then obtain st where st: "map_of states (most_recent_of v) = Some st" "\<forall>(h', st') \<in> set v. getOffset (Some st') \<le> getOffset (Some st)"
        by (auto simp: v)
      with \<open>(h, hs) \<in> set v\<close> have "getOffset (Some hs) \<le> getOffset (Some st)" by fast
      with st(1) Some show ?thesis by simp
    qed
  qed (simp add: getOffset_def)
  then show "most_advanced states (most_recent_of v)" by (simp add: most_advanced_def)
qed

lemma choose_master_Ok:
  assumes "choose_master E C ss active states sw s = (Ok (Inr (recent, new), sw'), s')"
    and "sw_Progress sw = Some p" and "sp_Phase p < 3"
  shows "most_advanced states recent \<and> (sw_To sw = [] \<or> new = sw_To sw) \<and>
    sw_Progress sw' = Some (p\<lparr>sp_MostRecent := recent, sp_NewMaster := new, sp_Phase := 3\<rparr>)"
proof -
  obtain r t where r: "findMostRecentNode E states s = (Ok r, t)"
    and rest: "go (pick_master E C ss active states sw r) (\<lambda>newMaster sw.
       let sw' = sw\<lparr>sw_Progress := map_option (\<lambda>p. p\<lparr>sp_MostRecent := r, sp_NewMaster := newMaster, sp_Phase := 3\<rparr>) (sw_Progress sw)\<rparr>
       in stop_on (Text ''setting switchover progress on phase 3'') sw' (updateSwitchover E C sw') (ret (Inr (r, newMaster), sw'))) t
      = (Ok (Inr (recent, new), sw'), s')"
    using assms by (auto simp: choose_master_def progress_def deref_def ret_def elim!: perform_Ok)
  from go_Ok [OF rest] obtain n sw1 t1 where pick: "pick_master E C ss active states sw r t = (Ok (Inr n, sw1), t1)"
    and "stop_on (Text ''setting switchover progress on phase 3'') (sw1\<lparr>sw_Progress := map_option (\<lambda>p. p\<lparr>sp_MostRecent := r,
        sp_NewMaster := n, sp_Phase := 3\<rparr>) (sw_Progress sw1)\<rparr>) (updateSwitchover E C (sw1\<lparr>sw_Progress := map_option (\<lambda>p. p\<lparr>sp_MostRecent := r,
        sp_NewMaster := n, sp_Phase := 3\<rparr>) (sw_Progress sw1)\<rparr>)) (ret (Inr (r, n), sw1\<lparr>sw_Progress := map_option (\<lambda>p. p\<lparr>sp_MostRecent := r,
        sp_NewMaster := n, sp_Phase := 3\<rparr>) (sw_Progress sw1)\<rparr>)) t1 = (Ok (Inr (recent, new), sw'), s')"
    unfolding Let_def .
  from stop_on_Ok [OF this(2)] have eq: "recent = r" "new = n" "sw' = sw1\<lparr>sw_Progress := map_option (\<lambda>p. p\<lparr>sp_MostRecent := r,
        sp_NewMaster := n, sp_Phase := 3\<rparr>) (sw_Progress sw1)\<rparr>"
    by (auto simp: ret_def)
  from pick have "sw1 = sw \<and> (sw_To sw = [] \<or> n = sw_To sw)"
    by (auto simp: pick_master_def ret_def andThen_def elim!: perform_Ok split: if_splits sum.splits)
  with eq yieldsD [OF findMostRecentNode_advanced r] assms(2) show ?thesis by simp
qed

section \<open>Before the choice\<close>

text \<open>The document with which phase 1 begins.\<close>
definition begun :: "Switchover \<Rightarrow> Switchover" where
  "begun sw = sw\<lparr>sw_Progress := Some \<lparr> sp_NewMaster = [], sp_MostRecent = [], sp_Version = switchoverVersion, sp_Phase = 1 \<rparr>\<rparr>"

lemma yields_go:
  "yields (\<lambda>(r, sw). P sw) m \<Longrightarrow> (\<And>x sw. P sw \<Longrightarrow> yields (\<lambda>(r, sw). P sw) (k x sw)) \<Longrightarrow> yields (\<lambda>(r, sw). P sw) (go m k)"
  unfolding go_def by (rule yields_through [where P = "\<lambda>(r, sw). P sw"]) (auto intro!: yields_ret split: sum.split)

lemma yields_stop:
  "P sw \<Longrightarrow> yields (\<lambda>(r, sw). P sw) k \<Longrightarrow> yields (\<lambda>(r, sw). P sw) (stop_on f sw m k)"
  "P sw \<Longrightarrow> (\<And>x. yields (\<lambda>(r, sw). P sw) (k' x)) \<Longrightarrow> yields (\<lambda>(r, sw). P sw) (stop_err f sw m' k')"
  unfolding stop_on_def stop_err_def by (auto intro!: wp_intros yields_ret)

lemma yields_ret_sw: "P sw \<Longrightarrow> yields (\<lambda>(r, sw). P sw) (ret (r, sw))"
  by (simp add: yields_ret)

text \<open>The freeze begins the document of a new request, and leaves that of a run that was broken off.\<close>
definition taken_up :: "Switchover \<Rightarrow> Switchover" where
  "taken_up sw = (if sw_Progress sw = None then begun sw else sw)"

lemma freeze_keeps_document: "yields (\<lambda>(r, sw'). sw' = taken_up sw) (freeze E C ss active sw old)"
proof -
  note keep = yields_go [of "\<lambda>sw'. sw' = taken_up sw"] yields_stop [of "\<lambda>sw'. sw' = taken_up sw"] yields_ret_sw [of "\<lambda>sw'. sw' = taken_up sw"]
  have init: "yields (\<lambda>(r, sw'). sw' = taken_up sw) (init_progress E C sw)"
  proof (cases "sw_Progress sw")
    case None
    then have "taken_up sw = begun sw" by (simp add: taken_up_def)
    with None show ?thesis
      by (simp add: init_progress_def begun_def [symmetric] Let_def) (rule yields_stop [of "\<lambda>sw'. sw' = begun sw"] yields_ret_sw [of "\<lambda>sw'. sw' = begun sw"] refl)+
  next
    case (Some p)
    then have "taken_up sw = sw" by (simp add: taken_up_def)
    with Some show ?thesis by (auto simp: init_progress_def yields_ret)
  qed
  show ?thesis
    unfolding freeze_def read_pill_def pill_for_def Let_def andThen_def
    by (rule keep(1) [OF init]) (rule keep wp_intros | assumption)+
qed

section \<open>The promotion\<close>

lemma ret_Ok: "ret x s = (Ok y, s') \<longleftrightarrow> x = y \<and> s = s'"
  by (simp add: ret_def)

lemma promote_round_True:
  assumes "promote_round E C new old d ss s = (Ok (Inr (Inr (True, ss'))), s')"
  shows "\<exists>t hs. later s t \<and> getShardStateFromDB E C t = (Ok (Inr ss'), s') \<and> map_of ss' new = Some hs \<and> hs_IsMaster hs"
proof -
  let ?look = "perform (getShardStateFromDB E C) (\<lambda>r. case r of
         Inl x \<Rightarrow> ret (Inr (Inl (Text ''update shard state during switchover after promote'' x)))
       | Inr shardState' \<Rightarrow> perform (state_at shardState' new) (\<lambda>ns.
           ret (if hs_IsMaster ns then Inr (Inr (True, shardState')) else Inl shardState')))"
  obtain e t where t: "promote E C new old ss d s = (Ok e, t)"
    and rest: "(case e of Some x \<Rightarrow> ret (Inr (Inl (Text (''promote new master '' @ new @ '' failed'') x)))
     | None \<Rightarrow> andThen (sleep second) ?look) t = (Ok (Inr (Inr (True, ss'))), s')"
    using assms unfolding promote_round_def by (rule perform_Ok)
  then have "andThen (sleep second) ?look t = (Ok (Inr (Inr (True, ss'))), s')"
    by (cases e) (simp_all add: ret_Ok)
  then obtain u t' where t': "sleep second t = (Ok u, t')" and look: "?look t' = (Ok (Inr (Inr (True, ss'))), s')"
    by (rule andThen_Ok)
  from look obtain hs where "getShardStateFromDB E C t' = (Ok (Inr ss'), s')" "map_of ss' new = Some hs" "hs_IsMaster hs"
    by (auto simp: ret_def state_at_def deref_def halt_def elim!: perform_Ok split: sum.splits option.splits if_splits)
  moreover have "later s t" using t by (rule later_run) (rule free_leaf)+
  moreover have "later t t'" using t' by (rule later_run) (rule free_leaf)+
  ultimately show ?thesis by (blast intro: later_trans)
qed

lemma foot_promote_round: "foot free_but_critical (promote_round E C new old d ss)"
  unfolding promote_round_def by (rule free_leaf)+

lemma promote_loop_Ok:
  assumes "promote_loop E C ss new old sw s = (Ok (Inr ss', sw'), s')"
  shows "sw' = sw \<and> (\<exists>t hs. later s t \<and> getShardStateFromDB E C t = (Ok (Inr ss'), s') \<and>
    map_of ss' new = Some hs \<and> hs_IsMaster hs)"
proof -
  obtain t1 t2 u v where now: "now E s = (Ok t1, u)" "now E u = (Ok t2, v)"
    and loop: "stop_err id sw (until_deadline E (t1 + vc_WaitPromoteTimeout (c_Valkey C))
        (promote_round E C new old (t2 + vc_WaitPromoteForceTimeout (c_Valkey C))) (\<lambda>ss. Inr (False, ss)) ss)
       (\<lambda>(promoted, shardState').
         if \<not> promoted then ret (Inl (Errorf (''promote new master '' @ new @ '' failed: deadline reached'')), sw)
         else ret (Inr shardState', sw)) v = (Ok (Inr ss', sw'), s')"
    using assms unfolding promote_loop_def by (auto elim!: perform_Ok)
  from stop_err_Ok [OF loop] obtain y t where y: "until_deadline E (t1 + vc_WaitPromoteTimeout (c_Valkey C))
        (promote_round E C new old (t2 + vc_WaitPromoteForceTimeout (c_Valkey C))) (\<lambda>ss. Inr (False, ss)) ss v = (Ok (Inr y), t)"
    and k: "(case y of (promoted, shardState') \<Rightarrow>
         if \<not> promoted then ret (Inl (Errorf (''promote new master '' @ new @ '' failed: deadline reached'')), sw)
         else ret (Inr shardState', sw)) t = (Ok (Inr ss', sw'), s')" .
  from k have res: "y = (True, ss')" "sw' = sw" "t = s'" by (cases y; cases "fst y"; simp add: ret_def)+
  obtain w x where w: "later v w" and "promote_round E C new old (t2 + vc_WaitPromoteForceTimeout (c_Valkey C)) x w = (Ok (Inr (Inr (True, ss'))), s')"
    using until_deadline_last [OF y [unfolded res] foot_promote_round] by blast
  note promote_round_True [OF this(2)]
  moreover have "later s u" using now(1) by (rule later_run) (rule free_leaf)+
  moreover have "later u v" using now(2) by (rule later_run) (rule free_leaf)+
  ultimately show ?thesis using w res(2) by (blast intro: later_trans)
qed

text \<open>The events between two states.\<close>
definition events_between :: "st \<Rightarrow> st \<Rightarrow> event list" where
  "events_between s s' = take (length (hist s') - length (hist s)) (hist s')"

lemma events_between_run: "later s s' \<Longrightarrow> hist s' = events_between s s' @ hist s"
  by (auto simp: later_def suffix_def events_between_def)

lemma events_between_trans:
  assumes "later s t" and "later t u"
  shows "events_between s u = events_between t u @ events_between s t"
proof -
  have "hist u = (events_between t u @ events_between s t) @ hist s"
    using assms by (metis append_assoc events_between_run)
  then show ?thesis by (simp only: events_between_def [of s u]) simp
qed

lemma pill_keeps_document: "yields (\<lambda>(r, sw'). sw' = sw) (pill_for E C sw old pill)"
  unfolding pill_for_def Let_def andThen_def
  by (rule yields_stop [of "\<lambda>sw'. sw' = sw"] yields_ret_sw [of "\<lambda>sw'. sw' = sw"] wp_intros refl)+

lemma prepare_keeps_document: "yields (\<lambda>(r, sw'). sw' = sw) (prepare_quorum E C alive new sw)"
  unfolding prepare_quorum_def
  by (rule yields_ret_sw [of "\<lambda>sw'. sw' = sw"] wp_intros refl)+

lemma free_calm: "calm free_but_critical C"
  by (simp add: free_but_critical_def calm_def host_may_def may_write_def)

lemma dcs_Set_announces:
  assumes "dcs_Set E C pathMasterNode (JString new) s = (Ok None, s')"
  shows "announced C new (events_between s s')"
proof -
  have "orderly_since C (hist s) (hist s)" by (simp add: orderly_since_def)
  from throughD(3) [OF through_announce this assms] show ?thesis
    by (auto simp: announced_since_def events_between_def)
qed

lemma announced_later:
  "announced C new (events_between s t) \<Longrightarrow> later s t \<Longrightarrow> later t u \<Longrightarrow> announced C new (events_between s u)"
  by (simp add: announced_def events_between_trans [of s t u])

lemma announced_earlier:
  "announced C new (events_between t u) \<Longrightarrow> later s t \<Longrightarrow> later t u \<Longrightarrow> announced C new (events_between s u)"
  by (simp add: announced_def events_between_trans [of s t u])

lemma promotion_Ok:
  assumes "promotion E C ss alive new old sw s = (Ok (Inr ss', sw'), s')"
  shows "sw_Progress sw' = sw_Progress (set_phase 5 sw) \<and> (\<exists>t hs. later s t \<and> announced C new (events_between s t) \<and>
    getShardStateFromDB E C t = (Ok (Inr ss'), s') \<and> map_of ss' new = Some hs \<and> hs_IsMaster hs)"
proof -
  let ?sw = "set_phase 5 sw"
  obtain t where t: "updateSwitchover E C ?sw s = (Ok None, t)"
    and "stop_on (Wrap ''failed to set new master in dcs'') ?sw (dcs_Set E C pathMasterNode (JString new))
      (read_pill E C ?sw (\<lambda>poisonPill. go (pill_for E C ?sw old poisonPill) (\<lambda>u sw.
      go (prepare_quorum E C alive new sw) (\<lambda>u sw.
      andThen (turn_before E C ss alive new) (promote_loop E C ss new old sw))))) t = (Ok (Inr ss', sw'), s')"
    using assms unfolding promotion_def Let_def by (rule stop_on_Ok)
  from stop_on_Ok [OF this(2)] obtain t1 where set: "dcs_Set E C pathMasterNode (JString new) t = (Ok None, t1)"
    and rest: "stop_err (Text ''unable to get poison pill'') ?sw (perform (getPoisonPill E C) (\<lambda>r. ret (optional r)))
      (\<lambda>poisonPill. go (pill_for E C ?sw old poisonPill) (\<lambda>u sw.
      go (prepare_quorum E C alive new sw) (\<lambda>u sw.
      andThen (turn_before E C ss alive new) (promote_loop E C ss new old sw)))) t1 = (Ok (Inr ss', sw'), s')"
    unfolding read_pill_def .
  from stop_err_Ok [OF rest] obtain pill t2 where t2: "perform (getPoisonPill E C) (\<lambda>r. ret (optional r)) t1 = (Ok (Inr pill), t2)"
    and "go (pill_for E C ?sw old pill) (\<lambda>u sw. go (prepare_quorum E C alive new sw) (\<lambda>u sw.
      andThen (turn_before E C ss alive new) (promote_loop E C ss new old sw))) t2 = (Ok (Inr ss', sw'), s')" .
  from go_Ok [OF this(2)] obtain u sw1 t3 where t3: "pill_for E C ?sw old pill t2 = (Ok (Inr u, sw1), t3)"
    and "go (prepare_quorum E C alive new sw1) (\<lambda>u sw.
      andThen (turn_before E C ss alive new) (promote_loop E C ss new old sw)) t3 = (Ok (Inr ss', sw'), s')" .
  from go_Ok [OF this(2)] obtain u' sw2 t4 where t4: "prepare_quorum E C alive new sw1 t3 = (Ok (Inr u', sw2), t4)"
    and "andThen (turn_before E C ss alive new) (promote_loop E C ss new old sw2) t4 = (Ok (Inr ss', sw'), s')" .
  from andThen_Ok [OF this(2)] obtain u2 t5 where t5: "turn_before E C ss alive new t4 = (Ok u2, t5)"
    and loop: "promote_loop E C ss new old sw2 t5 = (Ok (Inr ss', sw'), s')" .
  have "sw1 = ?sw"
    using yieldsD [OF pill_keeps_document t3] by simp
  moreover have "sw2 = sw1"
    using yieldsD [OF prepare_keeps_document t4] by simp
  ultimately have sw': "sw' = ?sw" using promote_loop_Ok [OF loop] by simp
  have "later s t" using t by (rule later_run) (rule free_leaf)+
  have a: "later t t1" using set by (rule later_run) (rule free_leaf)+
  have "later t1 t2" using t2 by (rule later_run) (rule free_leaf)+
  also have "later t2 t3" using t3 by (rule later_run) (rule foot_pill_for [OF free_calm])
  also have "later t3 t4" using t4 by (rule later_run) (rule free_leaf)+
  also have "later t4 t5" using t5 by (rule later_run) (rule foot_turn_before [OF free_calm])
  finally have b: "later t1 t5" .
  obtain v hs where v: "later t5 v" "getShardStateFromDB E C v = (Ok (Inr ss'), s')" "map_of ss' new = Some hs" "hs_IsMaster hs"
    using promote_loop_Ok [OF loop] by blast
  have tv: "later t1 v" using b v(1) by (rule later_trans)
  have "announced C new (events_between t v)"
    using dcs_Set_announces [OF set] a tv by (rule announced_later)
  then have "announced C new (events_between s v)"
    using \<open>later s t\<close> later_trans [OF a tv] by (rule announced_earlier)
  with v sw' \<open>later s t\<close> later_trans [OF a tv] show ?thesis by (blast intro: later_trans)
qed

section \<open>A switchover that succeeds\<close>

text \<open>In the run from \<open>s\<close> to \<open>s'\<close> the name of \<open>new\<close> was stored at the master key, and then a look at the shard found it a master.\<close>
definition found_master :: "env \<Rightarrow> Config \<Rightarrow> string \<Rightarrow> st \<Rightarrow> st \<Rightarrow> bool" where
  "found_master E C new s s' \<longleftrightarrow> (\<exists>t ss hs t'. later s t \<and> announced C new (events_between s t) \<and>
     getShardStateFromDB E C t = (Ok (Inr ss), t') \<and> map_of ss new = Some hs \<and> hs_IsMaster hs \<and> later t' s')"

text \<open>
  What has happened, in this order, in a run from \<open>s\<close> to \<open>s'\<close> that has made \<open>new\<close> the master: the states of the shard were read,
  and \<open>recent\<close> is the host that was ahead; \<open>new\<close> is as far, or was seen to catch up; it was announced and found a master.
\<close>
definition took_over :: "env \<Rightarrow> Config \<Rightarrow> string \<Rightarrow> string \<Rightarrow> st \<Rightarrow> st \<Rightarrow> bool" where
  "took_over E C recent new s s' \<longleftrightarrow> (\<exists>t states t1 t2. later s t \<and> getShardStateFromDB E C t = (Ok (Inr states), t1) \<and>
     most_advanced states recent \<and> is_level E C states recent new t1 t2 \<and> later t1 t2 \<and> found_master E C new t2 s')"

lemma found_master_within: "found_master E C new t u \<Longrightarrow> later u s' \<Longrightarrow> found_master E C new t s'"
  unfolding found_master_def by (blast intro: later_trans)

lemma found_master_earlier:
  assumes "found_master E C new t u" and "later s t"
  shows "found_master E C new s u"
  using assms unfolding found_master_def by (blast intro: later_trans announced_earlier)

lemma is_level_within: "is_level E C states recent new t u \<Longrightarrow> later s t \<Longrightarrow> later u s' \<Longrightarrow> is_level E C states recent new s s'"
  unfolding is_level_def by (blast intro: saw_caught_up_earlier saw_caught_up_later)

lemma turn_replicas_Ok:
  assumes "turn_replicas E C ss active alive new sw s = (Ok (r, sw'), s')"
  shows "sw' = set_phase 6 sw"
proof -
  have "yields (\<lambda>(r, sw'). sw' = set_phase 6 sw) (turn_replicas E C ss active alive new sw)"
    unfolding turn_replicas_def Let_def andThen_def
    by (rule yields_stop [of "\<lambda>sw'. sw' = set_phase 6 sw"] yields_ret_sw [of "\<lambda>sw'. sw' = set_phase 6 sw"] wp_intros refl)+
  from yieldsD [OF this assms] show ?thesis by simp
qed

text \<open>The phases after the freeze, cut after the choice and after the catching up.\<close>
definition last_phases ::
  "env \<Rightarrow> Config \<Rightarrow> string list \<Rightarrow> string list \<Rightarrow> string \<Rightarrow> string \<Rightarrow> Switchover \<Rightarrow> shard_state \<Rightarrow> unit phase" where
  "last_phases E C active alive old new sw ss = perform (state_at ss new) (\<lambda>ns.
     if \<not> hs_PingOk ns
     then ret (Inl (Errorf (''new master '' @ new @ '' suddenly became not available during switchover'')), sw)
     else perform (progress sw) (\<lambda>p.
       go (if sp_Phase p \<noteq> 6 then promotion E C ss alive new old sw else ret (Inr ss, sw)) (\<lambda>ss' sw.
         turn_replicas E C ss' active alive new sw)))"

definition middle_phases ::
  "env \<Rightarrow> Config \<Rightarrow> string list \<Rightarrow> string list \<Rightarrow> string \<Rightarrow> shard_state \<Rightarrow> string \<times> string \<Rightarrow> Switchover \<Rightarrow> unit phase" where
  "middle_phases E C active alive old states = (\<lambda>(recent, new) sw.
     go (catch_up E C states recent new sw) (\<lambda>u sw.
       stop_err (Text ''update shard state during switchover'') sw (getShardStateFromDB E C)
         (last_phases E C active alive old new sw)))"

lemma phases_shape:
  "switchover_phases E C ss active0 sw0 old = go (freeze E C ss active0 sw0 old) (\<lambda>(active, alive) sw.
     stop_err (Text ''no actual shard state'') sw (getShardStateFromDB E C) (\<lambda>states.
     go (choose_master E C ss active states sw) (middle_phases E C active alive old states)))"
  unfolding switchover_phases_def middle_phases_def last_phases_def ..

lemma last_phases_Ok:
  assumes "last_phases E C active alive old new sw ss s = (Ok (Inr x, sw'), s')" and "sw_Progress sw = Some p"
  shows "(sp_Phase p = 6 \<or> found_master E C new s s') \<and> sw_Progress sw' = Some (p\<lparr>sp_Phase := 6\<rparr>)"
proof -
  have rest: "go (if sp_Phase p \<noteq> 6 then promotion E C ss alive new old sw else ret (Inr ss, sw))
      (\<lambda>ss' sw. turn_replicas E C ss' active alive new sw) s = (Ok (Inr x, sw'), s')"
    using assms by (auto simp: last_phases_def progress_def state_at_def deref_def ret_Ok halt_def
        elim!: perform_Ok split: option.splits if_splits)
  from go_Ok [OF rest] obtain ss' sw1 t
    where t: "(if sp_Phase p \<noteq> 6 then promotion E C ss alive new old sw else ret (Inr ss, sw)) s = (Ok (Inr ss', sw1), t)"
    and turn: "turn_replicas E C ss' active alive new sw1 t = (Ok (Inr x, sw'), s')" .
  have l: "later t s'"
    using turn by (rule later_run) (rule foot_turn_replicas [OF free_calm]; rule free_mays)
  show ?thesis
  proof (cases "sp_Phase p = 6")
    case True
    with t turn_replicas_Ok [OF turn] assms(2) show ?thesis by (simp add: ret_Ok set_phase_def)
  next
    case False
    with t have promoted: "promotion E C ss alive new old sw s = (Ok (Inr ss', sw1), t)" by simp
    from promotion_Ok [OF this] l have "found_master E C new s s'" unfolding found_master_def by blast
    moreover have "sw_Progress sw' = Some (p\<lparr>sp_Phase := 6\<rparr>)"
      using promotion_Ok [OF promoted] turn_replicas_Ok [OF turn] assms(2) by (simp add: set_phase_def)
    ultimately show ?thesis by simp
  qed
qed

lemma middle_phases_Ok:
  assumes "middle_phases E C active alive old states (recent, new) sw s = (Ok (Inr x, sw'), s')" and "sw_Progress sw = Some p"
  shows "(\<exists>t. later s t \<and> (5 \<le> sp_Phase p \<or> is_level E C states recent new s t) \<and> (sp_Phase p = 6 \<or> found_master E C new t s')) \<and>
    sw_Progress sw' = Some (p\<lparr>sp_Phase := 6\<rparr>)"
proof -
  obtain u sw1 t where t: "catch_up E C states recent new sw s = (Ok (Inr u, sw1), t)"
    and rest: "stop_err (Text ''update shard state during switchover'') sw1 (getShardStateFromDB E C)
         (last_phases E C active alive old new sw1) t = (Ok (Inr x, sw'), s')"
    using assms(1) unfolding middle_phases_def prod.case by (rule go_Ok)
  note caught = catch_up_Ok [OF t assms(2)]
  from stop_err_Ok [OF rest] obtain ss t1 where t1: "getShardStateFromDB E C t = (Ok (Inr ss), t1)"
    and last: "last_phases E C active alive old new sw ss t1 = (Ok (Inr x, sw'), s')"
    using caught by blast
  have "later s t" using t by (rule later_run) (rule foot_catch_up [OF free_calm])
  moreover have "later t t1" using t1 by (rule later_run) (rule free_leaf)+
  ultimately show ?thesis
    using last_phases_Ok [OF last assms(2)] caught by (blast intro: found_master_earlier)
qed

text \<open>A run that succeeds, cut at the look at the shard and at the choice.\<close>
lemma phases_Ok:
  assumes "switchover_phases E C ss active sw old s = (Ok (Inr x, sw'), s')"
  obtains act alive states t t1 recent new sw2 t2
  where "later s t" and "getShardStateFromDB E C t = (Ok (Inr states), t1)"
    and "choose_master E C ss act states (taken_up sw) t1 = (Ok (Inr (recent, new), sw2), t2)" and "later t1 t2"
    and "middle_phases E C act alive old states (recent, new) sw2 t2 = (Ok (Inr x, sw'), s')"
proof -
  obtain y sw1 t where t: "freeze E C ss active sw old s = (Ok (Inr y, sw1), t)"
    and "(case y of (active, alive) \<Rightarrow> \<lambda>sw. stop_err (Text ''no actual shard state'') sw (getShardStateFromDB E C) (\<lambda>states.
     go (choose_master E C ss active states sw) (middle_phases E C active alive old states))) sw1 t = (Ok (Inr x, sw'), s')"
    using assms(1) unfolding phases_shape by (rule go_Ok)
  moreover obtain act alive where "y = (act, alive)" by (cases y)
  moreover have "sw1 = taken_up sw"
    using yieldsD [OF freeze_keeps_document t] by simp
  ultimately have rest: "stop_err (Text ''no actual shard state'') (taken_up sw) (getShardStateFromDB E C) (\<lambda>states.
     go (choose_master E C ss act states (taken_up sw)) (middle_phases E C act alive old states)) t = (Ok (Inr x, sw'), s')"
    by simp
  from stop_err_Ok [OF rest] obtain states t1 where t1: "getShardStateFromDB E C t = (Ok (Inr states), t1)"
    and "go (choose_master E C ss act states (taken_up sw)) (middle_phases E C act alive old states) t1 = (Ok (Inr x, sw'), s')" .
  from go_Ok [OF this(2)] obtain z sw2 t2 where t2: "choose_master E C ss act states (taken_up sw) t1 = (Ok (Inr z, sw2), t2)"
    and mid: "middle_phases E C act alive old states z sw2 t2 = (Ok (Inr x, sw'), s')" .
  obtain recent new where z: "z = (recent, new)" by (cases z)
  have "later s t" using t by (rule later_run) (rule foot_freeze [OF free_calm])
  moreover have "later t1 t2" using t2 by (rule later_run) (rule foot_choose [OF free_calm])
  ultimately show thesis using t1 t2 mid unfolding z by (intro that)
qed

text \<open>The document of a run that has chosen the new master.\<close>
definition chosen :: "Switchover \<Rightarrow> bool" where
  "chosen sw = (case sw_Progress sw of None \<Rightarrow> False | Some p \<Rightarrow> 3 \<le> sp_Phase p)"

lemma phases_new:
  assumes "switchover_phases E C ss active sw old s = (Ok (Inr x, sw'), s')" and "\<not> chosen sw"
  shows "\<exists>recent new p. took_over E C recent new s s' \<and> (sw_To sw = [] \<or> new = sw_To sw) \<and>
    sw_Progress sw' = Some p \<and> sp_MostRecent p = recent \<and> sp_NewMaster p = new"
proof -
  obtain act alive states t t1 recent new sw2 t2
    where run: "later s t" "getShardStateFromDB E C t = (Ok (Inr states), t1)" "later t1 t2"
    and choice: "choose_master E C ss act states (taken_up sw) t1 = (Ok (Inr (recent, new), sw2), t2)"
    and mid: "middle_phases E C act alive old states (recent, new) sw2 t2 = (Ok (Inr x, sw'), s')"
    using phases_Ok [OF assms(1)] by metis
  obtain p where p: "sw_Progress (taken_up sw) = Some p" "sp_Phase p < 3" and to: "sw_To (taken_up sw) = sw_To sw"
    using assms(2) by (auto simp: taken_up_def begun_def chosen_def split: option.splits)
  from choose_master_Ok [OF choice p] have chosen: "most_advanced states recent" "sw_To sw = [] \<or> new = sw_To sw"
    "sw_Progress sw2 = Some (p\<lparr>sp_MostRecent := recent, sp_NewMaster := new, sp_Phase := 3\<rparr>)"
    by (simp_all add: to)
  note m = middle_phases_Ok [OF mid chosen(3), simplified]
  then have "took_over E C recent new s s'"
    unfolding took_over_def using run chosen(1) by (blast intro: later_trans is_level_within [OF _ _ later_refl])
  with chosen(2) m show ?thesis by auto
qed

lemma took_over_within:
  assumes "took_over E C recent new t u" and "later s t" and "later u s'"
  shows "took_over E C recent new s s'"
  using assms unfolding took_over_def by (blast intro: later_trans found_master_within)

lemma performSwitchover_Ok:
  assumes "performSwitchover E C ss active sw old s = (Ok (None, sw'), s')"
  obtains u s1 t where "switchover_phases E C ss active sw old s1 = (Ok (Inr u, sw'), t)" and "later s s1" and "later t s'"
proof -
  obtain u s1 where s1: "enterCritical s = (Ok u, s1)"
    and "perform (switchover_phases E C ss active sw old) (\<lambda>(r, sw). andThen exitCritical
        (ret (case r of Inl e \<Rightarrow> Some e | Inr u \<Rightarrow> None, sw))) s1 = (Ok (None, sw'), s')"
    using assms unfolding performSwitchover_def by (rule andThen_Ok)
  from perform_Ok [OF this(2)] obtain r sw1 t where t: "switchover_phases E C ss active sw old s1 = (Ok (r, sw1), t)"
    and rest: "andThen exitCritical (ret (case r of Inl e \<Rightarrow> Some e | Inr u \<Rightarrow> None, sw1)) t = (Ok (None, sw'), s')"
    by auto
  from rest obtain x where r: "r = Inr x" "sw1 = sw'" and exit: "hist s' = hist t"
    by (cases r) (auto simp: andThen_def exitCritical_def modify_def perform_def ret_def)
  have "later s s1" and "later t s'"
    using s1 exit by (auto simp: later_def enterCritical_def modify_def)
  with t show thesis unfolding r by (rule that)
qed

text \<open>
  C3 What a switchover that reports success has done, when its document did not name the new master yet: it has read the states of the shard and taken a host \<open>recent\<close> that no other
  is ahead of; the new master, the requested one if one was requested, was that host, or as far, or was seen to catch up with it;
  then its name was stored at the master key; then a look at the shard found it a master. The document names both.
\<close>
theorem switchover_outcome:
  assumes "performSwitchover E C ss active sw old s = (Ok (None, sw'), s')" and "\<not> chosen sw"
  shows "\<exists>recent new p. took_over E C recent new s s' \<and> (sw_To sw = [] \<or> new = sw_To sw) \<and>
    sw_Progress sw' = Some p \<and> sp_MostRecent p = recent \<and> sp_NewMaster p = new"
proof -
  obtain u s1 t where run: "switchover_phases E C ss active sw old s1 = (Ok (Inr u, sw'), t)" "later s s1" "later t s'"
    using performSwitchover_Ok [OF assms(1)] by metis
  with phases_new [OF run(1) assms(2)] show ?thesis using took_over_within by blast
qed

theorem switchover_outcome_witness:
  "\<exists>s'. fst (performSwitchover handover_env handover_config handover_shard [''h1'', ''h2''] request ''h1'' (handover False Behind [])) =
      Ok (None, document ''h1'' ''h2'' 6) \<and> took_over handover_env handover_config ''h1'' ''h2'' (handover False Behind []) s'"
proof -
  obtain s' where run: "performSwitchover handover_env handover_config handover_shard [''h1'', ''h2''] request ''h1'' (handover False Behind []) =
      (Ok (None, document ''h1'' ''h2'' 6), s')"
    using handover_succeeds [OF start_behind] by blast
  from switchover_outcome [OF run] show ?thesis
    by (auto simp: run chosen_def request_facts document_facts)
qed

section \<open>A switchover that is taken up\<close>

lemma phases_resumed:
  assumes "switchover_phases E C ss active sw old s = (Ok (Inr x, sw'), s')"
    and "sw_Progress sw = Some p" and "3 \<le> sp_Phase p"
  shows "(\<exists>t states t1 t2. later s t \<and> getShardStateFromDB E C t = (Ok (Inr states), t1) \<and> later t1 t2 \<and>
      (5 \<le> sp_Phase p \<or> is_level E C states (sp_MostRecent p) (sp_NewMaster p) t1 t2) \<and>
      (sp_Phase p = 6 \<or> found_master E C (sp_NewMaster p) t2 s')) \<and> sw_Progress sw' = Some (p\<lparr>sp_Phase := 6\<rparr>)"
proof -
  obtain act alive states t t1 recent new sw2 t2
    where run: "later s t" "getShardStateFromDB E C t = (Ok (Inr states), t1)" "later t1 t2"
    and choice: "choose_master E C ss act states (taken_up sw) t1 = (Ok (Inr (recent, new), sw2), t2)"
    and mid: "middle_phases E C act alive old states (recent, new) sw2 t2 = (Ok (Inr x, sw'), s')"
    using phases_Ok [OF assms(1)] by metis
  have same: "taken_up sw = sw" using assms(2) by (simp add: taken_up_def)
  with choice assms(2,3) have kept: "recent = sp_MostRecent p" "new = sp_NewMaster p" "sw2 = sw" "t2 = t1"
    by (simp_all add: choose_master_def progress_def deref_def ret_def perform_def)
  from middle_phases_Ok [OF mid [unfolded kept(3)] assms(2)] run kept(1,2,4) show ?thesis
    by (blast intro: is_level_within)
qed

text \<open>
  C4 A switchover whose manager was lost after the choice of the new master (its document is at phase 3 or later) is finished by
  the next manager as it was begun: when that run reports success, the new master and the host it had to catch up with are those
  of the document; before phase 5 the new master was level with that host, or seen to catch up with it, in this run; before phase 6
  its name was stored again at the master key in this run and a later look found it a master.
\<close>
theorem switchover_resumed:
  assumes "performSwitchover E C ss active sw old s = (Ok (None, sw'), s')"
    and "sw_Progress sw = Some p" and "3 \<le> sp_Phase p"
  shows "(\<exists>t states t1 t2. later s t \<and> getShardStateFromDB E C t = (Ok (Inr states), t1) \<and> later t1 t2 \<and>
      (5 \<le> sp_Phase p \<or> is_level E C states (sp_MostRecent p) (sp_NewMaster p) t1 t2) \<and>
      (sp_Phase p = 6 \<or> found_master E C (sp_NewMaster p) t2 s')) \<and> sw_Progress sw' = Some (p\<lparr>sp_Phase := 6\<rparr>)"
proof -
  obtain u s1 t where run: "switchover_phases E C ss active sw old s1 = (Ok (Inr u, sw'), t)" "later s s1" "later t s'"
    using performSwitchover_Ok [OF assms(1)] by metis
  with phases_resumed [OF run(1) assms(2,3)] show ?thesis by (blast intro: later_trans found_master_within)
qed

theorem switchover_resumed_witness:
  "\<exists>s' t2. fst (performSwitchover handover_env handover_config handover_shard [''h1'', ''h2''] (document ''h1'' ''h2'' 3) ''h1'' (handover False Behind [])) =
      Ok (None, document ''h1'' ''h2'' 6) \<and> found_master handover_env handover_config ''h2'' t2 s'"
proof -
  obtain s' where run: "performSwitchover handover_env handover_config handover_shard [''h1'', ''h2''] (document ''h1'' ''h2'' 3) ''h1'' (handover False Behind []) =
      (Ok (None, document ''h1'' ''h2'' 6), s')"
    using handover_resumed [OF start_behind] by blast
  from switchover_resumed [OF run document_facts(4)] show ?thesis
    by (auto simp: run)
qed

end
