(* ===== verification/Verdict.thy ===== *)
theory Verdict
  imports Outcome
begin

text \<open>
  What the record of a switchover is worth (internal/app/manager.go, the part of \<open>stateManager\<close> that runs a requested switchover):
  the key of the last successful switchover is written only after the switchover has been done.
\<close>

section \<open>Runs that record no success\<close>

text \<open>A successful write of a switchover document at the key of the last successful switchover.\<close>
definition records :: "Config \<Rightarrow> event \<Rightarrow> bool" where
  "records C e \<longleftrightarrow> (\<exists>d. stores C pathLastSwitch (JSwitch d) e)"

definition unrecorded :: "Config \<Rightarrow> st \<Rightarrow> st \<Rightarrow> bool" where
  "unrecorded C s s' \<longleftrightarrow> (\<exists>new. hist s' = new @ hist s \<and> (\<forall>e \<in> set new. \<not> records C e))"

definition no_record :: "Config \<Rightarrow> permit" where
  "no_record C = \<lparr> p_ev = (\<lambda>e. \<not> records C e), p_crit = True, p_spin = True, p_link = True, p_hosts = (\<lambda>h. True) \<rparr>"

lemma unrecorded_trans: "unrecorded C s t \<Longrightarrow> unrecorded C t u \<Longrightarrow> unrecorded C s u"
  unfolding unrecorded_def by (metis Un_iff append.assoc set_append)

lemma quiet_not_record: "quiet e \<Longrightarrow> \<not> records C e"
  by (cases e) (auto simp: records_def)

lemma unrecorded_foot: "foot (no_record C) m \<Longrightarrow> m s = (r, s') \<Longrightarrow> unrecorded C s s'"
  by (drule (1) foot_hist) (auto simp: unrecorded_def extends_by_def no_record_def dest: quiet_not_record)

lemma key_of_its_own:
  assumes "normal_ns (root_of C)" and "plain k" and "k \<noteq> pathLastSwitch"
  shows "may_write (no_record C) C k"
proof -
  have "fullPath C k \<noteq> fullPath C pathLastSwitch" using assms by (simp add: fullPath_plain)
  then have "writes_at C k w \<Longrightarrow> \<not> records C (EvZkWrite w r)" for w r by (cases w) (auto simp: records_def)
  then show ?thesis by (simp add: may_write_def no_record_def)
qed

lemma other_keys:
  assumes "normal_ns (root_of C)"
  shows "may_write (no_record C) C pathMasterNode" and "may_write (no_record C) C pathActiveNodes"
    and "may_write (no_record C) C pathCurrentSwitch" and "may_write (no_record C) C pathLastRejectedSwitch"
    and "may_write (no_record C) C pathPoisonPill"
  by (rule key_of_its_own [OF assms plain_paths(2)] key_of_its_own [OF assms plain_paths(3)] key_of_its_own [OF assms plain_paths(4)]
      key_of_its_own [OF assms plain_paths(6)] key_of_its_own [OF assms plain_paths(8)]; simp add: path_defs)+

lemma no_record_simps [simp]:
  "p_crit (no_record C)" "p_spin (no_record C)" "p_link (no_record C)" "p_hosts (no_record C) h" "host_may (no_record C) h P"
  "senti_may (no_record C)" "p_ev (no_record C) (EvExec a r)"
  by (simp_all add: no_record_def host_may_def senti_may_def records_def)

lemma perform_unrecorded:
  assumes "normal_ns (root_of C)"
  shows "foot (no_record C) (performSwitchover E C ss active sw old)"
proof -
  have c: "calm (no_record C) C" by (simp add: calm_def other_keys [OF assms])
  show ?thesis
    unfolding performSwitchover_def enterCritical_def exitCritical_def switchover_phases_def promotion_def Let_def
    by (rule foot_intros other_keys [OF assms] c no_record_simps | simp)+
qed

lemma finish_rejected:
  assumes "normal_ns (root_of C)"
  shows "foot (no_record C) (finishSwitchover E C sw (Some e))"
  unfolding finishSwitchover_def Let_def
  by (rule foot_intros other_keys [OF assms] | simp)+

lemma report_failed:
  assumes "normal_ns (root_of C)"
  shows "foot (no_record C) (report_switchover E C (Some e) sw)"
  unfolding report_switchover_def by (rule foot_intros other_keys [OF assms] | simp)+

section \<open>The record\<close>

lemma perform_split:
  assumes "perform m k s = (r, s')"
  obtains h where "m s = (Halt h, s')" | x t where "m s = (Ok x, t)" and "k x t = (r, s')"
  using assms by (auto simp: perform_def split: prod.splits outcome.splits)

text \<open>The part of \<open>run_switchover\<close> after the request has been marked as started.\<close>
definition after_start :: "env \<Rightarrow> Config \<Rightarrow> shard_state \<Rightarrow> string list \<Rightarrow> string \<Rightarrow> goerr option \<times> Switchover \<Rightarrow> unit M" where
  "after_start E C ss active master = (\<lambda>(e, sw). case e of Some x \<Rightarrow> ret ()
     | None \<Rightarrow> perform (performSwitchover E C ss active sw master) (\<lambda>(err, sw'). report_switchover E C err sw'))"

lemma foot_report: "foot free_but_critical (report_switchover E C err sw)"
  unfolding report_switchover_def by (rule foot_intros free_mays | simp)+

lemma after_start_recorded:
  assumes ns: "normal_ns (root_of C)" and run: "after_start E C ss active master (e, sw) s = (r, s')" and "\<not> unrecorded C s s'"
  shows "\<exists>sw' t. performSwitchover E C ss active sw master s = (Ok (None, sw'), t) \<and> unrecorded C s t \<and> later t s'"
proof -
  have "e = None" using run assms(3) by (auto simp: after_start_def ret_def unrecorded_def split: option.splits)
  with run have "perform (performSwitchover E C ss active sw master) (\<lambda>(err, sw'). report_switchover E C err sw') s = (r, s')"
    by (simp add: after_start_def)
  then show ?thesis
  proof (cases rule: perform_split)
    case (1 h)
    with unrecorded_foot [OF perform_unrecorded [OF ns]] assms(3) show ?thesis by blast
  next
    case (2 x t)
    obtain err sw' where x: "x = (err, sw')" by (cases x)
    note u = unrecorded_foot [OF perform_unrecorded [OF ns] 2(1)]
    have "err = None"
    proof (rule ccontr)
      assume "err \<noteq> None"
      with 2(2) x unrecorded_foot [OF report_failed [OF ns]] have "unrecorded C t s'" by auto
      with u assms(3) show False by (blast dest: unrecorded_trans)
    qed
    with 2 x u later_run [OF _ foot_report] show ?thesis by auto
  qed
qed

text \<open>A run that records a success has performed the switchover without an error, on the document it had marked as started.\<close>
lemma recorded_performed:
  assumes ns: "normal_ns (root_of C)" and run: "run_switchover E C ss active master sw s = (r, s')" and "\<not> unrecorded C s s'"
  obtains t0 time sw' t where "later s t0" and "unrecorded C s t" and "later t s'"
    and "performSwitchover E C ss active (sw\<lparr>sw_StartedAt := time, sw_StartedBy := c_Hostname C\<rparr>) master t0 = (Ok (None, sw'), t)"
proof -
  define age where "age = (if is_zero (sw_InitiatedAt sw) then ret False
    else perform (time_since E (sw_InitiatedAt sw)) (\<lambda>age. ret (age > vc_SwitchoverTimeout (c_Valkey C))))"
  have age: "foot (no_record C) age" and free: "foot free_but_critical age"
    unfolding age_def by (intro foot_intros)+
  have rejected: "foot (no_record C) (andThen (finishSwitchover E C sw (Some e)) (ret ()))" for e
    by (intro foot_intros finish_rejected [OF ns])
  have started: "foot (no_record C) (startSwitchover E C sw)" "foot free_but_critical (startSwitchover E C sw)"
    by (rule foot_intros other_keys [OF ns] free_mays)+
  have "perform age (\<lambda>timed_out. if timed_out
      then andThen (finishSwitchover E C sw (Some (Errorf ''switchover timed out''))) (ret ())
      else case approveSwitchover C sw active ss of
        Some e \<Rightarrow> andThen (finishSwitchover E C sw (Some e)) (ret ())
      | None \<Rightarrow> perform (startSwitchover E C sw) (after_start E C ss active master)) s = (r, s')"
    using run unfolding run_switchover_def age_def after_start_def .
  then show thesis
  proof (cases rule: perform_split)
    case (1 h)
    with unrecorded_foot [OF age] assms(3) show ?thesis by blast
  next
    case (2 timed t1)
    note u1 = unrecorded_foot [OF age 2(1)]
    have no: "\<not> (andThen (finishSwitchover E C sw (Some e)) (ret ()) t1 = (r, s'))" for e
      using unrecorded_foot [OF rejected] u1 assms(3) by (blast dest: unrecorded_trans)
    with 2(2) have "\<not> timed" "approveSwitchover C sw active ss = None"
      by (auto split: if_splits option.splits)
    with 2(2) have "perform (startSwitchover E C sw) (after_start E C ss active master) t1 = (r, s')" by simp
    then show ?thesis
    proof (cases rule: perform_split)
      case (1 h)
      with unrecorded_foot [OF started(1)] u1 assms(3) show ?thesis by (blast dest: unrecorded_trans)
    next
      case (2 x t2)
      obtain e sw1 where x: "x = (e, sw1)" by (cases x)
      have "\<not> unrecorded C t2 s'" using u1 unrecorded_foot [OF started(1) 2(1)] assms(3) by (blast dest: unrecorded_trans)
      from after_start_recorded [OF ns 2(2) [unfolded x] this] obtain sw' t
        where t: "performSwitchover E C ss active sw1 master t2 = (Ok (None, sw'), t)" "unrecorded C t2 t" "later t s'" by blast
      have u2: "unrecorded C s t" using u1 unrecorded_foot [OF started(1) 2(1)] t(2) by (blast intro: unrecorded_trans)
      have "\<exists>time. sw1 = sw\<lparr>sw_StartedAt := time, sw_StartedBy := c_Hostname C\<rparr>"
        using 2(1) unfolding x startSwitchover_def Let_def by (auto simp: ret_def elim!: perform_Ok)
      then show ?thesis
        using that [OF _ u2 t(3)] t(1) later_run [OF \<open>age s = _\<close> free] later_run [OF 2(1) started(2)] by (blast intro: later_trans)
    qed
  qed
qed

section \<open>The sample\<close>

lemma approved: "approveSwitchover handover_config request [''h1'', ''h2''] handover_shard = None"
  by code_simp

lemma run_end:
  "\<exists>h'. report_switchover handover_env handover_config None (document r n i) (handover c b h) =
    (Ok (), handover c b (EvZkWrite (ZSet (fullPath handover_config pathLastSwitch)
      (JSwitch (finished (document r n i) None 1000)) 1) None # h'))"
proof -
  have t: "timings (handover c b h') = timings sample_state" for h' by (simp add: handover_def)
  show ?thesis
    by (simp add: report_switchover_def finishSwitchover_def dcs_Get_def dcs_Delete_def retryGet_def retryDelete_def err_of_def
        reportTiming_def time_since_def record_event_def finished_def document_def request_def t sample_state_def run_step)
qed

text \<open>The run of the sample: the switchover is done and recorded.\<close>
lemma handover_recorded:
  "\<exists>h. run_switchover handover_env handover_config handover_shard [''h1'', ''h2''] ''h1'' request (handover False Behind []) =
    (Ok (), handover False Promoted (EvZkWrite (ZSet (fullPath handover_config pathLastSwitch)
      (JSwitch (finished (document ''h1'' ''h2'' 6) None 1000)) 1) None # h))"
proof -
  have zero: "sw_InitiatedAt request = 0" "sw_RunCount request = 0"
    "request\<lparr>sw_StartedAt := 1000, sw_StartedBy := ''h2''\<rparr> = request"
    by (simp_all add: request_def zero_Switchover_def)
  obtain h0 where start: "startSwitchover handover_env handover_config request (handover False Behind []) =
      (Ok (None, request), handover False Behind h0)" "stage_of h0 = Behind"
    by (simp add: startSwitchover_def zero run_step start_behind)
  obtain h1 where perf: "performSwitchover handover_env handover_config handover_shard [''h1'', ''h2''] request ''h1'' (handover False Behind h0) =
      (Ok (None, document ''h1'' ''h2'' 6), handover False Promoted h1)"
    using handover_succeeds [OF start(2)] by blast
  show ?thesis
    using run_end [of "''h1''" "''h2''" 6 False Promoted h1]
    by (simp add: run_switchover_def approved is_zero_def zero start(1) perf run_step)
qed

section \<open>The property\<close>



end
