(* ===== verification/PillLaws.thy ===== *)
theory PillLaws
  imports PoisonPill Through
begin

text \<open>
  The poison pill is a fence: the mark that it was applied is written to the DCS only when the local
  server is known to be closed.
\<close>

text \<open>The local server says it is offline, or accepts going offline.\<close>
fun closes :: "Config \<Rightarrow> event \<Rightarrow> bool" where
  "closes C (EvCmd h (ConfigGet k) r) =
     (h = c_Hostname C \<and> k = ''offline'' \<and> configParse ''offline'' r = Inr ''yes'')"
| "closes C (EvCmd h (ConfigSet k v) r) =
     (h = c_Hostname C \<and> k = ''offline'' \<and> v = ''yes'' \<and> reply_err r = None)"
| "closes C e = False"

definition fenced :: "Config \<Rightarrow> event list \<Rightarrow> bool" where
  "fenced C es \<longleftrightarrow> list_ex (closes C) es"

text \<open>Events newest first: before every write to the DCS the server has closed.\<close>
fun fence_first :: "Config \<Rightarrow> event list \<Rightarrow> bool" where
  "fence_first C [] = True"
| "fence_first C (e # es) = ((case e of EvZkWrite w r \<Rightarrow> fenced C es | _ \<Rightarrow> True) \<and> fence_first C es)"

definition waiting :: "Config \<Rightarrow> history \<Rightarrow> history \<Rightarrow> bool" where
  "waiting C h0 h \<longleftrightarrow> (\<exists>new. h = new @ h0 \<and> fence_first C new)"

definition closed :: "Config \<Rightarrow> history \<Rightarrow> history \<Rightarrow> bool" where
  "closed C h0 h \<longleftrightarrow> (\<exists>new. h = new @ h0 \<and> fence_first C new \<and> fenced C new)"

lemma closed_waiting: "closed C h0 h \<Longrightarrow> waiting C h0 h"
  by (auto simp: closed_def waiting_def)

lemma waiting_cons:
  assumes "waiting C h0 h" and "\<And>w r. e \<noteq> EvZkWrite w r"
  shows "waiting C h0 (e # h)"
proof -
  obtain new where "h = new @ h0" "fence_first C new" using assms(1) by (auto simp: waiting_def)
  with assms(2) show ?thesis unfolding waiting_def by (intro exI [of _ "e # new"]) (auto split: event.splits)
qed

lemma closed_cons: "closed C h0 h \<Longrightarrow> closed C h0 (e # h)"
proof -
  assume "closed C h0 h"
  then obtain new where "h = new @ h0" "fence_first C new" "fenced C new" by (auto simp: closed_def)
  then show ?thesis unfolding closed_def
    by (intro exI [of _ "e # new"]) (auto simp: fenced_def split: event.splits)
qed

lemma closing:
  assumes "waiting C h0 h" and "closes C e"
  shows "closed C h0 (e # h)"
proof -
  obtain new where "h = new @ h0" "fence_first C new" using assms(1) by (auto simp: waiting_def)
  with assms(2) show ?thesis unfolding closed_def
    by (intro exI [of _ "e # new"]) (auto simp: fenced_def split: event.splits)
qed

lemma through_closed: "through (waiting C h0) (closed C h0) m (\<lambda>x. closed C h0)" if "foot A m"
  by (rule through_foot [OF that]) (auto intro: closed_cons closed_waiting)

lemma through_waiting:
  assumes "foot A m" and "\<And>w r. \<not> p_ev A (EvZkWrite w r)"
  shows "through (waiting C h0) (waiting C h0) m (\<lambda>x. waiting C h0)"
  by (rule through_foot [OF assms(1)]) (use assms(2) in \<open>auto intro!: waiting_cons\<close>)

text \<open>Reading the flag.\<close>
lemma through_IsOffline:
  assumes "ptr_to (c_Hostname C) p"
  shows "through (waiting C h0) (waiting C h0) (IsOffline E p)
    (\<lambda>r h. waiting C h0 h \<and> (r = Inr True \<longrightarrow> closed C h0 h))"
proof -
  let ?W = "waiting C h0" and ?D = "closed C h0"
  have q: "through ?W ?W m (\<lambda>x. ?W)" if "foot nothing m" for m :: "'x M"
    by (rule through_waiting [OF that]) (simp add: nothing_def)
  have cmd: "through ?W ?W (conn_do E p (ConfigGet ''offline''))
      (\<lambda>r h. ?W h \<and> (configParse ''offline'' r = Inr ''yes'' \<longrightarrow> ?D h))"
    by (rule through_conn_do [OF assms]) (auto intro: waiting_cons closing)
  have get: "through ?W ?W (configGet E p ''offline'') (\<lambda>v h. ?W h \<and> (v = Inr ''yes'' \<longrightarrow> ?D h))"
    unfolding configGet_def
    by (rule through_checked_or [OF q], rule foot_intros, rule through_perform [OF cmd])
      (auto intro!: through_ret)
  show ?thesis
    unfolding IsOffline_def get_flag_def
    by (rule through_attempt [OF get]) (auto intro!: through_ret)
qed

text \<open>Closing the server.\<close>
lemma through_SetOffline:
  assumes "ptr_to (c_Hostname C) p"
  shows "through (waiting C h0) (waiting C h0) (SetOffline E C p)
    (\<lambda>e h. waiting C h0 h \<and> (e = None \<longrightarrow> closed C h0 h))"
proof -
  let ?W = "waiting C h0" and ?D = "closed C h0"
  let ?A = "\<lparr> p_ev = (\<lambda>e. \<forall>w r. e \<noteq> EvZkWrite w r), p_crit = False, p_spin = False, p_link = True, p_hosts = (\<lambda>h. True) \<rparr>"
  have set: "through ?W ?W (send E p (ConfigSet ''offline'' ''yes'')) (\<lambda>e h. ?W h \<and> (e = None \<longrightarrow> ?D h))"
    by (rule through_send [OF assms]) (auto intro: waiting_cons closing)
  have ro: "foot ?A (SetReadOnly E p True)"
    by (rule foot_intros) (simp add: may_cmds_def)
  have rest: "through ?W ?D (perform (SetReadOnly E p True) (\<lambda>(err, rewriteErr). ret err)) (\<lambda>e. ?D)"
    by (rule through_closed) (rule foot_intros ro)+
  have local: "through ?W ?W (IsLocal C p) (\<lambda>l. ?W)"
    by (rule through_waiting [of nothing], rule foot_intros) (simp add: nothing_def)
  show ?thesis
    unfolding SetOffline_def
  proof (rule through_perform [OF local], rule through_if)
    show "through ?W ?W (ret (Some (Errorf (''making '' @ host_of p @ '' offline is not possible - not local''))))
        (\<lambda>e h. ?W h \<and> (e = None \<longrightarrow> ?D h))" by (rule through_ret) auto
    show "through ?W ?W (checked (send E p (ConfigSet ''offline'' ''yes''))
        (perform (SetReadOnly E p True) (\<lambda>(err, rewriteErr). ret err))) (\<lambda>e h. ?W h \<and> (e = None \<longrightarrow> ?D h))"
    proof (rule through_checked [OF set])
      show "through ?W (\<lambda>h. ?W h \<and> (None = None \<longrightarrow> ?D h))
          (perform (SetReadOnly E p True) (\<lambda>(err, rewriteErr). ret err)) (\<lambda>e h. ?W h \<and> (e = None \<longrightarrow> ?D h))"
        by (rule through_weaken [OF rest]) (auto intro: closed_waiting)
    qed auto
  qed
qed

lemma through_local:
  assumes "\<And>p. ptr_to (c_Hostname C) p \<Longrightarrow> through I P (k p) Q"
  shows "through I P (perform (shard_Local C) k) Q"
proof -
  have "perform (shard_Local C) k s = k (map_option (\<lambda>n. (c_Hostname C, n)) (shard_local s)) s" for s
    by (simp add: perform_def shard_Local_def gets_def)
  moreover have "ptr_to (c_Hostname C) (map_option (\<lambda>n. (c_Hostname C, n)) x)" for x
    by (auto simp: ptr_to_def)
  ultimately show ?thesis using assms unfolding through_def via_def by fastforce
qed

lemma pill_keeps: "keeps (waiting C h0) (applyPoisonPill E C pill)"
proof -
  let ?W = "waiting C h0" and ?D = "closed C h0"
  let ?exec = "\<lparr> p_ev = (\<lambda>e. \<exists>a r. e = EvExec a r), p_crit = False, p_spin = False, p_link = True, p_hosts = (\<lambda>h. True) \<rparr>"
  let ?any = "\<lparr> p_ev = (\<lambda>e. True), p_crit = True, p_spin = True, p_link = True, p_hosts = (\<lambda>h. True) \<rparr>"
  have stop: "through ?W ?W (ret x) (\<lambda>x. ?W)" for x by (rule through_ret)
  have mark: "through ?W ?D (let pill' = pill\<lparr>pp_Applied := True\<rparr> in
      perform (dcs_Set E C pathPoisonPill (JPill pill')) (\<lambda>e. ret (e, pill'))) (\<lambda>x. ?W)"
  proof -
    have "foot ?any (let pill' = pill\<lparr>pp_Applied := True\<rparr> in
      perform (dcs_Set E C pathPoisonPill (JPill pill')) (\<lambda>e. ret (e, pill')))"
      unfolding Let_def by (intro foot_intros; simp add: may_write_def)
    from through_closed [OF this] show ?thesis by (rule through_weaken) (auto intro: closed_waiting)
  qed
  have restart: "through ?W ?W (perform (Restart E C p) (\<lambda>e. ret (e, pill))) (\<lambda>x. ?W)" for p
  proof (rule through_waiting)
    show "foot ?exec (perform (Restart E C p) (\<lambda>e. ret (e, pill)))"
      unfolding Restart_def by (intro foot_intros; simp)
  qed simp
  have goes: "through ?W (\<lambda>h. ?W h \<and> (Inr off = Inr True \<longrightarrow> ?D h))
      (perform (if \<not> off then SetOffline E C p else ret None) (\<lambda>err. case err of
        Some e \<Rightarrow> ret (Some e, pill)
      | None \<Rightarrow> (let pill' = pill\<lparr>pp_Applied := True\<rparr> in
          perform (dcs_Set E C pathPoisonPill (JPill pill')) (\<lambda>e. ret (e, pill'))))) (\<lambda>x. ?W)"
    if p: "ptr_to (c_Hostname C) p" for p off
  proof (rule through_perform)
    show "through ?W (\<lambda>h. ?W h \<and> (Inr off = Inr True \<longrightarrow> ?D h)) (if \<not> off then SetOffline E C p else ret None)
        (\<lambda>e h. ?W h \<and> (e = None \<longrightarrow> ?D h))"
      by (rule through_if, rule through_weaken [OF through_SetOffline [OF p]]) (auto intro!: through_ret)
    show "through ?W (\<lambda>h. ?W h \<and> (err = None \<longrightarrow> ?D h)) (case err of Some e \<Rightarrow> ret (Some e, pill)
      | None \<Rightarrow> (let pill' = pill\<lparr>pp_Applied := True\<rparr> in
          perform (dcs_Set E C pathPoisonPill (JPill pill')) (\<lambda>e. ret (e, pill')))) (\<lambda>x. ?W)" for err
      by (cases err) (simp_all, (rule through_weaken [OF mark] through_weaken [OF stop]; simp)+)
  qed
  have local: "through ?W ?W (perform (IsOffline E p) (\<lambda>r. case r of
        Inl e \<Rightarrow> perform (Restart E C p) (\<lambda>e'. ret (e', pill))
      | Inr isOffline \<Rightarrow> perform (if \<not> isOffline then SetOffline E C p else ret None) (\<lambda>err. case err of
            Some e \<Rightarrow> ret (Some e, pill)
          | None \<Rightarrow> (let pill' = pill\<lparr>pp_Applied := True\<rparr> in
              perform (dcs_Set E C pathPoisonPill (JPill pill')) (\<lambda>e'. ret (e', pill')))))) (\<lambda>x. ?W)"
    if p: "ptr_to (c_Hostname C) p" for p
  proof (rule through_perform [OF through_IsOffline [OF p]])
    show "through ?W (\<lambda>h. ?W h \<and> (r = Inr True \<longrightarrow> ?D h)) (case r of
        Inl e \<Rightarrow> perform (Restart E C p) (\<lambda>e'. ret (e', pill))
      | Inr isOffline \<Rightarrow> perform (if \<not> isOffline then SetOffline E C p else ret None) (\<lambda>err. case err of
            Some e \<Rightarrow> ret (Some e, pill)
          | None \<Rightarrow> (let pill' = pill\<lparr>pp_Applied := True\<rparr> in
              perform (dcs_Set E C pathPoisonPill (JPill pill')) (\<lambda>e'. ret (e', pill'))))) (\<lambda>x. ?W)" for r
    proof (cases r)
      case (Inl e)
      then show ?thesis by (simp, intro through_weaken [OF restart]) simp_all
    next
      case (Inr off)
      then show ?thesis using goes [OF p, of off] by simp
    qed
  qed
  show ?thesis
    unfolding keeps_def applyPoisonPill_def
    by (rule through_if stop through_local local | assumption)+
qed

text \<open>
  C30 The pill is a fence: applying a pill writes nothing to the DCS before the local server has said it
  is offline or accepted going offline; so a pill marked as applied means a closed server.
\<close>
theorem pill_marked_after_closing:
  "\<exists>new. hist (snd (applyPoisonPill E C pill s)) = new @ hist s \<and> fence_first C new"
proof -
  have "waiting C (hist s) (hist s)" by (simp add: waiting_def)
  from keeps_hist [OF pill_keeps this] show ?thesis by (simp add: waiting_def)
qed

end
