(* ===== verification/Freeze.thy ===== *)
theory Freeze
  imports SwitchoverLaws
begin

text \<open>
  No two masters: a switchover promotes a node only after the writes have been stopped on a failover quorum of the active nodes,
  and on the old master when it answers (internal/app/switchover.go, phases 1 to 5).
\<close>

section \<open>The order of stopping and promoting\<close>

text \<open>A node accepts a number of replicas to write to that it cannot reach.\<close>
fun stops_writes :: "string \<Rightarrow> event \<Rightarrow> bool" where
  "stops_writes host (EvCmd h (ConfigSet k v) r) =
     (h = host \<and> k = ''min-replicas-to-write'' \<and> v = itoa highMinReplicas \<and> reply_err r = None)"
| "stops_writes host e = False"

definition stopped :: "event list \<Rightarrow> string \<Rightarrow> bool" where
  "stopped es host \<longleftrightarrow> list_ex (stops_writes host) es"

text \<open>Events newest first: whenever a command promotes a node, \<open>Q\<close> holds of the events before it.\<close>
fun before_promoting :: "(event list \<Rightarrow> bool) \<Rightarrow> event list \<Rightarrow> bool" where
  "before_promoting Q [] = True"
| "before_promoting Q (e # es) =
     ((case e of EvCmd host c r \<Rightarrow> promote_cmd c \<longrightarrow> Q es | _ \<Rightarrow> True) \<and> before_promoting Q es)"

text \<open>The active nodes that take part: an automatic failover leaves the failed master out.\<close>
definition taking_part :: "Switchover \<Rightarrow> string list \<Rightarrow> string \<Rightarrow> string list" where
  "taking_part sw active old =
     (if sw_Cause sw = CauseAuto \<and> sw_From sw = old then filterOut active [old] else active)"

definition answers :: "shard_state \<Rightarrow> string \<Rightarrow> bool" where
  "answers ss host = (case map_of ss host of None \<Rightarrow> False | Some hs \<Rightarrow> hs_PingOk hs)"

definition writes_stopped :: "Config \<Rightarrow> shard_state \<Rightarrow> string list \<Rightarrow> string list \<Rightarrow> string \<Rightarrow> event list \<Rightarrow> bool" where
  "writes_stopped C ss active nodes old es \<longleftrightarrow>
     getFailoverQuorum C active \<le> int (length (filter (stopped es) nodes)) \<and>
     (old \<in> set nodes \<and> answers ss old \<longrightarrow> stopped es old)"

text \<open>The events since \<open>h0\<close> are in order, and the hosts of \<open>A\<close> have stopped.\<close>
definition holding :: "(event list \<Rightarrow> bool) \<Rightarrow> history \<Rightarrow> string set \<Rightarrow> history \<Rightarrow> bool" where
  "holding Q h0 A h \<longleftrightarrow> (\<exists>new. h = new @ h0 \<and> before_promoting Q new \<and> (\<forall>a \<in> A. stopped new a))"

definition allowing :: "(event list \<Rightarrow> bool) \<Rightarrow> history \<Rightarrow> history \<Rightarrow> bool" where
  "allowing Q h0 h \<longleftrightarrow> (\<exists>new. h = new @ h0 \<and> before_promoting Q new \<and> Q new)"

abbreviation promotes :: "event \<Rightarrow> bool" where
  "promotes e \<equiv> \<exists>h c r. e = EvCmd h c r \<and> promote_cmd c"

lemma stopped_cons: "stopped es a \<Longrightarrow> stopped (e # es) a"
  by (simp add: stopped_def)

lemma before_cons: "before_promoting Q es \<Longrightarrow> \<not> promotes e \<or> Q es \<Longrightarrow> before_promoting Q (e # es)"
  by (auto split: event.split)

lemma holding_cons: "holding Q h0 A h \<Longrightarrow> \<not> promotes e \<Longrightarrow> holding Q h0 A (e # h)"
  unfolding holding_def by (metis append_Cons before_cons stopped_cons)

lemma holding_stop: "holding Q h0 A h \<Longrightarrow> stops_writes a e \<Longrightarrow> \<not> promotes e \<Longrightarrow> holding Q h0 (insert a A) (e # h)"
proof -
  assume "holding Q h0 A h" and e: "stops_writes a e" "\<not> promotes e"
  then obtain new where "h = new @ h0" "before_promoting Q new" "\<forall>a \<in> A. stopped new a" by (auto simp: holding_def)
  with e show ?thesis
    unfolding holding_def by (intro exI [of _ "e # new"]) (auto intro: before_cons stopped_cons simp: stopped_def simp del: before_promoting.simps)
qed

lemma holding_mono: "holding Q h0 A h \<Longrightarrow> B \<subseteq> A \<Longrightarrow> holding Q h0 B h"
  unfolding holding_def by blast

lemma allowing_holding: "allowing Q h0 h \<Longrightarrow> holding Q h0 {} h"
  by (auto simp: allowing_def holding_def)

lemma allowing_cons: "(\<And>es e. Q es \<Longrightarrow> Q (e # es)) \<Longrightarrow> allowing Q h0 h \<Longrightarrow> allowing Q h0 (e # h)"
  unfolding allowing_def by (metis append_Cons before_cons)

section \<open>Stopping the writes\<close>

lemma through_when: "(b \<Longrightarrow> through I P m R) \<Longrightarrow> through I (\<lambda>h. P h \<and> b) m R"
  unfolding through_def by (rule via_when)

lemma keeps_holding: "foot (any_but (\<lambda>h. False)) m \<Longrightarrow> through (holding Q h0 {}) (holding Q h0 A) m (\<lambda>x. holding Q h0 A)"
proof (erule through_foot)
  fix e h
  assume "quiet e \<or> p_ev (any_but (\<lambda>h. False)) e" and "holding Q h0 A h"
  then show "holding Q h0 A (e # h)"
    by (intro holding_cons) (use quiet_not_promote in \<open>auto simp: any_but_def\<close>)
qed (blast intro: holding_mono)

lemma through_SetReadOnly:
  assumes "ptr_to host p"
  shows "through (holding Q h0 {}) (holding Q h0 A) (SetReadOnly E p b)
    (\<lambda>(err, rewriteErr) h. holding Q h0 A h \<and> (err = None \<longrightarrow> holding Q h0 (insert host A) h))"
proof -
  let ?I = "holding Q h0 {}" and ?P = "holding Q h0 A" and ?D = "holding Q h0 (insert host A)"
  have set: "through ?I ?P (send E p (ConfigSet ''min-replicas-to-write'' (itoa highMinReplicas)))
      (\<lambda>e h. ?P h \<and> (e = None \<longrightarrow> ?D h))"
  proof (rule through_send [OF assms])
    show "?P (e # h)" if "quiet e" "?P h" for e h
      using that by (blast intro: holding_cons dest: quiet_not_promote)
    show "?D (EvCmd host (ConfigSet ''min-replicas-to-write'' (itoa highMinReplicas)) r # h)"
      if "reply_err r = None" "?P h" for r h
      using that by (intro holding_stop) simp_all
  qed (auto intro: holding_cons holding_mono)
  let ?rest = "perform (configRewrite E p) (\<lambda>rewriteErr.
      if b then perform (DisconnectClients E p ''normal'') (\<lambda>e1. case e1 of
             Some x \<Rightarrow> ret (Some x, rewriteErr)
           | None \<Rightarrow> perform (DisconnectClients E p ''pubsub'') (\<lambda>e2. case e2 of
               Some x \<Rightarrow> ret (Some x, rewriteErr)
             | None \<Rightarrow> ret (None, rewriteErr)))
      else ret (None, rewriteErr))"
  have "through ?I ?D ?rest (\<lambda>x. ?D)"
    by (rule keeps_holding)
      (unfold DisconnectClients_def configRewrite_def, (rule foot_intros | simp add: may_cmds_def any_but_def)+)
  then have "through ?I (\<lambda>h. ?P h \<and> ?D h) ?rest (\<lambda>(err, rewriteErr) h. ?P h \<and> (err = None \<longrightarrow> ?D h))"
    by (rule through_weaken) (auto intro: holding_mono)
  then have "through ?I (\<lambda>h. ?P h \<and> (e = None \<longrightarrow> ?D h)) (case e of Some x \<Rightarrow> ret (Some x, None) | None \<Rightarrow> ?rest)
      (\<lambda>(err, rewriteErr) h. ?P h \<and> (err = None \<longrightarrow> ?D h))" for e
    by (cases e) (auto intro!: through_ret intro: holding_mono)
  then show ?thesis
    unfolding SetReadOnly_def by (rule through_perform [OF set])
qed

lemma through_make_readonly:
  "through (holding Q h0 {}) (holding Q h0 A) (make_readonly E ss old host)
    (\<lambda>err h. holding Q h0 A h \<and> (err = None \<longrightarrow> holding Q h0 (insert host A) h))"
proof -
  let ?I = "holding Q h0 {}" and ?P = "holding Q h0 A" and ?D = "holding Q h0 (insert host A)"
  have get: "through ?I ?P (shard_Get host) (\<lambda>node h. ?P h \<and> ptr_to host node)"
    by (auto simp: through_def via_def shard_Get_def gets_def ptr_to_def intro: holding_mono)
  have set: "through ?I (\<lambda>h. ?P h \<and> ptr_to host node) (perform (SetReadOnly E node b) (\<lambda>(err, rewriteErr). ret err))
      (\<lambda>err h. ?P h \<and> (err = None \<longrightarrow> ?D h))" for node b
    by (rule through_when, rule through_perform [OF through_SetReadOnly])
      (auto intro!: through_ret intro: holding_mono)
  have node: "through ?I ?P (perform (shard_Get host) (\<lambda>node.
      perform (SetReadOnly E node (host = old)) (\<lambda>(err, rewriteErr). ret err))) (\<lambda>err h. ?P h \<and> (err = None \<longrightarrow> ?D h))"
    by (rule through_perform [OF get set])
  have at: "through ?I ?P (state_at ss host) (\<lambda>st. ?P)"
    by (rule keeps_holding) (rule foot_intros)
  show ?thesis
    unfolding make_readonly_def
    by (rule through_perform [OF at], rule through_if, rule through_ret) (auto intro: holding_mono node)
qed

text \<open>Over all hosts, in any order.\<close>
lemma through_collect:
  fixes f :: "string \<Rightarrow> goerr option M"
  assumes "\<And>host A. through (holding Q h0 {}) (holding Q h0 A) (f host)
      (\<lambda>err h. holding Q h0 A h \<and> (err = None \<longrightarrow> holding Q h0 (insert host A) h))"
  shows "through (holding Q h0 {}) (holding Q h0 A) (collect (\<lambda>h. perform (f h) (\<lambda>e. ret (h, e))) hosts)
    (\<lambda>rs h. holding Q h0 (A \<union> {x. (x, None) \<in> set rs}) h \<and> map fst rs = hosts)"
proof (induction hosts arbitrary: A)
  case Nil
  show ?case by (auto intro!: through_ret intro: holding_mono)
next
  case (Cons host hosts)
  have one: "through (holding Q h0 {}) (holding Q h0 A) (perform (f host) (\<lambda>e. ret (host, e)))
      (\<lambda>y h. fst y = host \<and> holding Q h0 (A \<union> {x. y = (x, None)}) h)"
    by (rule through_perform [OF assms]) (auto intro!: through_ret intro: holding_mono)
  show ?case
    unfolding collect.simps
  proof (rule through_perform [OF one])
    fix y :: "string \<times> goerr option"
    let ?A = "A \<union> {x. y = (x, None)}"
    have "through (holding Q h0 {}) (holding Q h0 ?A) (perform (collect (\<lambda>h. perform (f h) (\<lambda>e. ret (h, e))) hosts) (\<lambda>ys. ret (y # ys)))
        (\<lambda>rs h. fst y = host \<longrightarrow> holding Q h0 (A \<union> {x. (x, None) \<in> set rs}) h \<and> map fst rs = host # hosts)"
      by (rule through_perform [OF Cons.IH], rule through_ret) (auto intro: holding_mono)
    then show "through (holding Q h0 {}) (\<lambda>h. fst y = host \<and> holding Q h0 ?A h)
        (perform (collect (\<lambda>h. perform (f h) (\<lambda>e. ret (h, e))) hosts) (\<lambda>ys. ret (y # ys)))
        (\<lambda>rs h. holding Q h0 (A \<union> {x. (x, None) \<in> set rs}) h \<and> map fst rs = host # hosts)"
      by (cases "fst y = host") (auto elim!: through_weaken simp: through_def via_def)
  qed
qed


lemma through_yields:
  assumes "through I P m (\<lambda>x. P')" and "yields Y m"
  shows "through I P m (\<lambda>x h. P' h \<and> Y x)"
  using assms unfolding through_def via_def yields_def by blast

lemma through_runParallel:
  fixes f :: "string \<Rightarrow> goerr option M"
  assumes "\<And>host A. through (holding Q h0 {}) (holding Q h0 A) (f host)
      (\<lambda>err h. holding Q h0 A h \<and> (err = None \<longrightarrow> holding Q h0 (insert host A) h))"
  shows "through (holding Q h0 {}) (holding Q h0 {}) (runParallel E f hosts)
    (\<lambda>errs h. holding Q h0 {x. (x, None) \<in> set errs} h \<and> fst ` set errs = set hosts)"
proof -
  have order: "through (holding Q h0 {}) (holding Q h0 {}) (any_order E hosts) (\<lambda>order h. holding Q h0 {} h \<and> set order = set hosts)"
  proof (rule through_yields)
    show "yields (\<lambda>order. set order = set hosts) (any_order E hosts)"
      unfolding any_order_def Let_def andThen_def by (intro wp_intros yields_ret) auto
  qed (rule keeps_holding, rule foot_intros)
  show ?thesis
    unfolding runParallel_def
  proof (rule through_perform [OF order])
    fix order :: "string list"
    show "through (holding Q h0 {}) (\<lambda>h. holding Q h0 {} h \<and> set order = set hosts)
        (perform (collect (\<lambda>h. perform (f h) (\<lambda>e. ret (h, e))) order) (\<lambda>rs. ret (rev rs)))
        (\<lambda>errs h. holding Q h0 {x. (x, None) \<in> set errs} h \<and> fst ` set errs = set hosts)"
    proof (rule through_when)
      assume set: "set order = set hosts"
      show "through (holding Q h0 {}) (holding Q h0 {})
        (perform (collect (\<lambda>h. perform (f h) (\<lambda>e. ret (h, e))) order) (\<lambda>rs. ret (rev rs)))
        (\<lambda>errs h. holding Q h0 {x. (x, None) \<in> set errs} h \<and> fst ` set errs = set hosts)"
        by (rule through_perform [OF through_collect [OF assms]], rule through_ret)
          (auto simp: set [symmetric] intro: holding_mono simp flip: set_map)
    qed
  qed
qed

section \<open>The freeze\<close>

lemma err_at_None: "err_at errs x = None \<Longrightarrow> x \<in> fst ` set errs \<Longrightarrow> (x, None) \<in> set errs"
  unfolding err_at_def
  by (metis imageE map_of_SomeD map_of_eq_None_iff option.case_eq_if option.collapse option.distinct(1) prod.collapse)

text \<open>What a successful freeze has found out is enough.\<close>
lemma frozen_enough:
  assumes "holding (writes_stopped C ss active nodes old) h0 {x. (x, None) \<in> set errsRO} h"
    and "fst ` set errsRO = set nodes" and "err_at errsRO old = None \<or> \<not> answers ss old"
    and "getFailoverQuorum C active \<le> int (length (alive_active errsRO errsPause nodes))"
  shows "allowing (writes_stopped C ss active nodes old) h0 h"
proof -
  obtain new where new: "h = new @ h0" "before_promoting (writes_stopped C ss active nodes old) new"
      "\<And>x. (x, None) \<in> set errsRO \<Longrightarrow> stopped new x"
    using assms(1) by (auto simp: holding_def)
  have ok: "stopped new x" if "x \<in> set nodes" "err_at errsRO x = None" for x
    using new(3) err_at_None [OF that(2)] that(1) assms(2) by simp
  have "length (alive_active errsRO errsPause nodes) \<le> length (filter (stopped new) nodes)"
  proof -
    have "alive_active errsRO errsPause nodes = filter (\<lambda>x. err_at errsPause x = None \<and> err_at errsRO x = None) (filter (stopped new) nodes)"
      unfolding alive_active_def filter_filter by (rule filter_cong) (auto intro: ok)
    then show ?thesis by (metis length_filter_le)
  qed
  with assms(3,4) ok [of old] have "writes_stopped C ss active nodes old new"
    unfolding writes_stopped_def by auto
  with new show ?thesis unfolding allowing_def by blast
qed


text \<open>The computation of the early return leaves the old master stopped or not answering.\<close>
lemma stop_yields:
  "yields (\<lambda>stop. stop = None \<longrightarrow> err_at errsRO old = None \<or> \<not> answers ss old)
     (case err_at errsRO old of None \<Rightarrow> ret None
      | Some e \<Rightarrow> perform (state_at ss old) (\<lambda>os. ret (if hs_PingOk os then Some (msg e) else None)))"
  unfolding state_at_def deref_def answers_def
  by (cases "err_at errsRO old"; cases "map_of ss old") (auto intro!: yields_ret yields_halt)

text \<open>A phase that succeeds has stopped enough.\<close>
definition enough_if_ok :: "(event list \<Rightarrow> bool) \<Rightarrow> history \<Rightarrow> (goerr + 'a) \<times> Switchover \<Rightarrow> history \<Rightarrow> bool" where
  "enough_if_ok Q h0 = (\<lambda>(r, sw) h. case r of Inl e \<Rightarrow> holding Q h0 {} h | Inr x \<Rightarrow> allowing Q h0 h)"

lemma calm_steps:
  "foot (any_but (\<lambda>h. False)) m \<Longrightarrow> (\<And>x. through (holding Q h0 {}) (holding Q h0 A) (k x) R) \<Longrightarrow>
   through (holding Q h0 {}) (holding Q h0 A) (perform m k) R"
  "foot (any_but (\<lambda>h. False)) m' \<Longrightarrow> (\<And>x sw. through (holding Q h0 {}) (holding Q h0 A) (k' x sw) (enough_if_ok Q h0)) \<Longrightarrow>
   through (holding Q h0 {}) (holding Q h0 A) (go m' k') (enough_if_ok Q h0)"
  "foot (any_but (\<lambda>h. False)) m'' \<Longrightarrow> (\<And>x. through (holding Q h0 {}) (holding Q h0 A) (k'' x) (enough_if_ok Q h0)) \<Longrightarrow>
   through (holding Q h0 {}) (holding Q h0 A) (stop_err g sw m'' k'') (enough_if_ok Q h0)"
  unfolding go_def stop_err_def
  by (rule through_perform [OF keeps_holding]; auto split: prod.split sum.split intro!: through_ret
      simp: enough_if_ok_def intro: holding_mono)+

lemma calm_host: "host_may (any_but P) host calm_cmd"
  by (simp add: any_but_def host_may_def calm_cmd_def)

text \<open>\<open>freeze\<close> after its first step, with the errors of that step and the nodes that take part.\<close>
definition freeze_tail ::
  "env \<Rightarrow> Config \<Rightarrow> shard_state \<Rightarrow> string list \<Rightarrow> string list \<Rightarrow> string \<Rightarrow> errs \<Rightarrow> Switchover \<Rightarrow> (string list \<times> string list) phase" where
  "freeze_tail E C ss active nodes old errsRO sw =
     perform (case err_at errsRO old of None \<Rightarrow> ret None
       | Some e \<Rightarrow> perform (state_at ss old) (\<lambda>os.
           ret (if hs_PingOk os then Some (Text (''failed to set old master '' @ old @ '' read-only'') e) else None))) (\<lambda>stop.
     case stop of Some e \<Rightarrow> ret (Inl e, sw) | None \<Rightarrow>
     read_pill E C sw (\<lambda>poisonPill.
     perform (state_at ss old) (\<lambda>os.
     go (if hs_PingOk os then ret (Inr (), sw) else pill_for E C sw old poisonPill) (\<lambda>u sw.
     perform (runParallel E (pause_host E C ss) nodes) (\<lambda>errsPause.
     let alive = alive_active errsRO errsPause nodes in
     if int (length alive) < getFailoverQuorum C active
     then ret (Inl (Errorf (''no failover quorum reached: '' @ count_text alive @ '' nodes alive, ''
            @ itoa (getFailoverQuorum C active) @ '' required'')), sw)
     else ret (Inr (nodes, alive), sw))))))"

lemma freeze_shape:
  "freeze E C ss active sw old = go (init_progress E C sw) (\<lambda>u sw'.
     if sw_To sw' \<noteq> [] \<and> sw_To sw' \<notin> set active
     then ret (Inl (Errorf (''switchover: failed: replica '' @ sw_To sw' @ '' is not active, can't switch to it'')), sw')
     else perform (runParallel E (make_readonly E ss old) (taking_part sw' active old)) (\<lambda>errsRO.
       freeze_tail E C ss active (taking_part sw' active old) old errsRO sw'))"
  unfolding freeze_def freeze_tail_def taking_part_def Let_def ..

lemma through_tail:
  fixes C :: Config and active nodes :: "string list" and ss :: shard_state and old :: string
  defines "Q \<equiv> writes_stopped C ss active nodes old"
  assumes nodes: "fst ` set errsRO = set nodes"
  shows "through (holding Q h0 {}) (holding Q h0 {x. (x, None) \<in> set errsRO})
    (freeze_tail E C ss active nodes old errsRO sw) (enough_if_ok Q h0)"
proof -
  let ?I = "holding Q h0 {}" and ?P = "holding Q h0 {x. (x, None) \<in> set errsRO}"
  have PI: "?P h \<Longrightarrow> ?I h" for h by (erule holding_mono) simp
  have last: "through ?I ?P (let alive = alive_active errsRO errsPause nodes in
      if int (length alive) < getFailoverQuorum C active then ret (Inl (err alive), sw) else ret (Inr (nodes, alive), sw))
      (enough_if_ok Q h0)" if "err_at errsRO old = None \<or> \<not> answers ss old" for errsPause sw err
    unfolding Let_def using frozen_enough [of C ss active nodes old h0 errsRO _ errsPause] nodes that
    by (intro through_if through_ret) (auto simp: Q_def [symmetric] enough_if_ok_def dest: PI)
  have step: "through ?I (\<lambda>h. ?P h \<and> (stop = None \<longrightarrow> X)) (case stop of Some e \<Rightarrow> ret (Inl e, sw) | None \<Rightarrow> m) (enough_if_ok Q h0)"
    if "X \<Longrightarrow> through ?I ?P m (enough_if_ok Q h0)" for stop X m
    using through_when [OF that] by (cases stop) (auto intro!: through_ret simp: enough_if_ok_def dest: PI)
  show ?thesis
    unfolding freeze_tail_def
    by (rule through_perform [OF through_yields [OF keeps_holding stop_yields]], (rule foot_intros)+, rule step, unfold read_pill_def)
      (rule calm_steps last foot_intros calm_any_but calm_host any_but_mays | assumption)+
qed

lemma init_yields:
  "yields (\<lambda>(r, sw'). sw_Cause sw' = sw_Cause sw \<and> sw_From sw' = sw_From sw) (init_progress E C sw)"
  unfolding init_progress_def stop_on_def Let_def by (auto intro!: wp_intros yields_ret split: option.split)

lemma through_init:
  assumes "\<And>u sw'. sw_Cause sw' = sw_Cause sw \<Longrightarrow> sw_From sw' = sw_From sw \<Longrightarrow>
    through (holding Q h0 {}) (holding Q h0 {}) (k u sw') (enough_if_ok Q h0)"
  shows "through (holding Q h0 {}) (holding Q h0 {}) (go (init_progress E C sw) k) (enough_if_ok Q h0)"
  unfolding go_def
proof (rule through_perform [OF through_yields [OF keeps_holding init_yields]])
  show "foot (any_but (\<lambda>h. False)) (init_progress E C sw)"
    unfolding init_progress_def Let_def by (rule foot_intros calm_any_but any_but_mays)+
  fix x :: "(goerr + unit) \<times> Switchover"
  obtain r sw' where x: "x = (r, sw')" by (cases x)
  show "through (holding Q h0 {}) (\<lambda>h. holding Q h0 {} h \<and> (case x of (r, sw') \<Rightarrow> sw_Cause sw' = sw_Cause sw \<and> sw_From sw' = sw_From sw))
      (case x of (r, sw) \<Rightarrow> case r of Inl e \<Rightarrow> ret (Inl e, sw) | Inr u \<Rightarrow> k u sw) (enough_if_ok Q h0)"
  proof (cases "sw_Cause sw' = sw_Cause sw \<and> sw_From sw' = sw_From sw")
    case True
    then show ?thesis
      using assms [of sw'] by (cases r) (auto simp: x enough_if_ok_def intro!: through_ret)
  qed (auto simp: x through_def via_def)
qed

lemma through_freeze:
  "through (holding (writes_stopped C ss active (taking_part sw active old) old) h0 {})
     (holding (writes_stopped C ss active (taking_part sw active old) old) h0 {})
     (freeze E C ss active sw old) (enough_if_ok (writes_stopped C ss active (taking_part sw active old) old) h0)"
  (is "through (holding ?Q h0 {}) _ _ _")
  unfolding freeze_shape
proof (rule through_init)
  fix u :: unit and sw' :: Switchover
  assume "sw_Cause sw' = sw_Cause sw" "sw_From sw' = sw_From sw"
  then have same: "taking_part sw' active old = taking_part sw active old" by (simp add: taking_part_def)
  let ?nodes = "taking_part sw active old"
  have after: "through (holding ?Q h0 {}) (\<lambda>h. holding ?Q h0 {x. (x, None) \<in> set errs} h \<and> fst ` set errs = set ?nodes)
      (freeze_tail E C ss active ?nodes old errs sw') (enough_if_ok ?Q h0)" for errs
    by (rule through_when [OF through_tail])
  have err: "through (holding ?Q h0 {}) (holding ?Q h0 {}) (ret (Inl e, sw')) (enough_if_ok ?Q h0)" for e
    by (auto intro!: through_ret simp: enough_if_ok_def)
  show "through (holding ?Q h0 {}) (holding ?Q h0 {})
      (if sw_To sw' \<noteq> [] \<and> sw_To sw' \<notin> set active
       then ret (Inl (Errorf (''switchover: failed: replica '' @ sw_To sw' @ '' is not active, can't switch to it'')), sw')
       else perform (runParallel E (make_readonly E ss old) (taking_part sw' active old)) (\<lambda>errsRO.
         freeze_tail E C ss active (taking_part sw' active old) old errsRO sw')) (enough_if_ok ?Q h0)"
    unfolding same
    by (intro through_if err through_perform [OF through_runParallel [OF through_make_readonly]] after)
qed


section \<open>The whole switchover\<close>

lemma writes_stopped_cons: "writes_stopped C ss active nodes old es \<Longrightarrow> writes_stopped C ss active nodes old (e # es)"
proof -
  have "length (filter (stopped es) nodes) \<le> length (filter (stopped (e # es)) nodes)"
    by (induction nodes) (auto intro: stopped_cons)
  then show "writes_stopped C ss active nodes old es \<Longrightarrow> writes_stopped C ss active nodes old (e # es)"
    unfolding writes_stopped_def by (auto intro: stopped_cons)
qed

lemma keeps_allowing:
  assumes "foot A m" and "\<And>es e. Q es \<Longrightarrow> Q (e # es)"
  shows "through (holding Q h0 {}) (allowing Q h0) m (\<lambda>x. holding Q h0 {})"
proof -
  have "through (holding Q h0 {}) (allowing Q h0) m (\<lambda>x. allowing Q h0)"
    by (rule through_foot [OF assms(1)]) (auto intro: allowing_cons assms(2) allowing_holding)
  then show ?thesis by (rule through_weaken) (auto intro: allowing_holding)
qed

lemma phases_after_freeze:
  "through (holding (writes_stopped C ss active (taking_part sw active old) old) h0 {})
     (holding (writes_stopped C ss active (taking_part sw active old) old) h0 {})
     (switchover_phases E C ss active sw old) (\<lambda>x. holding (writes_stopped C ss active (taking_part sw active old) old) h0 {})"
  (is "through (holding ?Q h0 {}) _ _ _")
proof -
  have c: "calm free_but_critical C" "senti_may free_but_critical" "p_spin free_but_critical"
      "may_write free_but_critical C path" "host_may free_but_critical h P" for path h P
    by (simp_all add: free_but_critical_def calm_def host_may_def senti_may_def may_write_def)
  have ok: "through (holding ?Q h0 {}) (enough_if_ok ?Q h0 x)
      (case x of (r, sw) \<Rightarrow> case r of Inl e \<Rightarrow> ret (Inl e, sw) | Inr y \<Rightarrow> k y sw) (\<lambda>x. holding ?Q h0 {})"
    if "\<And>y sw. foot free_but_critical (k y sw)" for x :: "(goerr + 'y) \<times> Switchover" and k :: "'y \<Rightarrow> Switchover \<Rightarrow> unit phase"
    using keeps_allowing [of free_but_critical _ ?Q h0, OF that writes_stopped_cons]
    by (cases x; cases "fst x") (auto simp: enough_if_ok_def intro!: through_ret)
  show ?thesis
    unfolding switchover_phases_def go_def [of "freeze E C ss active sw old"]
    by (rule through_perform [OF through_freeze ok]) (unfold promotion_def Let_def case_prod_beta, (rule foot_intros c)+)
qed

text \<open>
  C2 No node is promoted while the shard still accepts writes: in every run of a switchover, complete or cut anywhere, before any
  command that promotes a node a failover quorum of the active nodes that take part has accepted to take no writes in the
  same run, and so has the old master if it takes part and answers.
\<close>
theorem promotion_after_freeze:
  "\<exists>new. hist (snd (performSwitchover E C ss active sw old s)) = new @ hist s \<and>
     before_promoting (writes_stopped C ss active (taking_part sw active old) old) new"
proof -
  let ?Q = "writes_stopped C ss active (taking_part sw active old) old"
  let ?I = "holding ?Q (hist s) {}"
  have crit: "keeps ?I enterCritical" "keeps ?I exitCritical"
    unfolding enterCritical_def exitCritical_def keeps_def
    by (rule keeps_holding, rule foot_intros, simp add: any_but_mays)+
  have "keeps ?I (switchover_phases E C ss active sw old)"
    unfolding keeps_def by (rule phases_after_freeze)
  then have "keeps ?I (performSwitchover E C ss active sw old)"
    unfolding performSwitchover_def
    by (intro keeps_andThen keeps_perform crit) (auto intro!: keeps_intros crit split: prod.split)
  then have "?I (hist (snd (performSwitchover E C ss active sw old s)))"
    by (rule keeps_hist) (simp add: holding_def)
  then show ?thesis by (auto simp: holding_def)
qed

end
