(* ===== verification/QuorumTransition.thy ===== *)
theory QuorumTransition
  imports ActiveNodes Through
begin

text \<open>
  The transition between two sets of active nodes, moment by moment. Three values on three servers
  must stay consistent while they change one after the other: the active nodes in the DCS, and the
  replicas whose acknowledgement counts (\<open>quorum-replicas\<close>) and their number
  (\<open>quorum-replicas-to-write\<close>) on the master. What each of them may be after a history is a set of
  values: a failed write may or may not have been applied. The interface of the transition is the
  locale \<open>transition_target\<close>; the operations of \<open>updateActiveNodes\<close> implement it.
\<close>

section \<open>Possible values\<close>

text \<open>The names in a value of \<open>quorum-replicas\<close>.\<close>
definition names_in :: "string \<Rightarrow> string set" where
  "names_in v = set (filter (\<lambda>w. w \<noteq> []) (str_split CHR '' '' v))"

definition readable :: "doc \<Rightarrow> string list set" where
  "readable d = (case as_strings d of None \<Rightarrow> {} | Some v \<Rightarrow> {v})"

definition or_old :: "goerr option \<Rightarrow> 'a set \<Rightarrow> 'a set" where
  "or_old r S = (if r = None then {} else S)"

fun upd_act :: "Config \<Rightarrow> event \<Rightarrow> string list set \<Rightarrow> string list set" where
  "upd_act C (EvZkWrite (ZCreate p d eph) r) S =
     (if p = fullPath C pathActiveNodes then readable d \<union> or_old r S else S)"
| "upd_act C (EvZkWrite (ZSet p d v) r) S =
     (if p = fullPath C pathActiveNodes then readable d \<union> or_old r S else S)"
| "upd_act C (EvZkWrite (ZDelete p v) r) S =
     (if p = fullPath C pathActiveNodes then {[]} \<union> or_old r S else S)"
| "upd_act C e S = S"

fun upd_num :: "string \<Rightarrow> event \<Rightarrow> int set \<Rightarrow> int set" where
  "upd_num m (EvCmd h (ConfigSet k v) r) S =
     (if h = m \<and> k = ''quorum-replicas-to-write''
      then {fst (ParseInt 64 v)} \<union> or_old (reply_err r) S else S)"
| "upd_num m e S = S"

fun upd_quo :: "string \<Rightarrow> event \<Rightarrow> string set set \<Rightarrow> string set set" where
  "upd_quo m (EvCmd h (ConfigSet k v) r) S =
     (if h = m \<and> k = ''quorum-replicas'' then {names_in v} \<union> or_old (reply_err r) S else S)"
| "upd_quo m (EvCmd h (ConfigGet k) r) S =
     (if h = m \<and> k = ''quorum-replicas''
      then (case configParse k r of Inl e \<Rightarrow> S | Inr v \<Rightarrow> S \<inter> {names_in v}) else S)"
| "upd_quo m e S = S"

text \<open>
  The configurations possible after a history, from those possible at its beginning.
\<close>
record possible =
  p_act :: "string list set"
  p_num :: "int set"
  p_quo :: "string set set"

definition after :: "Config \<Rightarrow> string \<Rightarrow> possible \<Rightarrow> history \<Rightarrow> possible" where
  "after C m B h = \<lparr> p_act = foldr (upd_act C) h (p_act B), p_num = foldr (upd_num m) h (p_num B),
     p_quo = foldr (upd_quo m) h (p_quo B) \<rparr>"

definition within :: "string list set \<Rightarrow> int set \<Rightarrow> string set set \<Rightarrow> possible \<Rightarrow> bool" where
  "within A N Q p \<longleftrightarrow> p_act p \<subseteq> A \<and> p_num p \<subseteq> N \<and> p_quo p \<subseteq> Q"

text \<open>
  The number of acknowledgements suffices for every possible set of active nodes, and those who may
  acknowledge are active.
\<close>
definition enough_acks :: "possible \<Rightarrow> bool" where
  "enough_acks p \<longleftrightarrow> (\<forall>A \<in> p_act p. \<forall>k \<in> p_num p. getNumReplicasToWrite A \<le> k)"

definition acks_active :: "(string list \<Rightarrow> string set) \<Rightarrow> possible \<Rightarrow> bool" where
  "acks_active names p \<longleftrightarrow> (\<forall>A \<in> p_act p. \<forall>q \<in> p_quo p. q \<subseteq> names A)"

definition only_removes :: "string list \<Rightarrow> string list \<Rightarrow> int \<Rightarrow> int \<Rightarrow> bool" where
  "only_removes old new actual expected \<longleftrightarrow>
     \<not> activeNodesEqual old new \<and> \<not> hasAddedActiveNodes old new \<and> expected \<le> actual"

lemma within_mono: "within A N Q p \<Longrightarrow> A \<subseteq> A' \<Longrightarrow> N \<subseteq> N' \<Longrightarrow> Q \<subseteq> Q' \<Longrightarrow> within A' N' Q' p"
  by (auto simp: within_def)

lemma within_enough:
  "within A N Q p \<Longrightarrow> \<forall>a \<in> A. \<forall>k \<in> N. getNumReplicasToWrite a \<le> k \<Longrightarrow> enough_acks p"
  by (auto simp: within_def enough_acks_def)

lemma within_active:
  "within A N Q p \<Longrightarrow> \<forall>a \<in> A. \<forall>q \<in> Q. q \<subseteq> names a \<Longrightarrow> acks_active names p"
  by (fastforce simp: within_def acks_active_def)

section \<open>The interface of the transition\<close>

locale transition_target =
  fixes ops :: "st transition_ops" and valid :: "st \<Rightarrow> bool" and conf :: "history \<Rightarrow> possible"
    and names :: "string list \<Rightarrow> string set"
  assumes set_quorum: "via (\<lambda>h. within A N (insert (names v) Q) (conf h))
        (\<lambda>s. valid s \<and> within A N Q (conf (hist s))) (setQuorumReplicas ops v)
        (\<lambda>r s. valid s \<and> within A N (if r = None then {names v} else insert (names v) Q) (conf (hist s)))"
    and set_num: "in_int64 n \<Longrightarrow> via (\<lambda>h. within A (insert n N) Q (conf h))
        (\<lambda>s. valid s \<and> within A N Q (conf (hist s))) (setNumQuorumReplicas ops n)
        (\<lambda>r s. valid s \<and> within A (if r = None then {n} else insert n N) Q (conf (hist s)))"
    and set_active: "via (\<lambda>h. within (insert v A) N Q (conf h))
        (\<lambda>s. valid s \<and> within A N Q (conf (hist s))) (setActiveNodes ops v)
        (\<lambda>r s. valid s \<and> within (if r = None then {v} else insert v A) N Q (conf (hist s)))"
    and names_mono: "set v \<subseteq> set w \<Longrightarrow> names v \<subseteq> names w"
begin

definition at :: "string list set \<Rightarrow> int set \<Rightarrow> string set set \<Rightarrow> st \<Rightarrow> bool" where
  "at A N Q s \<longleftrightarrow> valid s \<and> within A N Q (conf (hist s))"

text \<open>
  One operation of the transition: the possibilities grow by its argument, and when it succeeds the
  argument alone is left. \<open>I\<close> is what must hold at every moment, \<open>J\<close> what the possibilities give.
\<close>

lemma quorum_step:
  assumes "\<And>p. within A N (insert (names v) Q) p \<Longrightarrow> J p"
    and "via (\<lambda>h. J (conf h)) (at A N {names v}) k (\<lambda>r s. True)"
  shows "via (\<lambda>h. J (conf h)) (at A N Q) (checked (setQuorumReplicas ops v) k) (\<lambda>r s. True)"
proof (rule via_checked)
  show "via (\<lambda>h. J (conf h)) (at A N Q) (setQuorumReplicas ops v)
      (\<lambda>r. at A N (if r = None then {names v} else insert (names v) Q))"
    unfolding at_def [abs_def] by (rule via_weaken [OF set_quorum]) (use assms(1) in auto)
qed (use assms in \<open>auto simp: at_def\<close>)

lemma num_step:
  assumes "in_int64 n" and "\<And>p. within A (insert n N) Q p \<Longrightarrow> J p"
    and "via (\<lambda>h. J (conf h)) (at A {n} Q) k (\<lambda>r s. True)"
  shows "via (\<lambda>h. J (conf h)) (at A N Q) (checked (setNumQuorumReplicas ops n) k) (\<lambda>r s. True)"
proof (rule via_checked)
  show "via (\<lambda>h. J (conf h)) (at A N Q) (setNumQuorumReplicas ops n)
      (\<lambda>r. at A (if r = None then {n} else insert n N) Q)"
    unfolding at_def [abs_def] by (rule via_weaken [OF set_num [OF assms(1)]]) (use assms(2) in auto)
qed (use assms in \<open>auto simp: at_def\<close>)

lemma active_step:
  assumes "\<And>p. within (insert v A) N Q p \<Longrightarrow> J p"
    and "via (\<lambda>h. J (conf h)) (at {v} N Q) k (\<lambda>r s. True)"
  shows "via (\<lambda>h. J (conf h)) (at A N Q) (checked (setActiveNodes ops v) k) (\<lambda>r s. True)"
proof (rule via_checked)
  show "via (\<lambda>h. J (conf h)) (at A N Q) (setActiveNodes ops v)
      (\<lambda>r. at (if r = None then {v} else insert v A) N Q)"
    unfolding at_def [abs_def] by (rule via_weaken [OF set_active]) (use assms(1) in auto)
qed (use assms in \<open>auto simp: at_def\<close>)

lemma stop_step:
  assumes "\<And>p. within A N Q p \<Longrightarrow> J p"
  shows "via (\<lambda>h. J (conf h)) (at A N Q) (ret None) (\<lambda>r s. True)"
  by (rule via_ret) (use assms in \<open>auto simp: at_def\<close>)

lemma checked_last: "checked m (ret None) = m"
  by (auto simp: checked_def perform_def ret_def fun_eq_iff split: prod.splits outcome.splits option.splits)

lemma num_last:
  assumes "in_int64 n" and "\<And>p. within A (insert n N) Q p \<Longrightarrow> J p"
  shows "via (\<lambda>h. J (conf h)) (at A N Q) (setNumQuorumReplicas ops n) (\<lambda>r s. True)"
  using num_step [OF assms(1), of A N Q J "ret None"] stop_step [of A "{n}" Q J] assms(2)
  by (simp add: checked_last within_mono)

text \<open>The number alone: raised first, lowered last, or left.\<close>
lemma maybe_num:
  assumes "in_int64 n" and "\<And>p. b \<Longrightarrow> within A (insert n N) Q p \<Longrightarrow> J p"
    and "b \<Longrightarrow> via (\<lambda>h. J (conf h)) (at A {n} Q) k (\<lambda>r s. True)"
    and "\<not> b \<Longrightarrow> via (\<lambda>h. J (conf h)) (at A N Q) k (\<lambda>r s. True)"
  shows "via (\<lambda>h. J (conf h)) (at A N Q) (checked (if b then setNumQuorumReplicas ops n else ret None) k)
    (\<lambda>r s. True)"
proof (cases b)
  case True
  with num_step [OF assms(1) assms(2) [OF True] assms(3) [OF True]] show ?thesis by simp
next
  case False
  have "checked (ret None) k = k" by (simp add: checked_def)
  with False assms(4) show ?thesis by simp
qed

lemma maybe_last:
  assumes "in_int64 n" and "\<And>p. b \<Longrightarrow> within A (insert n N) Q p \<Longrightarrow> J p"
    and "\<And>p. \<not> b \<Longrightarrow> within A N Q p \<Longrightarrow> J p"
  shows "via (\<lambda>h. J (conf h)) (at A N Q) (if b then setNumQuorumReplicas ops n else ret None) (\<lambda>r s. True)"
proof (cases b)
  case True
  with num_last [OF assms(1) assms(2) [OF True]] show ?thesis by simp
next
  case False
  have "via (\<lambda>h. J (conf h)) (at A N Q) (ret None) (\<lambda>r s. True)"
    by (rule stop_step) (rule assms(3) [OF False])
  with False show ?thesis by simp
qed

lemma transition_enough:
  assumes "in_int64 expected" and "expected = getNumReplicasToWrite new" and "getNumReplicasToWrite old \<le> actual"
  shows "via (\<lambda>h. enough_acks (conf h)) (at {old} {actual} Q)
    (applyActiveNodesTransition old new actual expected ops) (\<lambda>r s. True)"
proof -
  have equal: "activeNodesEqual old new \<Longrightarrow> expected = getNumReplicasToWrite old"
    using assms(2) by (simp add: activeNodesEqual_def getNumReplicasToWrite_def)
  show ?thesis
    unfolding applyActiveNodesTransition_def
    by (intro via_if maybe_num maybe_last quorum_step active_step assms(1); erule within_enough; use assms(2,3) equal in auto)
qed

lemma transition_active:
  assumes "in_int64 expected" and "\<not> only_removes old new actual expected" and "\<forall>q \<in> Q. q \<subseteq> names old"
  shows "via (\<lambda>h. acks_active names (conf h)) (at {old} {actual} Q)
    (applyActiveNodesTransition old new actual expected ops) (\<lambda>r s. True)"
proof -
  have equal: "activeNodesEqual old new \<Longrightarrow> names new \<subseteq> names old"
    by (rule names_mono) (auto simp: activeNodesEqual_def activeNodesSet_def list_all_iff)
  have common: "names (activeNodesIntersection old new) \<subseteq> names old"
      "names (activeNodesIntersection old new) \<subseteq> names new"
    by (rule names_mono; auto simp: activeNodesIntersection_def activeNodesSet_def)+
  show ?thesis
    unfolding applyActiveNodesTransition_def
    by (intro via_if maybe_num maybe_last quorum_step active_step assms(1);
        (erule within_active; use assms(3) equal common in auto)?)
      (use assms(2) in \<open>auto simp: only_removes_def\<close>)
qed

end

section \<open>The names of a host\<close>

text \<open>
  The table of hosts and addresses, from which the names of the replicas are made. The operations
  of the transition leave it as it is.
\<close>

type_synonym table = "(string \<times> nat) list \<times> (node_ptr \<Rightarrow> string list option)"

definition table_of :: "st \<Rightarrow> table" where
  "table_of s = (shard_nodes s, \<lambda>p. map_option n_ips (heap s p))"

definition host_names :: "Config \<Rightarrow> string \<Rightarrow> table \<Rightarrow> string \<Rightarrow> string list" where
  "host_names C m tbl h = (if h = m then [] else case map_of (fst tbl) h of None \<Rightarrow> []
     | Some n \<Rightarrow> (case snd tbl (h, n) of None \<Rightarrow> []
       | Some ips \<Rightarrow> host_port C h # map (host_port C) ips))"

definition names_of :: "Config \<Rightarrow> string \<Rightarrow> table \<Rightarrow> string list \<Rightarrow> string set" where
  "names_of C m tbl v = set (concat (map (host_names C m tbl) v))"

definition tidy :: "Config \<Rightarrow> string \<Rightarrow> table \<Rightarrow> bool" where
  "tidy C m tbl \<longleftrightarrow> (\<forall>h. \<forall>w \<in> set (host_names C m tbl h). CHR '' '' \<notin> set w)"

definition with_table :: "Config \<Rightarrow> string \<Rightarrow> table \<Rightarrow> st \<Rightarrow> bool" where
  "with_table C m tbl s \<longleftrightarrow> table_of s = tbl \<and> tidy C m tbl"

lemma names_in_join:
  assumes "\<forall>w \<in> set ws. CHR '' '' \<notin> set w"
  shows "names_in (str_join '' '' ws) = {w \<in> set ws. w \<noteq> []}"
proof (cases "ws = []")
  case False
  with assms have "str_split CHR '' '' (str_join '' '' ws) = ws" by (intro str_split_join)
  then show ?thesis by (simp add: names_in_def)
qed (simp add: names_in_def)

lemma host_names_ne: "w \<in> set (host_names C m tbl h) \<Longrightarrow> w \<noteq> []"
  by (auto simp: host_names_def host_port_def split: if_splits option.splits)

lemma names_in_value:
  "tidy C m tbl \<Longrightarrow> names_in (str_join '' '' (sort (concat (map (host_names C m tbl) v)))) = names_of C m tbl v"
  by (subst names_in_join) (auto simp: tidy_def names_of_def dest: host_names_ne)

text \<open>The order of the names in the value does not matter.\<close>
lemma names_in_sorted: "names_in (str_join '' '' (sort (str_split CHR '' '' v))) = names_in v"
  by (subst names_in_join) (auto simp: names_in_def dest: str_split_parts)

section \<open>What keeps the table\<close>

definition steady :: "'a M \<Rightarrow> bool" where
  "steady m \<longleftrightarrow> (\<forall>s. table_of (snd (m s)) = table_of s)"

named_theorems steady_intros "what keeps the table of hosts"

lemma steady_perform [steady_intros]:
  assumes "steady m" and "\<And>x. steady (k x)"
  shows "steady (perform m k)"
  unfolding steady_def
proof
  fix s
  obtain r t where t: "m s = (r, t)" by fastforce
  have "table_of t = table_of s" using assms(1) t by (auto simp: steady_def dest: spec [of _ s])
  with assms(2) t show "table_of (snd (perform m k s)) = table_of s"
    by (cases r) (auto simp: steady_def perform_def)
qed

lemma steady_basic [steady_intros]: "steady (ret x)" "steady (halt h)" "steady (gets f)"
  by (simp_all add: steady_def comp_defs)

lemma steady_modify [steady_intros]: "(\<And>s. table_of (f s) = table_of s) \<Longrightarrow> steady (modify f)"
  by (simp add: steady_def modify_def)

lemma steady_record [steady_intros]: "steady (record_event e)"
  by (simp add: record_event_def steady_def modify_def table_of_def)

lemma steady_andThen [steady_intros]: "steady m \<Longrightarrow> steady k \<Longrightarrow> steady (andThen m k)"
  unfolding andThen_def by (rule steady_perform)

lemma steady_cases [steady_intros]:
  "(b \<Longrightarrow> steady m) \<Longrightarrow> (\<not> b \<Longrightarrow> steady m') \<Longrightarrow> steady (if b then m else m')"
  "steady m \<Longrightarrow> (\<And>x. steady (k x)) \<Longrightarrow> steady (case p of None \<Rightarrow> m | Some x \<Rightarrow> k x)"
  "(\<And>e. steady (l e)) \<Longrightarrow> (\<And>x. steady (l' x)) \<Longrightarrow> steady (case r of Inl e \<Rightarrow> l e | Inr x \<Rightarrow> l' x)"
  "(\<And>x y. steady (k' x y)) \<Longrightarrow> steady (case q of (x, y) \<Rightarrow> k' x y)"
  by (auto split: option.split sum.split prod.split)

lemma steady_errors [steady_intros]:
  "steady m \<Longrightarrow> steady k \<Longrightarrow> steady (checked m k)"
  "steady m \<Longrightarrow> steady k' \<Longrightarrow> steady (checked_or m k')"
  "steady n \<Longrightarrow> (\<And>x. steady (l x)) \<Longrightarrow> steady (attempt n l)"
  "steady n \<Longrightarrow> (\<And>x. steady (l' x)) \<Longrightarrow> steady (attempt_err n l')"
  "steady m \<Longrightarrow> steady (map_err f m)" "(b \<Longrightarrow> steady d) \<Longrightarrow> steady (doWhen b d)" "steady (deref p)"
  unfolding checked_def checked_or_def attempt_def attempt_err_def map_err_def doWhen_def deref_def
  by (intro steady_intros; simp)+

lemma steady_loops [steady_intros]:
  "(\<And>x. steady (f x)) \<Longrightarrow> steady (each f xs)"
  "(\<And>x. steady (g x)) \<Longrightarrow> steady (checked_each g xs)"
  by (induction xs) (auto intro: steady_intros)

lemma steady_actions [steady_intros]:
  "steady (dial E opts)" "steady (do_cmd E h c)" "steady (zk_read_node E p)" "steady (zk_write E w)"
  unfolding dial_def do_cmd_def zk_read_node_def zk_write_def by (intro steady_intros)+

lemma steady_retry [steady_intros]: "steady m \<Longrightarrow> steady (retry E n m)"
  by (induction n) (auto intro!: steady_intros)

lemma steady_session [steady_intros]: "steady (handleEvents E)" "steady (IsConnected E)"
proof -
  have "steady (handleSessionEvent ev)" for ev
    by (cases ev) (auto simp: upd_zk_def handleCritical_def table_of_def intro!: steady_intros)
  then show "steady (handleEvents E)" "steady (IsConnected E)"
    unfolding handleEvents_def IsConnected_def by (intro steady_intros; simp)+
qed

lemma steady_requests [steady_intros]:
  "steady m \<Longrightarrow> steady (retryRequest E C m)" "steady (dcs_Set E C path d)"
proof -
  have r: "steady (retryRequest E C m)" if "steady m" for m :: "(goerr + 'x) M"
    unfolding retryRequest_def retryRequestInternal_def by (intro steady_intros that)
  then show "steady m \<Longrightarrow> steady (retryRequest E C m)" .
  have m: "steady (missing_paths E C ps)" for ps
    by (induction ps) (auto simp: retryGet_def intro!: steady_intros r)
  show "steady (dcs_Set E C path d)"
    unfolding dcs_Set_def dcs_set_def makePath_def create_missing_def retryGet_def retryCreate_def retrySet_def
      err_of_def Let_def
    by (intro steady_intros r m)
qed

lemma steady_node [steady_intros]:
  "steady (get_node p)" "steady (ensureConn E p)" "steady (send E p c)" "steady (configGet E p k)"
  "steady (set_then_rewrite E p k v)"
proof -
  show g: "steady (get_node p)" for p unfolding get_node_def by (intro steady_intros)
  have u: "steady (upd_node r (\<lambda>n. n\<lparr>n_conn := True\<rparr>))" for r
    unfolding upd_node_def by (intro steady_intros) (auto simp: table_of_def fun_eq_iff option.map_comp o_def)
  show e: "steady (ensureConn E p)" for p unfolding ensureConn_def by (intro steady_intros g u)
  have c: "steady (conn_do E p c)" for c unfolding conn_do_def by (intro steady_intros g)
  show s: "steady (send E p c)" for c unfolding send_def conn_err_def by (intro steady_intros e c)
  show "steady (configGet E p k)" unfolding configGet_def by (intro steady_intros e c)
  show "steady (set_then_rewrite E p k v)"
    unfolding set_then_rewrite_def configRewrite_def by (intro steady_intros s)
qed

text \<open>A property of the history along a computation that keeps the table.\<close>
lemma via_steady:
  assumes "through I P m Q" and "steady m"
  shows "via I (\<lambda>s. with_table C n tbl s \<and> P (hist s)) m (\<lambda>x s. with_table C n tbl s \<and> Q x (hist s))"
proof (rule viaI)
  fix s r s'
  assume P: "with_table C n tbl s \<and> P (hist s)" and run: "m s = (r, s')"
  note m = throughD [OF assms(1) conjunct2 [OF P] run]
  show "suffix (hist s) (hist s')" by (rule m(1))
  show "I h" if "between (hist s) h (hist s')" for h using that by (rule m(2))
next
  fix s x s'
  assume P: "with_table C n tbl s \<and> P (hist s)" and run: "m s = (Ok x, s')"
  have "table_of s' = table_of s" using assms(2) run by (auto simp: steady_def dest: spec [of _ s])
  then show "with_table C n tbl s' \<and> Q x (hist s')"
    using throughD(3) [OF assms(1) conjunct2 [OF P] run] P by (simp add: with_table_def)
qed

section \<open>The operations of \<open>updateActiveNodes\<close>\<close>

lemma after_Cons:
  "after C m B (e # h) = \<lparr> p_act = upd_act C e (p_act (after C m B h)),
     p_num = upd_num m e (p_num (after C m B h)), p_quo = upd_quo m e (p_quo (after C m B h)) \<rparr>"
  by (simp add: after_def)

lemma upd_quiet:
  assumes "quiet e"
  shows "upd_act C e S = S" and "upd_num m e T = T" and "upd_quo m e U \<subseteq> U"
proof -
  show "upd_act C e S = S" using assms by (cases e) auto
  have "upd_num m (EvCmd h c r) T = T" "upd_quo m (EvCmd h c r) U \<subseteq> U" if "read_only_cmd c" for h c r
    using that by (cases c; auto split: sum.splits)+
  with assms show "upd_num m e T = T" "upd_quo m e U \<subseteq> U" by (cases e; auto)+
qed

lemma within_quiet:
  assumes "quiet e" and "within A N Q (after C m B h)"
  shows "within A N Q (after C m B (e # h))"
proof -
  have "upd_quo m e (p_quo (after C m B h)) \<subseteq> Q"
    using upd_quiet(3) [OF assms(1)] assms(2) by (blast intro: order_trans dest: within_def [THEN iffD1])
  with assms show ?thesis by (simp add: within_def after_Cons upd_quiet)
qed

text \<open>The three ways a command to the master changes the possibilities.\<close>

lemma within_cmd:
  assumes "within A N Q (after C m B h)"
  shows "within A N (insert (names_in v) Q) (after C m B (EvCmd m (ConfigSet ''quorum-replicas'' v) r # h))"
    and "reply_err r = None \<Longrightarrow>
      within A N {names_in v} (after C m B (EvCmd m (ConfigSet ''quorum-replicas'' v) r # h))"
    and "in_int64 n \<Longrightarrow>
      within A (insert n N) Q (after C m B (EvCmd m (ConfigSet ''quorum-replicas-to-write'' (itoa n)) r # h))"
    and "in_int64 n \<Longrightarrow> reply_err r = None \<Longrightarrow>
      within A {n} Q (after C m B (EvCmd m (ConfigSet ''quorum-replicas-to-write'' (itoa n)) r # h))"
    and "within A N Q (after C m B (EvCmd m ConfigRewrite r # h))"
  using assms by (auto simp: within_def after_Cons or_old_def ParseInt_itoa split: if_splits)

lemma through_set_then_rewrite:
  assumes m: "ptr_to m p" and P: "\<And>e h. quiet e \<Longrightarrow> P h \<Longrightarrow> P (e # h)" and I: "\<And>h. P h \<Longrightarrow> I h"
    and cmd: "\<And>c r h. c = ConfigSet k v \<or> c = ConfigRewrite \<Longrightarrow> P h \<Longrightarrow> P (EvCmd m c r # h)"
    and D: "\<And>r h. reply_err r = None \<Longrightarrow> P h \<Longrightarrow> D (EvCmd m (ConfigSet k v) r # h)"
      "\<And>e h. quiet e \<Longrightarrow> D h \<Longrightarrow> D (e # h)" "\<And>r h. D h \<Longrightarrow> D (EvCmd m ConfigRewrite r # h)"
  shows "through I P (set_then_rewrite E p k v) (\<lambda>(err, rewriteErr) h. P h \<and> (err = None \<longrightarrow> D h))"
  unfolding set_then_rewrite_def
proof (rule through_perform)
  show "through I P (send E p (ConfigSet k v)) (\<lambda>e h. P h \<and> (e = None \<longrightarrow> D h))"
    by (rule through_send [OF m]) (auto intro: P I cmd D(1))
  fix e
  have "through I (\<lambda>h. P h \<and> D h) (configRewrite E p) (\<lambda>x h. P h \<and> D h)"
    unfolding configRewrite_def
    by (rule through_weaken [OF through_send [OF m, where D = "\<lambda>h. True"]]) (auto intro: P I cmd D(2,3))
  then show "through I (\<lambda>h. P h \<and> (e = None \<longrightarrow> D h)) (case e of None \<Rightarrow>
        perform (configRewrite E p) (\<lambda>re. ret (None, re)) | Some x \<Rightarrow> ret (Some x, None))
      (\<lambda>(err, rewriteErr) h. P h \<and> (err = None \<longrightarrow> D h))"
    by (cases e) (auto intro!: through_ret through_perform I)
qed

lemma active_law:
  "via (\<lambda>h. within (insert v A) N Q (after C m B h))
     (\<lambda>s. with_table C m tbl s \<and> within A N Q (after C m B (hist s))) (setActiveNodes (active_ops E C m p) v)
     (\<lambda>r s. with_table C m tbl s \<and> within (if r = None then {v} else insert v A) N Q (after C m B (hist s)))"
proof -
  let ?P = "\<lambda>h. within (insert v A) N Q (after C m B h)" and ?D = "\<lambda>h. within {v} N Q (after C m B h)"
  have "through ?P ?P (dcs_Set E C pathActiveNodes (JStrings v)) (\<lambda>r h. ?P h \<and> (r = None \<longrightarrow> ?D h))"
  proof (rule through_dcs_Set)
    fix w r h assume "set_writes C pathActiveNodes (JStrings v) w" and "?P h"
    then show "?P (EvZkWrite w r # h)"
      by (cases w) (auto simp: within_def after_Cons readable_def or_old_def split: if_splits)
  next
    fix e h assume "stores C pathActiveNodes (JStrings v) e" and "?P h"
    then show "?D (e # h)"
      by (cases "(C, pathActiveNodes, JStrings v, e)" rule: stores.cases)
        (auto simp: within_def after_Cons readable_def or_old_def)
  qed (auto intro: within_quiet)
  then have "through ?P ?P (map_err f (dcs_Set E C pathActiveNodes (JStrings v))) (\<lambda>r h. ?P h \<and> (r = None \<longrightarrow> ?D h))" for f
    unfolding map_err_def by (rule through_perform) (auto intro: through_ret)
  then have "via ?P (\<lambda>s. with_table C m tbl s \<and> ?P (hist s)) (setActiveNodes (active_ops E C m p) v)
      (\<lambda>r s. with_table C m tbl s \<and> ?P (hist s) \<and> (r = None \<longrightarrow> ?D (hist s)))"
    unfolding active_ops_def transition_ops.simps by (rule via_steady) (intro steady_intros)
  then show ?thesis
    by (rule via_weaken) (auto intro: within_mono)
qed

lemma num_law:
  assumes "ptr_to m p" and "in_int64 n"
  shows "via (\<lambda>h. within A (insert n N) Q (after C m B h))
     (\<lambda>s. with_table C m tbl s \<and> within A N Q (after C m B (hist s))) (setNumQuorumReplicas (active_ops E C m p) n)
     (\<lambda>r s. with_table C m tbl s \<and> within A (if r = None then {n} else insert n N) Q (after C m B (hist s)))"
proof -
  let ?P = "\<lambda>h. within A (insert n N) Q (after C m B h)" and ?D = "\<lambda>h. within A {n} Q (after C m B h)"
  have "through ?P ?P (SetNumQuorumReplicas E p n) (\<lambda>(err, re) h. ?P h \<and> (err = None \<longrightarrow> ?D h))"
    unfolding SetNumQuorumReplicas_def
  proof (rule through_set_then_rewrite [OF assms(1)])
    fix c r h
    assume c: "c = ConfigSet ''quorum-replicas-to-write'' (itoa n) \<or> c = ConfigRewrite" and P: "?P h"
    from within_cmd(3) [OF P assms(2)] within_cmd(5) [OF P] c
    show "?P (EvCmd m c r # h)" by auto
  qed (use assms(2) in \<open>auto intro: within_quiet within_cmd\<close>)
  then have "through ?P ?P (perform (SetNumQuorumReplicas E p n) (\<lambda>(err, rewriteErr). ret (map_option f err)))
      (\<lambda>r h. ?P h \<and> (r = None \<longrightarrow> ?D h))" for f
    by (rule through_perform) (auto intro: through_ret)
  then have "via ?P (\<lambda>s. with_table C m tbl s \<and> ?P (hist s)) (setNumQuorumReplicas (active_ops E C m p) n)
      (\<lambda>r s. with_table C m tbl s \<and> ?P (hist s) \<and> (r = None \<longrightarrow> ?D (hist s)))"
    unfolding active_ops_def transition_ops.simps SetNumQuorumReplicas_def
    by (rule via_steady) (intro steady_intros)
  then show ?thesis
    by (rule via_weaken) (auto intro: within_mono)
qed

text \<open>The value for \<open>quorum-replicas\<close>: the names of the table.\<close>

lemma expected_names_run:
  assumes "table_of s = tbl" and "expected_names C m h s = (Ok ns, s')"
  shows "s' = s \<and> ns = host_names C m tbl h"
  using assms
  by (auto simp: expected_names_def host_names_def table_of_def shard_Get_def GetIPs_def get_node_def deref_def
      perform_def gets_def ret_def halt_def split: if_splits option.splits)

lemma expected_names_halt: "expected_names C m h s = (Halt x, s') \<Longrightarrow> s' = s"
  by (auto simp: expected_names_def shard_Get_def GetIPs_def get_node_def deref_def
      perform_def gets_def ret_def halt_def split: if_splits option.splits)

lemma via_names:
  assumes "\<And>s. P s \<Longrightarrow> I (hist s)" and "\<And>s. P s \<Longrightarrow> table_of s = tbl"
  shows "via I P (collect (expected_names C m) v) (\<lambda>ns s. P s \<and> ns = map (host_names C m tbl) v)"
proof (induction v)
  case Nil
  show ?case unfolding collect.simps by (rule via_ret) (auto intro: assms(1))
next
  case (Cons h v)
  have "via I P (expected_names C m h) (\<lambda>n s. P s \<and> n = host_names C m tbl h)"
  proof (rule viaI)
    fix s r s'
    assume P: "P s" and run: "expected_names C m h s = (r, s')"
    then have "s' = s" using assms(2) expected_names_run expected_names_halt by (cases r) blast+
    then show "suffix (hist s) (hist s')" "\<And>h. between (hist s) h (hist s') \<Longrightarrow> I h"
      using assms(1) [OF P] by auto
  next
    fix s n s'
    assume "P s" and "expected_names C m h s = (Ok n, s')"
    then show "P s' \<and> n = host_names C m tbl h" using assms(2) expected_names_run by blast
  qed
  moreover have "via I (\<lambda>s. P s \<and> n = host_names C m tbl h) (perform (collect (expected_names C m) v) (\<lambda>ns. ret (n # ns)))
      (\<lambda>ns s. P s \<and> ns = map (host_names C m tbl) (h # v))" for n
    by (rule via_when, rule via_perform [OF Cons.IH]) (auto intro!: via_ret assms(1))
  ultimately show ?case unfolding collect.simps by (rule via_perform)
qed

lemma quorum_value_law:
  fixes A :: "string list set" and N :: "int set" and Q :: "string set set" and B :: possible
    and C :: Config and m :: string
  assumes "ptr_to m p" and "names_in val = ns"
  defines "P \<equiv> \<lambda>h. within A N (insert ns Q) (after C m B h)" and "D \<equiv> \<lambda>h. within A N {ns} (after C m B h)"
  shows "through P P (attempt_err (GetQuorumReplicas E p) (\<lambda>currentValue.
       if currentValue \<noteq> val then perform (SetQuorumReplicas E p val) (\<lambda>(err, rewriteErr). ret err)
       else ret None)) (\<lambda>r h. P h \<and> (r = None \<longrightarrow> D h))"
proof -
  note quietly = within_quiet [where A = A and N = N and C = C and m = m and B = B]
  let ?read = "\<lambda>r h. P h \<and> (\<forall>v. r = Inr v \<longrightarrow> within A N {names_in v} (after C m B h))"
  have "through P P (configGet E p ''quorum-replicas'') ?read"
    unfolding configGet_def
  proof (rule through_checked_or [OF through_ensureConn])
    show "through P P (perform (conn_do E p (ConfigGet ''quorum-replicas'')) (\<lambda>r. ret (configParse ''quorum-replicas'' r))) ?read"
    proof (rule through_perform)
      show "through P P (conn_do E p (ConfigGet ''quorum-replicas'')) (\<lambda>r. ?read (configParse ''quorum-replicas'' r))"
        by (rule through_conn_do [OF assms(1)])
          (auto simp: P_def intro: quietly, auto simp: within_def after_Cons split: sum.splits)
    qed (auto intro: through_ret)
  qed (auto simp: P_def intro: quietly)
  then have "through P P (GetQuorumReplicas E p) ?read"
    unfolding GetQuorumReplicas_def
    by (rule through_attempt) (auto intro!: through_ret simp: names_in_sorted)
  then show ?thesis
  proof (rule through_attempt_err)
    fix v
    have "through P P (SetQuorumReplicas E p val) (\<lambda>(err, re) h. P h \<and> (err = None \<longrightarrow> D h))"
      unfolding SetQuorumReplicas_def
    proof (rule through_set_then_rewrite [OF assms(1)])
      fix c r h
      assume c: "c = ConfigSet ''quorum-replicas'' val \<or> c = ConfigRewrite" and "P h"
      then have w: "within A N (insert ns Q) (after C m B h)" by (simp add: P_def)
      from within_cmd(1) [OF w, of val r] within_cmd(5) [OF w, of r] c assms(2)
      show "P (EvCmd m c r # h)" by (auto simp: P_def)
    qed (use assms(2) in \<open>auto simp: P_def D_def intro: quietly within_cmd(2,5)\<close>)
    then have set: "through P P (perform (SetQuorumReplicas E p val) (\<lambda>(err, rewriteErr). ret err))
        (\<lambda>r h. P h \<and> (r = None \<longrightarrow> D h))"
      by (rule through_perform) (auto intro: through_ret)
    show "through P (?read (Inr v)) (if v \<noteq> val then perform (SetQuorumReplicas E p val)
        (\<lambda>(err, rewriteErr). ret err) else ret None) (\<lambda>r h. P h \<and> (r = None \<longrightarrow> D h))"
    proof (rule through_if)
      show "through P (?read (Inr v)) (perform (SetQuorumReplicas E p val) (\<lambda>(err, rewriteErr). ret err))
          (\<lambda>r h. P h \<and> (r = None \<longrightarrow> D h))"
        using set by (rule through_weaken) auto
    next
      assume "\<not> v \<noteq> val"
      then show "through P (?read (Inr v)) (ret None) (\<lambda>r h. P h \<and> (r = None \<longrightarrow> D h))"
        using assms(2) by (intro through_ret) (auto simp: D_def)
    qed
  qed auto
qed

lemma quorum_law:
  "via (\<lambda>h. within A N (insert (names_of C m tbl v) Q) (after C m B h))
     (\<lambda>s. with_table C m tbl s \<and> within A N Q (after C m B (hist s))) (setQuorumReplicas (active_ops E C m p) v)
     (\<lambda>r s. with_table C m tbl s \<and> within A N (if r = None then {names_of C m tbl v}
        else insert (names_of C m tbl v) Q) (after C m B (hist s)))"
proof -
  let ?ns = "names_of C m tbl v" and ?val = "str_join '' '' (sort (concat (map (host_names C m tbl) v)))"
  let ?P = "\<lambda>h. within A N (insert ?ns Q) (after C m B h)" and ?D = "\<lambda>h. within A N {?ns} (after C m B h)"
  let ?S = "\<lambda>s. with_table C m tbl s \<and> ?P (hist s)"
  have "via ?P ?S (actualizeQuorumReplicas E C m v)
      (\<lambda>r s. with_table C m tbl s \<and> ?P (hist s) \<and> (r = None \<longrightarrow> ?D (hist s)))"
    unfolding actualizeQuorumReplicas_def
  proof (rule via_perform)
    show "via ?P ?S (shard_Get m) (\<lambda>node s. ?S s \<and> ptr_to m node)"
      unfolding shard_Get_def by (rule via_weaken [OF via_gets]) (auto simp: ptr_to_def)
    fix node
    show "via ?P (\<lambda>s. ?S s \<and> ptr_to m node) (perform (collect (expected_names C m) v) (\<lambda>names.
         let expectedValue = str_join '' '' (sort (concat names)) in
         attempt_err (GetQuorumReplicas E node) (\<lambda>currentValue.
           if currentValue \<noteq> expectedValue
           then perform (SetQuorumReplicas E node expectedValue) (\<lambda>(err, rewriteErr). ret err)
           else ret None)))
        (\<lambda>r s. with_table C m tbl s \<and> ?P (hist s) \<and> (r = None \<longrightarrow> ?D (hist s)))"
    proof (rule via_when, rule via_perform)
      show "via ?P ?S (collect (expected_names C m) v) (\<lambda>ns s. ?S s \<and> ns = map (host_names C m tbl) v)"
        by (rule via_names) (auto simp: with_table_def)
      fix names
      assume m: "ptr_to m node"
      have st: "steady (attempt_err (GetQuorumReplicas E node) (\<lambda>currentValue.
           if currentValue \<noteq> ?val then perform (SetQuorumReplicas E node ?val) (\<lambda>(err, rewriteErr). ret err)
           else ret None))"
        unfolding GetQuorumReplicas_def SetQuorumReplicas_def by (intro steady_intros)
      have good: "via ?P ?S (attempt_err (GetQuorumReplicas E node) (\<lambda>currentValue.
           if currentValue \<noteq> ?val then perform (SetQuorumReplicas E node ?val) (\<lambda>(err, rewriteErr). ret err)
           else ret None)) (\<lambda>r s. with_table C m tbl s \<and> ?P (hist s) \<and> (r = None \<longrightarrow> ?D (hist s)))"
        if t: "tidy C m tbl"
        by (rule via_steady [OF quorum_value_law [OF m names_in_value [OF t]] st])
      show "via ?P (\<lambda>s. ?S s \<and> names = map (host_names C m tbl) v)
          (let expectedValue = str_join '' '' (sort (concat names)) in
           attempt_err (GetQuorumReplicas E node) (\<lambda>currentValue.
             if currentValue \<noteq> expectedValue
             then perform (SetQuorumReplicas E node expectedValue) (\<lambda>(err, rewriteErr). ret err)
             else ret None))
          (\<lambda>r s. with_table C m tbl s \<and> ?P (hist s) \<and> (r = None \<longrightarrow> ?D (hist s)))"
      proof (cases "tidy C m tbl")
        case True
        show ?thesis by (rule via_when) (simp only: Let_def good [OF True])
      next
        case False
        then show ?thesis by (intro via_never) (simp add: with_table_def)
      qed
    qed
  qed
  then have "via ?P ?S (setQuorumReplicas (active_ops E C m p) v)
      (\<lambda>r s. with_table C m tbl s \<and> ?P (hist s) \<and> (r = None \<longrightarrow> ?D (hist s)))"
    unfolding active_ops_def transition_ops.simps map_err_def
    by (rule via_perform) (auto intro: via_ret)
  then show ?thesis
    by (rule via_weaken) (auto intro: within_mono)
qed

text \<open>The operations of \<open>updateActiveNodes\<close> implement the interface, for every pointer to the master.\<close>

interpretation real: transition_target "active_ops E C m (Some (m, n))" "with_table C m tbl" "after C m B"
    "names_of C m tbl" for E C m n tbl B
proof
  show "set v \<subseteq> set w \<Longrightarrow> names_of C m tbl v \<subseteq> names_of C m tbl w" for v w
    by (auto simp: names_of_def)
qed (rule quorum_law num_law active_law | simp add: ptr_to_def)+

section \<open>The properties of the transition\<close>

text \<open>
  C8 The write quorum is never too small: at every moment of the transition (between any two external
  actions, also when it stops in the middle and when writes that failed were applied), the number of
  acknowledgements the master waits for is enough for the set of active nodes the DCS may hold.
\<close>
theorem transition_enough_acks:
  assumes "in_int64 (getNumReplicasToWrite new)" and "getNumReplicasToWrite old \<le> actual"
    and "with_table C m tbl s" and "within {old} {actual} Q (after C m B (hist s))"
    and "between (hist s) h (hist (snd (applyActiveNodesTransition old new actual
           (getNumReplicasToWrite new) (active_ops E C m (Some (m, n))) s)))"
  shows "enough_acks (after C m B h)"
proof -
  have "real.at C m tbl B {old} {actual} Q s" using assms(3,4) by (simp add: real.at_def)
  from via_moment [OF real.transition_enough [OF assms(1) refl assms(2)] this assms(5)] show ?thesis .
qed

text \<open>
  C9 Only active nodes acknowledge: at every moment of a transition that does not only remove nodes,
  every replica whose acknowledgement may count is named by every set of active nodes the DCS may hold.
\<close>
theorem transition_acks_active:
  assumes "in_int64 (getNumReplicasToWrite new)"
    and "\<not> only_removes old new actual (getNumReplicasToWrite new)"
    and "\<forall>q \<in> Q. q \<subseteq> names_of C m tbl old"
    and "with_table C m tbl s" and "within {old} {actual} Q (after C m B (hist s))"
    and "between (hist s) h (hist (snd (applyActiveNodesTransition old new actual
           (getNumReplicasToWrite new) (active_ops E C m (Some (m, n))) s)))"
  shows "acks_active (names_of C m tbl) (after C m B h)"
proof -
  have "real.at C m tbl B {old} {actual} Q s" using assms(4,5) by (simp add: real.at_def)
  from via_moment [OF real.transition_active [OF assms(1,2,3)] this assms(6)] show ?thesis .
qed

text \<open>The instances: three hosts, master \<open>h1\<close>.\<close>

definition sample_table :: table where "sample_table = table_of sample_state"

definition sample_possible :: "string list \<Rightarrow> int \<Rightarrow> possible" where
  "sample_possible A k = \<lparr> p_act = {A}, p_num = {k},
     p_quo = {names_of sample_config ''h1'' sample_table A} \<rparr>"

lemma sample_names: "host_names sample_config ''h1'' sample_table h =
    (if h = ''h2'' then [''h2:7'', ''10.0.0.1:7''] else if h = ''h3'' then [''h3:7'', ''10.0.0.1:7''] else [])"
proof -
  have "itoa 7 = ''7''" by code_simp
  then have p: "host_port sample_config g = g @ '':7''" for g
    by (simp add: host_port_def sample_config_def DefaultValkeyConfig_def)
  show ?thesis
    by (simp add: host_names_def sample_table_def table_of_def sample_state_def sample_node_def p)
qed

lemma sample_with_table: "with_table sample_config ''h1'' sample_table sample_state"
  by (auto simp: with_table_def sample_table_def tidy_def sample_names [unfolded sample_table_def] split: if_splits)

lemma sample_between: "between (hist sample_state) h h"
  by (simp add: between_def sample_state_def)

lemma sample_within: "within {A} {k} (p_quo (sample_possible A k))
    (after sample_config ''h1'' (sample_possible A k) (hist sample_state))"
  by (simp add: within_def after_def sample_possible_def sample_state_def)

theorem transition_enough_acks_witness:
  "enough_acks (after sample_config ''h1'' (sample_possible [''h1''] 0) (hist (snd (applyActiveNodesTransition
     [''h1''] [''h1'', ''h2'', ''h3''] 0 1 (active_ops sample_env sample_config ''h1'' (Some (''h1'', 0))) sample_state))))"
  using transition_enough_acks [OF _ _ sample_with_table sample_within sample_between, of "[''h1'', ''h2'', ''h3'']" "[''h1'']" 0]
  by (simp add: getNumReplicasToWrite_def in_int64_def min_int64_def max_int64_def)

theorem transition_acks_active_witness:
  "acks_active (names_of sample_config ''h1'' sample_table)
     (after sample_config ''h1'' (sample_possible [''h1''] 0) (hist (snd (applyActiveNodesTransition
     [''h1''] [''h1'', ''h2'', ''h3''] 0 1 (active_ops sample_env sample_config ''h1'' (Some (''h1'', 0))) sample_state))))"
proof (rule transition_acks_active [where old = "[''h1'']" and new = "[''h1'', ''h2'', ''h3'']" and actual = 0
      and s = sample_state and Q = "p_quo (sample_possible [''h1''] 0)" and E = sample_env and n = 0])
  show "\<not> only_removes [''h1''] [''h1'', ''h2'', ''h3''] 0 (getNumReplicasToWrite [''h1'', ''h2'', ''h3''])"
    by code_simp
qed (rule sample_with_table sample_within sample_between
    | simp add: getNumReplicasToWrite_def in_int64_def min_int64_def max_int64_def sample_possible_def)+


end
