(* ===== verification/Spec2Isabelle.thy ===== *)
theory Spec2Isabelle
  imports Program Diagnostics Dialers Hosts Commands Members Faults Membership Election Verdict Reach PillLaws Freeze QuorumTransition
begin

text \<open>
  A model of rdsync, the daemon that keeps one shard of valkey servers highly available: it runs beside
  every server, the processes coordinate through ZooKeeper, one of them holds the manager's lock, and
  the manager repairs replication, maintains the set of active nodes with the master's write quorum,
  and runs switchovers and failovers. The library models the Go code under src/internal and the commands of src/cmd/rdsync.

  \<^bold>\<open>How the code is modelled.\<close> A Go function with effects is a computation \<open>'a M\<close>: a function from the state
  of the process (\<open>st\<close> in \<open>World\<close>: the fields of \<open>App\<close>, \<open>Shard\<close>, \<open>zkDCS\<close>, the heap of \<open>Node\<close> objects) to an
  outcome and a new state. The outcome is a value, or the end of the process: \<open>Panic\<close> (nil dereference,
  slice out of range), \<open>ProcExit\<close> (os.Exit), or \<open>OutOfFuel\<close>. Errors are values (\<open>goerr\<close>): \<open>goerr option\<close> for
  a Go \<open>error\<close>, \<open>goerr + 'a\<close> for \<open>(T, error)\<close>. What the code cannot know (replies of valkey, the
  ZooKeeper server, DNS, the clock, the order of a map iteration or of goroutines) comes from the
  environment \<open>env\<close>, whose functions may depend on the whole history of events; every external
  action is recorded in that history, so that a property can speak of every moment of a run. Log lines are
  not modelled. Texts that the code inspects, prints or returns as errors are complete, but for durations, times and
  dumps of values in Go's syntax inside an error.

  \<^bold>\<open>Theories and sources.\<close> \<open>Prelude\<close> (integers of 64 bits, Go's strings and strconv), \<open>GoMonad\<close> (computations,
  Hoare triples), \<open>World\<close> (state, environment, events, and the footprint calculus \<open>foot\<close> with its
  permits), \<open>Through\<close> (laws that hold at every event of a run); \<open>Config\<close> (config/config.go, dcs/config.go),
  \<open>Types\<close> (app/types.go); \<open>Zk\<close>, \<open>ZkLaws\<close>, \<open>ZkServer\<close> (dcs/zk.go, dcs/dcs.go, app/critical.go: the store, its
  session and lock, the abstract store \<open>dcs_store\<close> and its implementation by a server's tree);
  \<open>Tls\<close> (dcs/zk_tls.go, valkey/tls.go); \<open>HostProvider\<close> (dcs/zk_host_provider.go); \<open>Node\<close> and \<open>Shard\<close> (valkey/node.go, valkey/shard.go); \<open>HostStates\<close>
  (app/state.go, app/parallel.go); \<open>Lag\<close>, \<open>Replication\<close>, \<open>Failover\<close>, \<open>Repair\<close>, \<open>ActiveNodes\<close>, \<open>Master\<close>, \<open>PoisonPill\<close>,
  \<open>LocalRepair\<close>, \<open>MaintenanceMode\<close>, \<open>Timing\<close> (the files of those names under app/, with aof.go and checks.go);
  \<open>SentiCache\<close>, \<open>CacheLaws\<close> (valkey/senticache.go, app/cache.go, and what the cache is told); \<open>SwitchoverRun\<close>, \<open>SwitchoverLaws\<close>, \<open>Freeze\<close>, \<open>Outcome\<close> (app/switchover.go,
  what holds at every event of its runs and what a run that succeeds has done), \<open>Verdict\<close> (what a recorded success is worth), \<open>SwitchoverSample\<close> (a switchover run to its end);
  \<open>QuorumTransition\<close>, \<open>Members\<close> (laws of app/active_nodes.go); \<open>Manager\<close> (app/manager.go); \<open>App\<close> (app/app.go, init.go,
  candidate.go, lost.go, local.go, info_file.go, the levels of logger.go); \<open>Diagnostics\<close> (app/logger.go, pprof.go); \<open>Cli\<close> (app/cli.go), \<open>Program\<close> (cmd/rdsync); \<open>Hosts\<close> (laws of the host
  provider), \<open>PillLaws\<close> (of the poison pill), \<open>Reach\<close> (what a round of each state can touch), \<open>Loop\<close> (the diagram of the
  states, the lost state and the way out of it, maintenance), \<open>Process\<close> (a process as a step relation: main loop, signals and
  goroutines in any order, and its invariants), \<open>Critical\<close> (the loss of the session outside a switchover), \<open>Membership\<close> (a process whose host is not in the shard), \<open>Election\<close> (the manager's
  lock among many processes, request by request), \<open>Ending\<close> and \<open>Rounds\<close> (the waits of a switchover, and every round of the main loop, end), \<open>Commands\<close> (what the operator's
  commands can touch), \<open>Faults\<close> (two panics of app/repair.go), \<open>Dialers\<close>
  (TLS of the ZooKeeper client); \<open>Sample\<close> (a concrete shard of three
  hosts for the witnesses).

  \<^bold>\<open>What the lemmas show.\<close> Each component has its footprint lemmas (\<open>foot_*\<close>): which commands on which hosts,
  which keys of the store and which files it may touch. On these rest the safety properties of whole
  runs: a promotion only after the announcement and after the writes are stopped, the critical section, the quorum at every moment of a
  transition. \<open>dcs_store\<close> states the contract of the store; \<open>zk_server\<close> proves it from a server's tree,
  and the properties about locks and switchover documents use that interpretation. \<open>best_scan\<close> is the
  contract of the two scans of lag.go, \<open>quorum_system\<close> that of the write and failover quorums,
  \<open>transition_target\<close> that of the three operations of a transition, \<open>process_invariant\<close> what makes a predicate hold in every
  state a process reaches. The election assumes that the server ends a session only after the client has forgotten the lock,
  and not between the two requests of a release.

  \<^bold>\<open>Bounds.\<close> A loop that waits for a deadline or for an event runs at most \<open>e_fuel\<close> rounds; running out of it
  is the outcome \<open>OutOfFuel\<close>, never a value. \<open>Ending\<close> shows how much is enough for a switchover: \<open>rounds second t\<close>
  for each of its timeouts \<open>t\<close>, when the clock is monotonic and \<open>time.Sleep\<close> sleeps, and \<open>Rounds\<close> for every state of the process; \<open>Hosts\<close>, that two rounds for each
  host are for \<open>Next\<close>. The waits of the commands end by their context.

  \<^bold>\<open>Not modelled.\<close> The lines of the log, the writers and the HTTP server behind \<open>Diagnostics\<close>, and the parsers of the libraries (the YAML of the
  configuration, certificates, the command line), whose results are parameters; JSON text (a stored document is a value of \<open>doc\<close>); real concurrency: goroutines over hosts
  run one after the other in an order the environment chooses; the ticks of the goroutines beside the
  main loop are definitions of their own, which \<open>Process\<close> interleaves as whole steps.
\<close>

end
